(* ===== verification/Go_Prelude.thy ===== *)
theory Go_Prelude
  imports
    Main
    "HOL-Library.Sublist"
    "HOL-Library.Char_ord"
    "HOL-Library.List_Lexorder"
    "HOL-Library.Product_Lexorder"
begin

text \<open>
  What the components share: the Go types and standard-library functions the modelled
  code uses, and generic lemmas on lists that the component proofs need.

  \<^item> A Go \<open>int\<close> or \<open>int64\<close> is an \<open>int\<close>; where an overflow can
    matter the arithmetic is wrapped by \<open>i64\<close>.
  \<^item> An instant (\<open>time.Time\<close>) is an \<open>int\<close> number of nanoseconds and a
    \<open>time.Duration\<close> an \<open>int\<close> in the \<open>int64\<close> range.
  \<^item> A Go string is a list of bytes. \<open>TrimSpace\<close> and \<open>ToLower\<close> are given
    on their ASCII range (the strings the code passes them are host names, URLs, roles,
    environment flags and slugs); bytes above 127 are left alone.
\<close>

section \<open>Collections of facts\<close>

named_theorems inv_intros \<open>preservation of an invariant by one operation\<close>
named_theorems store_simps \<open>how row updates act on a table\<close>

section \<open>Integers, instants and durations\<close>

type_synonym go_time = int
type_synonym duration = int

definition i64 :: "int \<Rightarrow> int" where
  "i64 x = (x + 2 ^ 63) mod 2 ^ 64 - 2 ^ 63"

definition second :: duration where "second = 1000000000"
definition minute :: duration where "minute = 60 * second"
definition hour :: duration where "hour = 60 * minute"

lemmas duration_defs = second_def minute_def hour_def

lemma i64_range: "- (2 ^ 63) \<le> i64 x \<and> i64 x < 2 ^ 63"
proof -
  have "0 \<le> (x + 2 ^ 63) mod 2 ^ 64" and "(x + 2 ^ 63) mod 2 ^ 64 < (2 ^ 64 :: int)"
    by simp_all
  then show ?thesis by (simp add: i64_def)
qed

lemma i64_id: "- (2 ^ 63) \<le> x \<Longrightarrow> x < 2 ^ 63 \<Longrightarrow> i64 x = x"
  by (simp add: i64_def)

lemma i64_i64 [simp]: "i64 (i64 x) = i64 x"
  using i64_range [of x] by (simp add: i64_id)

lemma i64_minus_mult: "i64 (x - 2 ^ 64 * k) = i64 x"
proof -
  have "(x - 2 ^ 64 * k + 2 ^ 63) mod 2 ^ 64 = (x + 2 ^ 63 + 2 ^ 64 * (- k)) mod (2 ^ 64 :: int)"
    by (simp add: algebra_simps)
  also have "\<dots> = (x + 2 ^ 63) mod 2 ^ 64" by (rule mod_mult_self2)
  finally show ?thesis by (simp add: i64_def)
qed

lemma i64_mult: "i64 (i64 a * b) = i64 (a * b)"
proof -
  define k where "k = (a + 2 ^ 63) div 2 ^ 64"
  have "i64 a = a - 2 ^ 64 * k"
    unfolding i64_def k_def by (simp add: minus_div_mult_eq_mod [symmetric] algebra_simps)
  then have "i64 a * b = a * b - 2 ^ 64 * (k * b)"
    by (simp only: left_diff_distrib mult.assoc)
  then show ?thesis by (simp only: i64_minus_mult)
qed

section \<open>Strings\<close>

definition is_space :: "char \<Rightarrow> bool" where
  "is_space c \<longleftrightarrow> c \<in> {CHR '' '', CHR 0x09, CHR 0x0A, CHR 0x0B, CHR 0x0C, CHR 0x0D}"

definition trim_left :: "(char \<Rightarrow> bool) \<Rightarrow> string \<Rightarrow> string" where
  "trim_left p s = dropWhile p s"

definition trim_right :: "(char \<Rightarrow> bool) \<Rightarrow> string \<Rightarrow> string" where
  "trim_right p s = rev (dropWhile p (rev s))"

text \<open>\<open>strings.TrimSpace\<close> and \<open>strings.Trim\<close> with a one-character cutset.\<close>

definition trim_space :: "string \<Rightarrow> string" where
  "trim_space s = trim_right is_space (trim_left is_space s)"

definition trim_char :: "char \<Rightarrow> string \<Rightarrow> string" where
  "trim_char c s = trim_right (\<lambda>x. x = c) (trim_left (\<lambda>x. x = c) s)"

definition lower_char :: "char \<Rightarrow> char" where
  "lower_char c =
     (let n = of_char c :: nat in if 65 \<le> n \<and> n \<le> 90 then char_of (n + 32) else c)"

definition to_lower :: "string \<Rightarrow> string" where
  "to_lower s = map lower_char s"

text \<open>
  \<open>strings.EqualFold\<close>, for arguments in ASCII (the code folds commit hashes, which
  are hexadecimal, and configured identifiers). On strings with bytes above 127 Go also folds
  the letters of other alphabets, which this definition keeps apart.
\<close>

definition equal_fold :: "string \<Rightarrow> string \<Rightarrow> bool" where
  "equal_fold a b \<longleftrightarrow> to_lower a = to_lower b"

fun has_prefix :: "string \<Rightarrow> string \<Rightarrow> bool" where
  "has_prefix s [] = True"
| "has_prefix [] (p # ps) = False"
| "has_prefix (x # xs) (p # ps) = (x = p \<and> has_prefix xs ps)"

definition trim_prefix :: "string \<Rightarrow> string \<Rightarrow> string" where
  "trim_prefix s p = (if has_prefix s p then drop (length p) s else s)"

definition has_suffix :: "string \<Rightarrow> string \<Rightarrow> bool" where
  "has_suffix s p = has_prefix (rev s) (rev p)"

definition trim_suffix :: "string \<Rightarrow> string \<Rightarrow> string" where
  "trim_suffix s p = (if has_suffix s p then take (length s - length p) s else s)"

text \<open>\<open>strings.Contains\<close>.\<close>

fun contains :: "string \<Rightarrow> string \<Rightarrow> bool" where
  "contains [] p = (p = [])"
| "contains (x # xs) p = (has_prefix (x # xs) p \<or> contains xs p)"

text \<open>
  \<open>strings.SplitN(s, sep, 2)\<close> for a one-byte separator: the part before the first
  separator and, when there is one, the part after it; \<open>strings.Split\<close> likewise.
\<close>

fun split_first :: "char \<Rightarrow> string \<Rightarrow> string \<times> string option" where
  "split_first c [] = ([], None)"
| "split_first c (x # xs) =
     (if x = c then ([], Some xs)
      else (case split_first c xs of (a, b) \<Rightarrow> (x # a, b)))"

fun split_char :: "char \<Rightarrow> string \<Rightarrow> string list" where
  "split_char c [] = [[]]"
| "split_char c (x # xs) =
     (if x = c then [] # split_char c xs
      else (case split_char c xs of [] \<Rightarrow> [[x]] | w # ws \<Rightarrow> (x # w) # ws))"

text \<open>\<open>strings.Join\<close>.\<close>

fun join :: "string \<Rightarrow> string list \<Rightarrow> string" where
  "join sep [] = []"
| "join sep [x] = x"
| "join sep (x # y # ys) = x @ sep @ join sep (y # ys)"

lemma join_Cons: "xs \<noteq> [] \<Longrightarrow> join sep (x # xs) = x @ sep @ join sep xs"
  by (cases xs) simp_all

lemmas lower_eval = to_lower_def lower_char_def char_of_def bit_iff_odd
lemmas trim_eval = trim_space_def trim_char_def trim_left_def trim_right_def is_space_def

lemma has_prefix_iff: "has_prefix s p \<longleftrightarrow> prefix p s"
  by (induction s p rule: has_prefix.induct) auto

lemma contains_iff: "contains s p \<longleftrightarrow> sublist p s"
  by (induction s) (auto simp: has_prefix_iff sublist_Cons_right)

lemma trim_prefix_append [simp]: "trim_prefix (p @ s) p = s"
  by (simp add: trim_prefix_def has_prefix_iff)

lemma trim_suffix_append [simp]: "trim_suffix (s @ p) p = s"
  by (simp add: trim_suffix_def has_suffix_def has_prefix_iff)

lemma split_char_no_sep: "c \<notin> set s \<Longrightarrow> split_char c s = [s]"
  by (induction s) auto

lemma split_char_ne [simp]: "split_char c s \<noteq> []"
  by (induction s) (auto split: list.splits)

lemma split_char_append:
  "c \<notin> set a \<Longrightarrow> split_char c (a @ c # b) = a # split_char c b"
  by (induction a) auto

lemma split_first_append:
  "c \<notin> set a \<Longrightarrow> split_first c (a @ c # b) = (a, Some b)"
  by (induction a) auto

section \<open>JSON\<close>

text \<open>
  A \<open>jsonb\<close> value. Payloads and results are stored as values, not as text.
\<close>

datatype json =
    JNull | JBool bool | JNum int | JStr string | JArr "json list"
  | JObj "(string \<times> json) list"

text \<open>
  The text PostgreSQL prints for a \<open>jsonb\<close> value. The pairs of an object are in the
  order the server keeps them in.
\<close>

definition nat_digits :: "nat \<Rightarrow> string" where
  "nat_digits n =
     (if n = 0 then ''0''
      else map (\<lambda>i. char_of (48 + n div 10 ^ i mod 10))
             (rev (filter (\<lambda>i. 10 ^ i \<le> n) [0..<n + 1])))"

definition int_text :: "int \<Rightarrow> string" where
  "int_text n = (if n < 0 then CHR ''-'' # nat_digits (nat (- n)) else nat_digits (nat n))"

definition hex_digit :: "nat \<Rightarrow> char" where
  "hex_digit n = (if n < 10 then char_of (48 + n) else char_of (87 + n))"

definition json_escape :: "char \<Rightarrow> string" where
  "json_escape c =
     (let n = of_char c :: nat; back = CHR 0x5C in
      if c = CHR 0x22 \<or> c = back then [back, c]
      else if n = 8 then [back, CHR ''b''] else if n = 12 then [back, CHR ''f'']
      else if n = 10 then [back, CHR ''n''] else if n = 13 then [back, CHR ''r'']
      else if n = 9 then [back, CHR ''t'']
      else if n < 32 then back # ''u00'' @ [hex_digit (n div 16), hex_digit (n mod 16)]
      else [c])"

definition json_quote :: "string \<Rightarrow> string" where
  "json_quote s = CHR 0x22 # concat (map json_escape s) @ [CHR 0x22]"

fun json_print :: "json \<Rightarrow> string" where
  "json_print JNull = ''null''"
| "json_print (JBool b) = (if b then ''true'' else ''false'')"
| "json_print (JNum n) = int_text n"
| "json_print (JStr s) = json_quote s"
| "json_print (JArr xs) = CHR ''['' # join '', '' (map json_print xs) @ '']''"
| "json_print (JObj kvs) =
     CHR 0x7B # join '', '' (map (\<lambda>(k, v). json_quote k @ '': '' @ json_print v) kvs) @ [CHR 0x7D]"

text \<open>
  \<open>payload->>'k'\<close>: the text under a key of an object, \<open>None\<close> for SQL's
  \<open>NULL\<close>. A string comes as it is, a JSON null as \<open>NULL\<close>, any other value as the
  server prints it.
\<close>

fun json_field :: "json option \<Rightarrow> string \<Rightarrow> json option" where
  "json_field (Some (JObj kvs)) k = map_of kvs k"
| "json_field _ k = None"

definition json_text :: "json option \<Rightarrow> string \<Rightarrow> string option" where
  "json_text p k =
     (case json_field p k of
        None \<Rightarrow> None
      | Some JNull \<Rightarrow> None
      | Some (JStr s) \<Rightarrow> Some s
      | Some v \<Rightarrow> Some (json_print v))"

text \<open>
  \<open>json.Unmarshal\<close> into a struct: an absent or null field keeps its zero value, a
  field of another type is an error; \<open>null\<close> itself decodes to the zero struct. Go
  matches keys case-insensitively; the model compares them exactly.
\<close>

fun string_field :: "json \<Rightarrow> string \<Rightarrow> string option" where
  "string_field JNull k = Some []"
| "string_field (JObj kvs) k =
     (case map_of kvs k of
        None \<Rightarrow> Some []
      | Some JNull \<Rightarrow> Some []
      | Some (JStr s) \<Rightarrow> Some s
      | Some _ \<Rightarrow> None)"
| "string_field _ k = None"

fun bool_field :: "json \<Rightarrow> string \<Rightarrow> bool option" where
  "bool_field JNull k = Some False"
| "bool_field (JObj kvs) k =
     (case map_of kvs k of
        None \<Rightarrow> Some False
      | Some JNull \<Rightarrow> Some False
      | Some (JBool b) \<Rightarrow> Some b
      | Some _ \<Rightarrow> None)"
| "bool_field _ k = None"

section \<open>Lists as tables\<close>

text \<open>
  A table is the list of its rows. \<open>update_where p f\<close> is SQL's
  \<open>UPDATE ... SET f WHERE p\<close>.
\<close>

definition update_where :: "('a \<Rightarrow> bool) \<Rightarrow> ('a \<Rightarrow> 'a) \<Rightarrow> 'a list \<Rightarrow> 'a list" where
  "update_where p f xs = map (\<lambda>x. if p x then f x else x) xs"

lemma length_update_where [simp]: "length (update_where p f xs) = length xs"
  by (simp add: update_where_def)

lemma update_where_Nil [simp]: "update_where p f [] = []"
  by (simp add: update_where_def)

lemma update_where_Cons [simp]:
  "update_where p f (x # xs) = (if p x then f x else x) # update_where p f xs"
  by (simp add: update_where_def)

lemma set_update_where:
  "set (update_where p f xs) = f ` {x \<in> set xs. p x} \<union> {x \<in> set xs. \<not> p x}"
  by (auto simp: update_where_def)

lemma map_update_where:
  "(\<And>x. g (f x) = g x) \<Longrightarrow> map g (update_where p f xs) = map g xs"
  by (simp add: update_where_def)

lemma update_where_id: "(\<And>x. x \<in> set xs \<Longrightarrow> \<not> p x) \<Longrightarrow> update_where p f xs = xs"
  by (induction xs) auto

lemma list_all_update_where:
  assumes "list_all q xs" and "\<And>x. x \<in> set xs \<Longrightarrow> q x \<Longrightarrow> p x \<Longrightarrow> q (f x)"
  shows "list_all q (update_where p f xs)"
  using assms by (induction xs) auto

lemma distinct_map_eqD:
  "distinct (map f xs) \<Longrightarrow> x \<in> set xs \<Longrightarrow> y \<in> set xs \<Longrightarrow> f x = f y \<Longrightarrow> x = y"
  by (simp add: distinct_map inj_on_def)

lemma find_Some_in: "find p xs = Some x \<Longrightarrow> x \<in> set xs \<and> p x"
  by (induction xs) (auto split: if_splits)

lemma find_None_iff_all: "find p xs = None \<longleftrightarrow> (\<forall>x \<in> set xs. \<not> p x)"
  by (induction xs) auto

text \<open>Counting the rows that satisfy a predicate, as \<open>SELECT COUNT(*)\<close> does.\<close>

definition count_where :: "('a \<Rightarrow> bool) \<Rightarrow> 'a list \<Rightarrow> nat" where
  "count_where p xs = length (filter p xs)"

lemma count_where_Nil [simp]: "count_where p [] = 0"
  by (simp add: count_where_def)

lemma count_where_Cons [simp]:
  "count_where p (x # xs) = (if p x then 1 else 0) + count_where p xs"
  by (simp add: count_where_def)

lemma count_where_append [simp]:
  "count_where p (xs @ ys) = count_where p xs + count_where p ys"
  by (simp add: count_where_def)

lemma count_where_0_iff: "count_where p xs = 0 \<longleftrightarrow> (\<forall>x \<in> set xs. \<not> p x)"
  by (simp add: count_where_def filter_empty_conv)

lemma count_list_distinct: "distinct xs \<Longrightarrow> count_list xs x \<le> 1"
  by (induction xs) (auto simp: count_notin)

lemma disjoint_fresh:
  assumes "A \<inter> B = {}" and "C \<subseteq> insert u B" and "u \<notin> A"
  shows "A \<inter> C = {}"
  using assms by blast

end
