(* ===== verification/Job_Store.thy ===== *)
theory Job_Store
  imports Go_Prelude
begin

text \<open>
  The \<open>jobs\<close> table and the operations of the package \<open>internal/jobs\<close> that
  read and write it (\<open>model.go\<close>, \<open>errors.go\<close>, \<open>jobs.go\<close>,
  \<open>worker.go\<close>, \<open>runtime.go\<close>, and the retry clock of \<open>processor.go\<close>).

  A row is a record, the table the list of its rows. A transaction is a function from the
  table to an error or a new table; an error leaves the table as it was, which is what
  a rolled-back transaction does. Every operation takes \<open>ok\<close>, false when the
  database itself fails, and a claim takes the set of rows other transactions hold
  locked, which \<open>FOR UPDATE SKIP LOCKED\<close> passes over. The partial unique indexes the
  migrations create on \<open>jobs\<close> are part of the table: \<open>index_key\<close> is the entry
  a row has in them.
\<close>

section \<open>Rows\<close>

text \<open>
  \<open>jobs.JobStatus\<close>; \<open>Cancelled\<close> is the one further status of
  \<open>runner.RunStatus\<close>, the second view of the same column.
\<close>

datatype job_status = Queued | Running | Succeeded | Failed | Retry | Cancelled

text \<open>
  A row. The last three columns belong to \<open>runner.Run\<close> and are not fields of
  \<open>jobs.Job\<close>, so a row the package inserts has \<open>NULL\<close> in them.
\<close>

record job =
  job_id :: string
  job_type :: string
  status :: job_status
  payload :: "json option"
  job_result :: "json option"
  job_error :: string
  attempts :: int
  max_attempts :: int
  run_at :: go_time
  locked_at :: "go_time option"
  locked_by :: string
  last_attempted_at :: "go_time option"
  finished_at :: "go_time option"
  created_at :: go_time
  updated_at :: go_time
  commit_hash :: "string option"
  k8s_job_name :: "string option"
  k8s_namespace :: "string option"

type_synonym job_store = "job list"

text \<open>The job types of \<open>types.go\<close>.\<close>

definition JobTypeCreateRun :: string where "JobTypeCreateRun = ''CREATE_RUN''"
definition JobTypeRefreshSBOMViews :: string where
  "JobTypeRefreshSBOMViews = ''REFRESH_SBOM_VIEWS''"
definition JobTypeOSVScan :: string where "JobTypeOSVScan = ''OSV_SCAN''"
definition JobTypeSBOMAdhocScan :: string where "JobTypeSBOMAdhocScan = ''SBOM_ADHOC_SCAN''"
definition JobTypeProbeSecrets :: string where "JobTypeProbeSecrets = ''PROBE_SECRETS''"
definition JobTypeImageScan :: string where "JobTypeImageScan = ''IMAGE_SCAN''"
definition JobTypeVulnMetaFetch :: string where "JobTypeVulnMetaFetch = ''VULN_META_FETCH''"
definition JobTypeFetchKEV :: string where "JobTypeFetchKEV = ''FETCH_KEV''"
definition JobTypeFetchEPSS :: string where "JobTypeFetchEPSS = ''FETCH_EPSS''"
definition JobTypeFetchDepHealth :: string where "JobTypeFetchDepHealth = ''FETCH_DEP_HEALTH''"
definition JobTypeAdvisoryBackfill :: string where
  "JobTypeAdvisoryBackfill = ''ADVISORY_BACKFILL''"
definition JobTypeDBMaintenance :: string where "JobTypeDBMaintenance = ''DB_MAINTENANCE''"

lemmas job_type_defs =
  JobTypeCreateRun_def JobTypeRefreshSBOMViews_def JobTypeOSVScan_def
  JobTypeSBOMAdhocScan_def JobTypeProbeSecrets_def JobTypeImageScan_def
  JobTypeVulnMetaFetch_def JobTypeFetchKEV_def JobTypeFetchEPSS_def
  JobTypeFetchDepHealth_def JobTypeAdvisoryBackfill_def JobTypeDBMaintenance_def

datatype job_err = JobTypeRequired | RecordNotFound | DuplicateKey | DBUnavailable

section \<open>The partial unique indexes\<close>

definition nullif_empty :: "string option \<Rightarrow> string option" where
  "nullif_empty x = (if x = Some [] then None else x)"

definition coalesce :: "'a option \<Rightarrow> 'a option \<Rightarrow> 'a option" where
  "coalesce x y = (case x of None \<Rightarrow> y | Some v \<Rightarrow> Some v)"

definition pending :: "job_status \<Rightarrow> bool" where
  "pending st \<longleftrightarrow> st = Queued \<or> st = Retry"

definition pending_or_running :: "job_status \<Rightarrow> bool" where
  "pending_or_running st \<longleftrightarrow> st = Queued \<or> st = Retry \<or> st = Running"

definition singleton_types :: "string list" where
  "singleton_types =
     [''REFRESH_SBOM_VIEWS'', ''OSV_SCAN'', ''FETCH_KEV'', ''FETCH_EPSS'',
      ''FETCH_DEP_HEALTH'', ''ADVISORY_BACKFILL'']"

text \<open>
  The entry of a row in the \<open>ux_jobs_*\<close> indexes: the index's type with the values of
  its key columns. A row is in at most one of them, and a \<open>NULL\<close> key column keeps it
  out, since \<open>NULL\<close>s are distinct in a unique index.
\<close>

definition index_key :: "job \<Rightarrow> (string \<times> string list) option" where
  "index_key j =
     (if job_type j \<in> set singleton_types then
        (if pending (status j) then Some (job_type j, []) else None)
      else if job_type j = JobTypeCreateRun then
        (if pending (status j) then
           (case (nullif_empty (json_text (payload j) ''repo_id''),
                  coalesce (nullif_empty (commit_hash j))
                    (nullif_empty (json_text (payload j) ''commit_sha''))) of
              (Some r, Some c) \<Rightarrow> Some (job_type j, [r, c])
            | _ \<Rightarrow> None)
         else None)
      else if job_type j = JobTypeImageScan then
        (if pending_or_running (status j) then
           map_option (\<lambda>d. (job_type j, [d])) (json_text (payload j) ''image_digest_id'')
         else None)
      else if job_type j = JobTypeVulnMetaFetch then
        (if pending_or_running (status j) then
           map_option (\<lambda>d. (job_type j, [d])) (json_text (payload j) ''vuln_id'')
         else None)
      else None)"

definition index_keys :: "job_store \<Rightarrow> (string \<times> string list) list" where
  "index_keys s = List.map_filter index_key s"

definition index_ok :: "job_store \<Rightarrow> bool" where
  "index_ok s \<longleftrightarrow> distinct (index_keys s)"

section \<open>Primitive statements\<close>

definition find_job :: "job_store \<Rightarrow> string \<Rightarrow> job option" where
  "find_job s i = find (\<lambda>j. job_id j = i) s"

definition set_job :: "string \<Rightarrow> (job \<Rightarrow> job) \<Rightarrow> job_store \<Rightarrow> job_store" where
  "set_job i f s = update_where (\<lambda>j. job_id j = i) f s"

definition db_insert :: "job \<Rightarrow> job_store \<Rightarrow> job_err + job_store" where
  "db_insert j s =
     (if job_id j \<in> job_id ` set s then Inl DuplicateKey
      else if index_ok (s @ [j]) then Inr (s @ [j]) else Inl DuplicateKey)"

definition db_update :: "string \<Rightarrow> (job \<Rightarrow> job) \<Rightarrow> job_store \<Rightarrow> job_err + job_store" where
  "db_update i f s =
     (let s' = set_job i f s in if index_ok s' then Inr s' else Inl DuplicateKey)"

section \<open>Creating a job\<close>

record create_input =
  in_type :: string
  in_payload :: "json option"
  in_run_at :: "go_time option"
  in_max_attempts :: int

definition new_job :: "go_time \<Rightarrow> string \<Rightarrow> create_input \<Rightarrow> job" where
  "new_job now uuid inp =
     \<lparr>job_id = uuid, job_type = in_type inp, status = Queued, payload = in_payload inp,
      job_result = None, job_error = [], attempts = 0,
      max_attempts = (if in_max_attempts inp \<le> 0 then 3 else in_max_attempts inp),
      run_at = (case in_run_at inp of None \<Rightarrow> now | Some t \<Rightarrow> t),
      locked_at = None, locked_by = [], last_attempted_at = None, finished_at = None,
      created_at = now, updated_at = now, commit_hash = None, k8s_job_name = None,
      k8s_namespace = None\<rparr>"

definition CreateJobTx ::
    "bool \<Rightarrow> go_time \<Rightarrow> string \<Rightarrow> create_input \<Rightarrow> job_store \<Rightarrow> job_err + (job \<times> job_store)" where
  "CreateJobTx ok now uuid inp s =
     (if in_type inp = [] then Inl JobTypeRequired
      else if \<not> ok then Inl DBUnavailable
      else (let j = new_job now uuid inp in
            case db_insert j s of Inl e \<Rightarrow> Inl e | Inr s' \<Rightarrow> Inr (j, s')))"

definition CreateJob ::
    "bool \<Rightarrow> go_time \<Rightarrow> string \<Rightarrow> create_input \<Rightarrow> job_store \<Rightarrow> job_err + (job \<times> job_store)" where
  "CreateJob ok now uuid inp s =
     (if in_type inp = [] then Inl JobTypeRequired else CreateJobTx ok now uuid inp s)"

section \<open>Finishing or deferring a job\<close>

text \<open>
  The row a status change writes. \<open>next\<close> is \<open>None\<close> for a nil or zero
  \<open>nextRunAt\<close>.
\<close>

definition status_updates ::
    "go_time \<Rightarrow> job_status \<Rightarrow> json option \<Rightarrow> string \<Rightarrow> go_time option \<Rightarrow> job \<Rightarrow> job" where
  "status_updates now st res err next j =
     (let j1 = j\<lparr>status := st, job_result := res, job_error := err, locked_at := None,
                 locked_by := [], updated_at := now\<rparr>;
          j2 = (if st = Succeeded \<or> st = Failed then j1\<lparr>finished_at := Some now\<rparr> else j1)
      in if st = Retry
         then j2\<lparr>run_at := (case next of None \<Rightarrow> now | Some t \<Rightarrow> t)\<rparr> else j2)"

definition UpdateJobStatus ::
    "bool \<Rightarrow> go_time \<Rightarrow> string \<Rightarrow> job_status \<Rightarrow> json option \<Rightarrow> string \<Rightarrow> go_time option
       \<Rightarrow> job_store \<Rightarrow> job_err + (job \<times> job_store)" where
  "UpdateJobStatus ok now i st res err next s =
     (if \<not> ok then Inl DBUnavailable
      else case find_job s i of
        None \<Rightarrow> Inl RecordNotFound
      | Some j \<Rightarrow>
          (case db_update i (status_updates now st res err next) s of
             Inl e \<Rightarrow> Inl e
           | Inr s' \<Rightarrow> Inr (status_updates now st res err next j, s')))"

section \<open>Claiming a job\<close>

definition claim_key :: "job \<Rightarrow> go_time \<times> go_time \<times> string" where
  "claim_key j = (run_at j, created_at j, job_id j)"

text \<open>
  \<open>ORDER BY run_at, created_at\<close> with \<open>First\<close>, which adds the primary key as the
  last sort column.
\<close>

definition first_job :: "job list \<Rightarrow> job option" where
  "first_job js = (if js = [] then None else Some (arg_min_list claim_key js))"

definition due :: "string set \<Rightarrow> go_time \<Rightarrow> job \<Rightarrow> bool" where
  "due skip now j \<longleftrightarrow> pending (status j) \<and> run_at j \<le> now \<and> job_id j \<notin> skip"

definition claim_updates :: "string \<Rightarrow> go_time \<Rightarrow> job \<Rightarrow> job" where
  "claim_updates worker now j =
     j\<lparr>status := Running, locked_at := Some now, locked_by := worker,
       attempts := attempts j + 1, last_attempted_at := Some now, updated_at := now\<rparr>"

definition claim_first ::
    "bool \<Rightarrow> string \<Rightarrow> go_time \<Rightarrow> (job \<Rightarrow> bool) \<Rightarrow> job_store \<Rightarrow> job_err + (job option \<times> job_store)" where
  "claim_first ok worker now p s =
     (if \<not> ok then Inl DBUnavailable
      else case first_job (filter p s) of
        None \<Rightarrow> Inr (None, s)
      | Some j \<Rightarrow>
          (case db_update (job_id j) (claim_updates worker now) s of
             Inl e \<Rightarrow> Inl e
           | Inr s' \<Rightarrow> Inr (Some (claim_updates worker now j), s')))"

definition ClaimNextJob ::
    "bool \<Rightarrow> string set \<Rightarrow> string \<Rightarrow> go_time \<Rightarrow> string list \<Rightarrow> job_store
       \<Rightarrow> job_err + (job option \<times> job_store)" where
  "ClaimNextJob ok skip worker now exclude s =
     claim_first ok worker now
       (\<lambda>j. due skip now j \<and> (exclude \<noteq> [] \<longrightarrow> job_type j \<notin> set exclude)) s"

definition ClaimNextJobOfType ::
    "bool \<Rightarrow> string set \<Rightarrow> string \<Rightarrow> go_time \<Rightarrow> string \<Rightarrow> job_store
       \<Rightarrow> job_err + (job option \<times> job_store)" where
  "ClaimNextJobOfType ok skip worker now ty s =
     claim_first ok worker now (\<lambda>j. job_type j = ty \<and> due skip now j) s"

definition CountRunningByType :: "string \<Rightarrow> job_store \<Rightarrow> int" where
  "CountRunningByType ty s = int (count_where (\<lambda>j. job_type j = ty \<and> status j = Running) s)"

section \<open>Stale jobs\<close>

text \<open>
  \<open>NextRetryTime\<close>: one minute, doubled \<open>attempts - 1\<close> times in
  \<open>int64\<close> arithmetic, capped at thirty minutes.
\<close>

fun double_delay :: "nat \<Rightarrow> duration \<Rightarrow> duration" where
  "double_delay 0 d = d"
| "double_delay (Suc n) d = double_delay n (i64 (d * 2))"

definition retry_delay :: "int \<Rightarrow> duration" where
  "retry_delay n =
     (let d = double_delay (nat (n - 1)) minute
      in if d > 30 * minute then 30 * minute else d)"

definition NextRetryTime :: "int \<Rightarrow> int \<Rightarrow> go_time \<Rightarrow> go_time" where
  "NextRetryTime n maxAttempts now = now + retry_delay n"

definition usesExtendedStaleTimeout :: "string \<Rightarrow> bool" where
  "usesExtendedStaleTimeout ty \<longleftrightarrow> ty = JobTypeCreateRun"

definition ShouldHeartbeat :: "string \<Rightarrow> bool" where
  "ShouldHeartbeat ty \<longleftrightarrow> \<not> usesExtendedStaleTimeout ty"

definition untouched_since :: "go_time \<Rightarrow> job \<Rightarrow> bool" where
  "untouched_since t j \<longleftrightarrow>
     (case locked_at j of Some l \<Rightarrow> l < t | None \<Rightarrow> updated_at j < t)"

definition stale :: "go_time \<Rightarrow> go_time \<Rightarrow> job \<Rightarrow> bool" where
  "stale syncBefore asyncBefore j \<longleftrightarrow>
     status j = Running \<and>
     ((job_type j = JobTypeCreateRun \<and> untouched_since asyncBefore j) \<or>
      (job_type j \<noteq> JobTypeCreateRun \<and> untouched_since syncBefore j))"

definition requeue_updates :: "go_time \<Rightarrow> go_time \<Rightarrow> job \<Rightarrow> job" where
  "requeue_updates now runAt j =
     j\<lparr>status := Retry, locked_at := None, locked_by := [], run_at := runAt,
       updated_at := now\<rparr>"

fun requeue_loop :: "go_time \<Rightarrow> job list \<Rightarrow> int \<Rightarrow> job_store \<Rightarrow> job_err + (int \<times> job_store)" where
  "requeue_loop now [] updated s = Inr (updated, s)"
| "requeue_loop now (j # js) updated s =
     (case db_update (job_id j)
             (requeue_updates now (NextRetryTime (attempts j) (max_attempts j) now)) s of
        Inl e \<Rightarrow> Inl e
      | Inr s' \<Rightarrow> requeue_loop now js (updated + 1) s')"

definition RequeueStaleJobs ::
    "bool \<Rightarrow> string set \<Rightarrow> go_time \<Rightarrow> go_time \<Rightarrow> go_time \<Rightarrow> job_store
       \<Rightarrow> job_err + (int \<times> job_store)" where
  "RequeueStaleJobs ok skip syncBefore asyncBefore now s =
     (if \<not> ok then Inl DBUnavailable
      else requeue_loop now
             (filter (\<lambda>j. stale syncBefore asyncBefore j \<and> job_id j \<notin> skip) s) 0 s)"

section \<open>Heartbeats\<close>

text \<open>One tick of \<open>HeartbeatJob\<close>: a single \<open>UPDATE\<close>, its error ignored.\<close>

definition heartbeat_tick :: "bool \<Rightarrow> string \<Rightarrow> string \<Rightarrow> go_time \<Rightarrow> job_store \<Rightarrow> job_store" where
  "heartbeat_tick ok i worker now s =
     (if ok then
        update_where (\<lambda>j. job_id j = i \<and> status j = Running \<and> locked_by j = worker)
          (\<lambda>j. j\<lparr>locked_at := Some now, updated_at := now\<rparr>) s
      else s)"

text \<open>The attempt counter taken back: \<open>GREATEST(attempts - 1, 0)\<close>.\<close>

definition rollback_attempt :: "bool \<Rightarrow> string \<Rightarrow> go_time \<Rightarrow> job_store \<Rightarrow> job_store" where
  "rollback_attempt ok i now s =
     (if ok then
        set_job i (\<lambda>j. j\<lparr>attempts := max (attempts j - 1) 0, updated_at := now\<rparr>) s
      else s)"

section \<open>The table's invariant\<close>

text \<open>
  What every row satisfies: counters in range, no pending row is locked, a finished row
  has its finishing time. The table: distinct primary keys and no clash in the indexes.
\<close>

definition row_ok :: "job \<Rightarrow> bool" where
  "row_ok j \<longleftrightarrow>
     0 \<le> attempts j \<and> 0 < max_attempts j \<and>
     (pending (status j) \<longrightarrow> locked_at j = None \<and> locked_by j = []) \<and>
     (status j = Succeeded \<or> status j = Failed \<longrightarrow> finished_at j \<noteq> None)"

definition store_inv :: "job_store \<Rightarrow> bool" where
  "store_inv s \<longleftrightarrow> distinct (map job_id s) \<and> index_ok s \<and> list_all row_ok s"

text \<open>The steps of the queue: each successful operation on the table.\<close>

inductive queue_step :: "job_store \<Rightarrow> job_store \<Rightarrow> bool" where
  create: "CreateJob ok now uuid inp s = Inr (j, s') \<Longrightarrow> queue_step s s'"
| claim: "ClaimNextJob ok skip w now ex s = Inr (r, s') \<Longrightarrow> queue_step s s'"
| claim_type: "ClaimNextJobOfType ok skip w now ty s = Inr (r, s') \<Longrightarrow> queue_step s s'"
| update: "UpdateJobStatus ok now i st res err next s = Inr (j, s') \<Longrightarrow> queue_step s s'"
| requeue: "RequeueStaleJobs ok skip t1 t2 now s = Inr (n, s') \<Longrightarrow> queue_step s s'"
| heartbeat: "queue_step s (heartbeat_tick ok i w now s)"
| rollback: "queue_step s (rollback_attempt ok i now s)"

inductive queue_reachable :: "job_store \<Rightarrow> bool" where
  empty: "queue_reachable []"
| step: "queue_reachable s \<Longrightarrow> queue_step s s' \<Longrightarrow> queue_reachable s'"

section \<open>Lemmas on rows and indexes\<close>

lemma pending_simps [simp]:
  "pending Queued" "pending Retry" "\<not> pending Running" "\<not> pending Succeeded"
  "\<not> pending Failed" "\<not> pending Cancelled"
  by (simp_all add: pending_def)

lemmas row_update_defs =
  status_updates_def claim_updates_def requeue_updates_def Let_def

lemma index_keys_simps [simp]:
  "index_keys [] = []"
  "index_keys (j # s) = (case index_key j of None \<Rightarrow> index_keys s | Some k \<Rightarrow> k # index_keys s)"
  "index_keys (s @ t) = index_keys s @ index_keys t"
  by (simp_all add: index_keys_def List.map_filter_def split: option.split)

lemma set_index_keys: "k \<in> set (index_keys s) \<longleftrightarrow> (\<exists>j \<in> set s. index_key j = Some k)"
  by (induction s) (auto split: option.splits)

lemma map_id_set_job [store_simps]:
  "(\<And>j. job_id (f j) = job_id j) \<Longrightarrow> map job_id (set_job i f s) = map job_id s"
  by (simp add: set_job_def map_update_where)

lemma index_key_cong:
  "job_type j = job_type k \<Longrightarrow> status j = status k \<Longrightarrow> payload j = payload k \<Longrightarrow>
     commit_hash j = commit_hash k \<Longrightarrow> index_key j = index_key k"
  by (simp only: index_key_def)

lemma index_keys_same:
  assumes "\<And>j. j \<in> set s \<Longrightarrow> p j \<Longrightarrow> index_key (f j) = index_key j"
  shows "index_keys (update_where p f s) = index_keys s"
  using assms by (induction s) (auto split: option.splits)

lemma index_keys_shrink:
  assumes "\<And>j. j \<in> set s \<Longrightarrow> p j \<Longrightarrow> index_key (f j) = None \<or> index_key (f j) = index_key j"
  shows "subseq (index_keys (update_where p f s)) (index_keys s)"
  using assms
proof (induction s)
  case Nil
  then show ?case by simp
next
  case (Cons j s)
  then have "subseq (index_keys (update_where p f s)) (index_keys s)" by simp
  with Cons.prems [of j] show ?case by (auto split: option.splits)
qed

lemma index_ok_shrink:
  assumes "index_ok s"
    and "\<And>j. j \<in> set s \<Longrightarrow> p j \<Longrightarrow> index_key (f j) = None \<or> index_key (f j) = index_key j"
  shows "index_ok (update_where p f s)"
  using index_keys_shrink [of s p f] assms
  by (auto simp: index_ok_def subseq_conv_nths distinct_nthsI)

lemma index_key_claim:
  "pending (status j) \<Longrightarrow>
     index_key (claim_updates w now j) = None \<or> index_key (claim_updates w now j) = index_key j"
  by (auto simp: index_key_def claim_updates_def pending_def pending_or_running_def)

lemma job_id_updates [simp]:
  "job_id (status_updates now st res err next j) = job_id j"
  "job_id (claim_updates w now j) = job_id j"
  "job_id (requeue_updates now t j) = job_id j"
  by (simp_all add: row_update_defs)

lemma row_ok_status [inv_intros]: "row_ok j \<Longrightarrow> row_ok (status_updates now st res err next j)"
  by (auto simp: row_ok_def row_update_defs)

lemma row_ok_claim [inv_intros]: "row_ok j \<Longrightarrow> row_ok (claim_updates w now j)"
  by (auto simp: row_ok_def row_update_defs)

lemma row_ok_requeue [inv_intros]: "row_ok j \<Longrightarrow> row_ok (requeue_updates now t j)"
  by (auto simp: row_ok_def row_update_defs)

lemma row_ok_new [inv_intros]: "row_ok (new_job now uuid inp)"
  by (simp add: row_ok_def new_job_def)

section \<open>Every operation keeps the invariant\<close>

lemma db_insert_inv:
  "db_insert j s = Inr s' \<Longrightarrow> store_inv s \<Longrightarrow> row_ok j \<Longrightarrow> store_inv s'"
  by (auto simp: db_insert_def store_inv_def split: if_splits)

lemma db_update_inv:
  assumes "db_update i f s = Inr s'" and "store_inv s"
    and "\<And>j. job_id (f j) = job_id j" and "\<And>j. row_ok j \<Longrightarrow> row_ok (f j)"
  shows "store_inv s'"
proof -
  from assms(1) have s': "s' = set_job i f s" and ix: "index_ok s'"
    by (auto simp: db_update_def Let_def split: if_splits)
  have "list_all row_ok s'"
    unfolding s' set_job_def using assms(2,4)
    by (auto simp: store_inv_def intro: list_all_update_where)
  with ix s' assms(2,3) show ?thesis
    by (simp add: store_inv_def map_id_set_job)
qed

lemma CreateJob_inv [inv_intros]:
  "CreateJob ok now uuid inp s = Inr (j, s') \<Longrightarrow> store_inv s \<Longrightarrow> store_inv s'"
  by (auto simp: CreateJob_def CreateJobTx_def Let_def split: if_splits sum.splits
      intro: db_insert_inv row_ok_new)

lemma UpdateJobStatus_inv [inv_intros]:
  "UpdateJobStatus ok now i st res err next s = Inr (j, s') \<Longrightarrow> store_inv s \<Longrightarrow> store_inv s'"
  by (auto simp: UpdateJobStatus_def split: if_splits option.splits sum.splits
      intro: db_update_inv row_ok_status)

lemma claim_first_inv [inv_intros]:
  "claim_first ok w now p s = Inr (r, s') \<Longrightarrow> store_inv s \<Longrightarrow> store_inv s'"
  by (auto simp: claim_first_def split: if_splits option.splits sum.splits
      intro: db_update_inv row_ok_claim)

lemma requeue_loop_inv [inv_intros]:
  "requeue_loop now js n s = Inr (m, s') \<Longrightarrow> store_inv s \<Longrightarrow> store_inv s'"
proof (induction now js n s rule: requeue_loop.induct)
  case (2 now j js n s)
  let ?f = "requeue_updates now (NextRetryTime (attempts j) (max_attempts j) now)"
  from "2.prems"(1) obtain s1
    where s1: "db_update (job_id j) ?f s = Inr s1" and rest: "requeue_loop now js (n + 1) s1 = Inr (m, s')"
    by (auto split: sum.splits)
  have "store_inv s1"
    using db_update_inv [OF s1 "2.prems"(2)] by (simp add: row_ok_requeue)
  with "2.IH" [OF s1 rest] show ?case .
qed simp

lemma heartbeat_tick_inv [inv_intros]:
  assumes "store_inv s"
  shows "store_inv (heartbeat_tick ok i w now s)"
proof -
  let ?p = "\<lambda>j. job_id j = i \<and> status j = Running \<and> locked_by j = w"
  let ?f = "\<lambda>j. j\<lparr>locked_at := Some now, updated_at := now\<rparr>"
  have "index_keys (update_where ?p ?f s) = index_keys s"
    by (rule index_keys_same, rule index_key_cong) simp_all
  moreover have "list_all row_ok (update_where ?p ?f s)"
    using assms by (auto simp: store_inv_def row_ok_def intro!: list_all_update_where)
  ultimately show ?thesis
    using assms
    by (simp add: heartbeat_tick_def store_inv_def index_ok_def map_update_where)
qed

lemma rollback_attempt_inv [inv_intros]:
  assumes "store_inv s"
  shows "store_inv (rollback_attempt ok i now s)"
proof -
  let ?p = "\<lambda>j. job_id j = i"
  let ?f = "\<lambda>j. j\<lparr>attempts := max (attempts j - 1) 0, updated_at := now\<rparr>"
  have "index_keys (update_where ?p ?f s) = index_keys s"
    by (rule index_keys_same, rule index_key_cong) simp_all
  moreover have "list_all row_ok (update_where ?p ?f s)"
    using assms by (auto simp: store_inv_def row_ok_def intro!: list_all_update_where)
  ultimately show ?thesis
    using assms
    by (simp add: rollback_attempt_def set_job_def store_inv_def index_ok_def map_update_where)
qed

lemma queue_step_inv: "queue_step s s' \<Longrightarrow> store_inv s \<Longrightarrow> store_inv s'"
  by (induction rule: queue_step.induct)
    (auto simp: ClaimNextJob_def ClaimNextJobOfType_def RequeueStaleJobs_def
      intro: inv_intros split: if_splits)

section \<open>What a claim does\<close>

lemma first_job_None [simp]: "first_job js = None \<longleftrightarrow> js = []"
  by (simp add: first_job_def)

lemma first_job_Nil [simp]: "first_job [] = None"
  by (simp add: first_job_def)

lemma first_job_SomeD:
  assumes "first_job js = Some j"
  shows "j \<in> set js \<and> (\<forall>k \<in> set js. claim_key j \<le> claim_key k)"
proof -
  from assms have ne: "js \<noteq> []" and j: "j = arg_min_list claim_key js"
    by (auto simp: first_job_def split: if_splits)
  from ne have "claim_key j = Min (claim_key ` set js)"
    unfolding j by (rule f_arg_min_list_f)
  moreover from ne have "j \<in> set js"
    unfolding j by (rule arg_min_list_in)
  ultimately show ?thesis by simp
qed

lemma set_job_eq:
  "distinct (map job_id s) \<Longrightarrow> j \<in> set s \<Longrightarrow>
     set_job (job_id j) f s = map (\<lambda>k. if k = j then f k else k) s"
  by (auto simp: set_job_def update_where_def dest: distinct_map_eqD)

lemma claim_first_cases:
  assumes inv: "store_inv s" and p: "\<And>j. p j \<Longrightarrow> pending (status j)"
  shows
    "(\<exists>j \<in> set s. p j \<and> (\<forall>k \<in> set s. p k \<longrightarrow> claim_key j \<le> claim_key k) \<and>
        claim_first True w now p s =
          Inr (Some (claim_updates w now j), map (\<lambda>k. if k = j then claim_updates w now k else k) s))
     \<or> ((\<forall>k \<in> set s. \<not> p k) \<and> claim_first True w now p s = Inr (None, s))"
proof (cases "first_job (filter p s)")
  case None
  then show ?thesis by (auto simp: claim_first_def filter_empty_conv)
next
  case (Some j)
  with first_job_SomeD [OF Some] have js: "j \<in> set s" "p j"
    and least: "\<forall>k \<in> set s. p k \<longrightarrow> claim_key j \<le> claim_key k"
    by auto
  have ids: "distinct (map job_id s)" and ix: "index_ok s"
    using inv by (auto simp: store_inv_def)
  have "index_ok (set_job (job_id j) (claim_updates w now) s)"
    unfolding set_job_def
  proof (rule index_ok_shrink [OF ix])
    fix k assume "k \<in> set s" and "job_id k = job_id j"
    with js(1) ids have "k = j" by (auto dest: distinct_map_eqD)
    with p [OF js(2)]
    show "index_key (claim_updates w now k) = None \<or>
          index_key (claim_updates w now k) = index_key k"
      by (simp add: index_key_claim)
  qed
  then have "claim_first True w now p s =
      Inr (Some (claim_updates w now j), map (\<lambda>k. if k = j then claim_updates w now k else k) s)"
    using Some ids js(1) by (simp add: claim_first_def db_update_def set_job_eq)
  with js least show ?thesis by blast
qed

definition pending_ids :: "job_store \<Rightarrow> string set" where
  "pending_ids s = job_id ` {j \<in> set s. pending (status j)}"

lemma claim_first_pending_ids:
  assumes inv: "store_inv s" and p: "\<And>j. p j \<Longrightarrow> pending (status j)"
    and c: "claim_first ok w now p s = Inr (Some j, s')"
  shows "job_id j \<in> pending_ids s \<and> pending_ids s' = pending_ids s - {job_id j}"
proof -
  from c have ok: "ok = True" by (cases ok) (auto simp: claim_first_def)
  from claim_first_cases [OF inv p, of p w now] c ok obtain k where
    k: "k \<in> set s" "p k" and j: "j = claim_updates w now k"
    and s': "s' = map (\<lambda>x. if x = k then claim_updates w now x else x) s"
    by auto
  have pk: "pending (status k)" using k(2) by (rule p)
  have npend: "\<not> pending (status (claim_updates w now k))"
    by (simp add: claim_updates_def pending_def)
  have ids: "distinct (map job_id s)" using inv by (simp add: store_inv_def)
  have "pending_ids s' = pending_ids s - {job_id k}"
    using k(1) npend ids unfolding s' pending_ids_def
    by (auto dest: distinct_map_eqD split: if_splits)
  moreover have "job_id k \<in> pending_ids s"
    using k(1) pk by (auto simp: pending_ids_def)
  ultimately show ?thesis by (simp add: j)
qed

text \<open>A sequence of claims by any workers at any times: the ids they return, in order.\<close>

record claim_request =
  req_ok :: bool
  req_skip :: "string set"
  req_worker :: string
  req_now :: go_time
  req_exclude :: "string list"

fun run_claims :: "claim_request list \<Rightarrow> job_store \<Rightarrow> string list \<times> job_store" where
  "run_claims [] s = ([], s)"
| "run_claims (r # rs) s =
     (case ClaimNextJob (req_ok r) (req_skip r) (req_worker r) (req_now r) (req_exclude r) s of
        Inl e \<Rightarrow> run_claims rs s
      | Inr (None, s') \<Rightarrow> run_claims rs s'
      | Inr (Some j, s') \<Rightarrow> (case run_claims rs s' of (ids, s'') \<Rightarrow> (job_id j # ids, s'')))"

lemma run_claims_pending:
  "store_inv s \<Longrightarrow> distinct (fst (run_claims rs s)) \<and> set (fst (run_claims rs s)) \<subseteq> pending_ids s"
proof (induction rs arbitrary: s)
  case Nil
  then show ?case by simp
next
  case (Cons r rs)
  show ?case
  proof (cases "ClaimNextJob (req_ok r) (req_skip r) (req_worker r) (req_now r) (req_exclude r) s")
    case (Inl e)
    with Cons show ?thesis by simp
  next
    case (Inr x)
    obtain jo s' where x: "x = (jo, s')" by (cases x)
    from Inr x Cons.prems have inv': "store_inv s'"
      by (auto simp: ClaimNextJob_def intro: claim_first_inv)
    note IH = Cons.IH [OF inv']
    show ?thesis
    proof (cases jo)
      case None
      with Inr x Cons.prems have "s' = s"
        by (auto simp: ClaimNextJob_def claim_first_def split: if_splits option.splits sum.splits)
      with None Inr x IH show ?thesis by simp
    next
      case (Some j)
      with Inr x Cons.prems
      have "job_id j \<in> pending_ids s \<and> pending_ids s' = pending_ids s - {job_id j}"
        unfolding ClaimNextJob_def
        by (intro claim_first_pending_ids) (auto simp: due_def)
      with Some Inr x IH show ?thesis by (auto split: prod.split)
    qed
  qed
qed

section \<open>What requeueing does\<close>

abbreviation requeued :: "go_time \<Rightarrow> job \<Rightarrow> job" where
  "requeued now j \<equiv> requeue_updates now (NextRetryTime (attempts j) (max_attempts j) now) j"

lemma requeue_loop_effect:
  assumes "requeue_loop now js n s = Inr (m, s')"
    and "distinct (map job_id s)" and "set js \<subseteq> set s" and "distinct js"
  shows "s' = map (\<lambda>j. if j \<in> set js then requeued now j else j) s \<and> m = n + int (length js)"
  using assms
proof (induction now js n s rule: requeue_loop.induct)
  case (1 now n s)
  then show ?case by simp
next
  case (2 now j js n s)
  let ?f = "requeue_updates now (NextRetryTime (attempts j) (max_attempts j) now)"
  from "2.prems"(1) obtain s1
    where s1: "db_update (job_id j) ?f s = Inr s1" and rest: "requeue_loop now js (n + 1) s1 = Inr (m, s')"
    by (auto split: sum.splits)
  from "2.prems" have js: "j \<in> set s" "set js \<subseteq> set s" "j \<notin> set js" "distinct js" by auto
  from s1 "2.prems"(2) js(1) have s1': "s1 = map (\<lambda>k. if k = j then ?f k else k) s"
    by (auto simp: db_update_def Let_def set_job_eq split: if_splits)
  have ids1: "map job_id s1 = map job_id s" by (simp add: s1')
  have fresh: "?f j \<notin> set js"
  proof
    assume "?f j \<in> set js"
    with js(2) have "?f j \<in> set s" by auto
    with js(1) "2.prems"(2) have "?f j = j" by (auto dest: distinct_map_eqD)
    with \<open>?f j \<in> set js\<close> js(3) show False by simp
  qed
  have "set js \<subseteq> set s1" using js by (auto simp: s1')
  with "2.IH" [OF s1 rest] ids1 "2.prems"(2) js(4)
  have "s' = map (\<lambda>k. if k \<in> set js then requeued now k else k) s1 \<and> m = n + 1 + int (length js)"
    by simp
  with fresh js(3) show ?case by (auto simp: s1')
qed

lemma requeue_loop_error: "requeue_loop now js n s = Inl e \<Longrightarrow> e = DuplicateKey"
  by (induction now js n s rule: requeue_loop.induct)
    (auto simp: db_update_def Let_def split: sum.splits if_splits)

lemma index_ok_same_key:
  assumes "index_ok s" and "a \<in> set s" and "b \<in> set s"
    and "index_key a = Some k" and "index_key b = Some k"
  shows "a = b"
  using assms
  by (induction s) (auto simp: index_ok_def set_index_keys split: option.splits)

text \<open>What the indexes say of two rows.\<close>

lemma one_active_per_key:
  assumes "index_ok s" and "a \<in> set s" and "b \<in> set s"
    and "(ty, key) \<in> {(''IMAGE_SCAN'', ''image_digest_id''), (''VULN_META_FETCH'', ''vuln_id'')}"
    and "job_type a = ty" and "job_type b = ty"
    and "status a \<in> {Queued, Retry, Running}" and "status b \<in> {Queued, Retry, Running}"
    and "json_text (payload a) key \<noteq> None" and "json_text (payload a) key = json_text (payload b) key"
  shows "a = b"
proof -
  obtain d where "json_text (payload a) key = Some d" using assms(9) by blast
  then have "index_key a = Some (ty, [d])" and "index_key b = Some (ty, [d])"
    using assms(4-) by (auto simp: index_key_def singleton_types_def job_type_defs pending_or_running_def)
  then show ?thesis by (rule index_ok_same_key [OF assms(1-3)])
qed

lemma one_waiting_singleton:
  assumes "index_ok s" and "a \<in> set s" and "b \<in> set s" and "job_type a = job_type b"
    and "status a \<in> {Queued, Retry}" and "status b \<in> {Queued, Retry}" and "job_type a \<in> set singleton_types"
  shows "a = b"
  by (rule index_ok_same_key [OF assms(1-3), of "(job_type a, [])"])
    (use assms(4-) in \<open>auto simp: index_key_def pending_def\<close>)

lemma index_key_run:
  assumes "job_type j = JobTypeCreateRun" and "pending (status j)" and "json_text (payload j) ''repo_id'' = Some r"
    and "(if commit_hash j \<in> {None, Some []} then json_text (payload j) ''commit_sha'' else commit_hash j) = Some c"
    and "r \<noteq> []" and "c \<noteq> []"
  shows "index_key j = Some (JobTypeCreateRun, [r, c])"
proof -
  have "coalesce (nullif_empty (commit_hash j)) (nullif_empty (json_text (payload j) ''commit_sha'')) = Some c"
    using assms(4,6) by (cases "commit_hash j \<in> {None, Some []}") (auto simp: coalesce_def nullif_empty_def)
  then show ?thesis
    using assms(1-3,5) by (simp add: index_key_def singleton_types_def job_type_defs nullif_empty_def)
qed

lemma requeue_effect:
  assumes "store_inv s" and "RequeueStaleJobs ok skip t1 t2 now s = Inr (n, s')"
  shows "s' = map (\<lambda>j. if stale t1 t2 j \<and> job_id j \<notin> skip then requeued now j else j) s
       \<and> n = int (count_where (\<lambda>j. stale t1 t2 j \<and> job_id j \<notin> skip) s)"
proof -
  let ?js = "filter (\<lambda>j. stale t1 t2 j \<and> job_id j \<notin> skip) s"
  from assms(2) have "requeue_loop now ?js 0 s = Inr (n, s')"
    by (auto simp: RequeueStaleJobs_def split: if_splits)
  moreover have ids: "distinct (map job_id s)" using assms(1) by (simp add: store_inv_def)
  moreover from ids have "distinct ?js" by (simp add: distinct_map)
  ultimately have "s' = map (\<lambda>j. if j \<in> set ?js then requeued now j else j) s"
    and "n = int (length ?js)"
    using requeue_loop_effect [of now ?js 0 s n s'] by auto
  then show ?thesis by (auto simp: count_where_def)
qed

section \<open>The retry clock\<close>

lemma double_delay_exact:
  "0 \<le> d \<Longrightarrow> d * 2 ^ n < 2 ^ 63 \<Longrightarrow> double_delay n d = d * 2 ^ n"
proof (induction n arbitrary: d)
  case 0
  then show ?case by simp
next
  case (Suc n)
  have "d * 2 \<le> d * 2 * 2 ^ n"
    using Suc.prems(1) by (simp add: mult_le_cancel_left1)
  with Suc.prems have "i64 (d * 2) = d * 2"
    by (intro i64_id) (auto simp: algebra_simps)
  with Suc show ?case by (simp add: algebra_simps)
qed

lemma double_delay_wraps: "i64 d = d \<Longrightarrow> double_delay n d = i64 (d * 2 ^ n)"
proof (induction n arbitrary: d)
  case 0
  then show ?case by simp
next
  case (Suc n)
  have "double_delay n (i64 (d * 2)) = i64 (i64 (d * 2) * 2 ^ n)"
    by (rule Suc.IH) simp
  also have "\<dots> = i64 (d * 2 * 2 ^ n)" by (rule i64_mult)
  finally show ?case by (simp add: mult.assoc)
qed

lemma i64_minute [simp]: "i64 minute = minute"
  by (rule i64_id) (simp_all add: duration_defs)

section \<open>Properties\<close>

text \<open>Every table reachable from the empty one by the package's operations has
  distinct ids, no two rows in conflict in a partial unique index, no lock on a pending row
  and a finishing time on every finished row.\<close>

theorem reachable_store_inv: "queue_reachable s \<Longrightarrow> store_inv s"
proof (induction rule: queue_reachable.induct)
  case empty
  show ?case by (simp add: store_inv_def index_ok_def)
next
  case (step s s')
  then show ?case by (blast intro: queue_step_inv)
qed

theorem reachable_store_inv_witness:
  "\<exists>s. queue_reachable s \<and> store_inv s \<and> length s = 1"
proof -
  let ?inp = "\<lparr>in_type = ''OSV_SCAN'', in_payload = None, in_run_at = None, in_max_attempts = 0\<rparr>"
  let ?j = "new_job 7 ''a'' ?inp"
  have "CreateJob True 7 ''a'' ?inp [] = Inr (?j, [?j])"
    by (simp add: CreateJob_def CreateJobTx_def db_insert_def index_ok_def Let_def
        split: option.split)
  then have "queue_reachable [?j]"
    by (rule queue_reachable.step [OF queue_reachable.empty queue_step.create])
  with reachable_store_inv [of "[?j]"] show ?thesis by (intro exI [of _ "[?j]"]) simp
qed

text \<open>C4. A claim on a well-formed table never fails: it takes the due row (queued or up
  for retry, its time come, not locked by another transaction, its type not excluded) that
  comes first by run time, then creation time, then id, marks that row alone as running and
  locked for the worker now, with one more attempt, and leaves every other row and column
  alone; it returns nothing, and changes nothing, exactly when no row is due.\<close>

theorem ClaimNextJob_takes_oldest_due:
  fixes now :: go_time and w :: string and ex :: "string list" and skip :: "string set"
  defines "ready \<equiv> \<lambda>j. (status j = Queued \<or> status j = Retry) \<and> run_at j \<le> now \<and>
      job_id j \<notin> skip \<and> job_type j \<notin> set ex"
    and "before \<equiv> \<lambda>j k. run_at j < run_at k \<or> run_at j = run_at k \<and>
      (created_at j < created_at k \<or> created_at j = created_at k \<and> job_id j \<le> job_id k)"
    and "taken \<equiv> \<lambda>j. j\<lparr>status := Running, locked_at := Some now, locked_by := w,
      attempts := attempts j + 1, last_attempted_at := Some now, updated_at := now\<rparr>"
  assumes "store_inv s"
  shows
    "(\<exists>j \<in> set s. ready j \<and> (\<forall>k \<in> set s. ready k \<longrightarrow> before j k) \<and>
        ClaimNextJob True skip w now ex s = Inr (Some (taken j), map (\<lambda>k. if k = j then taken k else k) s))
     \<or> ((\<forall>k \<in> set s. \<not> ready k) \<and> ClaimNextJob True skip w now ex s = Inr (None, s))"
proof -
  have p: "(\<lambda>j. due skip now j \<and> (ex \<noteq> [] \<longrightarrow> job_type j \<notin> set ex)) = ready"
    by (auto simp: fun_eq_iff ready_def due_def pending_def)
  have key: "claim_key j \<le> claim_key k \<longleftrightarrow> before j k" for j k
    by (auto simp: claim_key_def before_def less_eq_prod_def)
  have upd: "claim_updates w now = taken"
    by (simp add: fun_eq_iff claim_updates_def taken_def)
  show ?thesis
    using claim_first_cases [OF assms(4), of ready w now]
    unfolding ClaimNextJob_def p key upd by (simp add: ready_def pending_def)
qed

definition sample_job :: "string \<Rightarrow> string \<Rightarrow> job_status \<Rightarrow> go_time \<Rightarrow> job" where
  "sample_job i ty st t =
     (new_job t i \<lparr>in_type = ty, in_payload = None, in_run_at = Some t, in_max_attempts = 3\<rparr>)
       \<lparr>status := st, attempts := 1\<rparr>"

lemmas sample_defs = sample_job_def new_job_def

theorem ClaimNextJob_takes_oldest_due_witness:
  "store_inv [sample_job ''a'' ''OSV_SCAN'' Queued 5, sample_job ''b'' ''PROBE_SECRETS'' Queued 4] \<and>
   (\<exists>j s'. ClaimNextJob True {} ''w'' 9 [] [sample_job ''a'' ''OSV_SCAN'' Queued 5,
            sample_job ''b'' ''PROBE_SECRETS'' Queued 4] = Inr (Some j, s') \<and>
          job_id j = ''b'' \<and> status j = Running \<and> locked_by j = ''w'' \<and> attempts j = 2)"
proof -
  let ?a = "sample_job ''a'' ''OSV_SCAN'' Queued 5"
  let ?b = "sample_job ''b'' ''PROBE_SECRETS'' Queued 4"
  have inv: "store_inv [?a, ?b]"
    by (simp add: store_inv_def index_ok_def row_ok_def sample_defs index_key_def
        singleton_types_def job_type_defs)
  from ClaimNextJob_takes_oldest_due [OF inv, of 9 "{}" "[]" "''w''"]
  have "\<exists>j s'. ClaimNextJob True {} ''w'' 9 [] [?a, ?b] = Inr (Some j, s') \<and>
      job_id j = ''b'' \<and> status j = Running \<and> locked_by j = ''w'' \<and> attempts j = 2"
    by (auto simp: sample_defs)
  with inv show ?thesis by blast
qed

text \<open>C3. No job is handed out twice: whatever the workers, times, locks and exclusions, a
  sequence of claims returns pairwise different jobs, all of them pending at the start.\<close>

theorem claims_are_disjoint:
  assumes "store_inv s"
  shows "distinct (fst (run_claims rs s)) \<and> set (fst (run_claims rs s)) \<subseteq> pending_ids s"
  using assms by (rule run_claims_pending)

theorem claims_are_disjoint_witness:
  "distinct (fst (run_claims
     [\<lparr>req_ok = True, req_skip = {}, req_worker = ''w1'', req_now = 9, req_exclude = []\<rparr>,
      \<lparr>req_ok = True, req_skip = {}, req_worker = ''w2'', req_now = 9, req_exclude = []\<rparr>]
     [sample_job ''a'' ''OSV_SCAN'' Queued 5]))"
proof -
  have "store_inv [sample_job ''a'' ''OSV_SCAN'' Queued 5]"
    by (simp add: store_inv_def index_ok_def row_ok_def sample_defs split: option.split)
  from claims_are_disjoint [OF this] show ?thesis by blast
qed

text \<open>C8. A successful stale-job sweep moves to retry, unlocked and with the backoff time of
  their attempt count, exactly the running rows no other transaction holds whose lock time (or,
  with no lock time, last update) lies before the limit of their type, \<open>asyncBefore\<close> for a
  \<open>CREATE_RUN\<close> job and \<open>syncBefore\<close> for any other; it changes no other row and
  returns their number.\<close>

theorem RequeueStaleJobs_effect:
  fixes syncBefore asyncBefore :: go_time and skip :: "string set"
  defines "limit \<equiv> \<lambda>j. if job_type j = ''CREATE_RUN'' then asyncBefore else syncBefore"
    and "touched \<equiv> \<lambda>j. case locked_at j of Some l \<Rightarrow> l | None \<Rightarrow> updated_at j"
  defines "swept \<equiv> \<lambda>j. status j = Running \<and> touched j < limit j \<and> job_id j \<notin> skip"
  assumes "store_inv s" and "RequeueStaleJobs ok skip syncBefore asyncBefore now s = Inr (n, s')"
  shows "s' = map (\<lambda>j. if swept j
                      then j\<lparr>status := Retry, locked_at := None, locked_by := [],
                             run_at := now + retry_delay (attempts j), updated_at := now\<rparr>
                      else j) s
       \<and> n = int (length (filter swept s))"
proof -
  have "(\<lambda>j. stale syncBefore asyncBefore j \<and> job_id j \<notin> skip) = swept"
    by (auto simp: fun_eq_iff stale_def untouched_since_def swept_def limit_def touched_def
        JobTypeCreateRun_def split: option.splits)
  then have "stale syncBefore asyncBefore j \<and> job_id j \<notin> skip \<longleftrightarrow> swept j" for j
    by (simp add: fun_eq_iff)
  with requeue_effect [OF assms(4,5)] show ?thesis
    by (simp add: requeue_updates_def NextRetryTime_def count_where_def cong: if_cong)
qed

theorem RequeueStaleJobs_effect_witness:
  "\<exists>n s'. RequeueStaleJobs True {} 100 50 200 [sample_job ''a'' ''OSV_SCAN'' Running 5] = Inr (n, s') \<and>
     map status s' = [Retry] \<and> n = 1"
proof -
  let ?s = "[sample_job ''a'' ''OSV_SCAN'' Running 5]"
  have inv: "store_inv ?s"
    by (simp add: store_inv_def index_ok_def row_ok_def sample_defs split: option.split)
  have "index_ok [requeued 200 (sample_job ''a'' ''OSV_SCAN'' Running 5)]"
    by (simp add: index_ok_def split: option.split)
  then obtain n s' where r: "RequeueStaleJobs True {} 100 50 200 ?s = Inr (n, s')"
    by (simp add: RequeueStaleJobs_def stale_def untouched_since_def sample_defs job_type_defs
        db_update_def set_job_def)
  with RequeueStaleJobs_effect [OF inv r] show ?thesis
    by (intro exI [of _ n] exI [of _ s'])
      (simp add: sample_defs)
qed

text \<open>C9. One row blocks the whole sweep: when a stale running job has a type of which
  the indexes allow a single pending row, and such a row is already queued, the sweep's
  transaction fails and every stale job of the table, of any type, stays running.\<close>

theorem RequeueStaleJobs_blocked:
  assumes inv: "store_inv s"
    and k: "k \<in> set s" "stale t1 t2 k" "job_id k \<notin> skip" "job_type k \<in> set singleton_types"
    and q: "q \<in> set s" "job_type q = job_type k" "pending (status q)"
  shows "RequeueStaleJobs True skip t1 t2 now s = Inl DuplicateKey"
proof (cases "RequeueStaleJobs True skip t1 t2 now s")
  case (Inl e)
  then show ?thesis
    by (auto simp: RequeueStaleJobs_def dest: requeue_loop_error)
next
  case (Inr x)
  obtain n s' where x: "x = (n, s')" by (cases x)
  have inv': "store_inv s'"
    using queue_step_inv [OF queue_step.requeue inv] Inr x by blast
  note eff = requeue_effect [OF inv, of True skip t1 t2 now n s'] 
  have "requeued now k \<in> set s'" using eff Inr x k by auto
  moreover have "q \<in> set s'" using eff Inr x q
    by (auto simp: stale_def pending_def)
  moreover have "index_key q = Some (job_type k, [])"
    and "index_key (requeued now k) = Some (job_type k, [])"
    using q k(4) by (simp_all add: index_key_def requeue_updates_def pending_def)
  ultimately have "q = requeued now k"
    using inv' by (auto simp: store_inv_def dest: index_ok_same_key)
  then have "job_id q = job_id k" by simp
  with q(1) k(1) inv have "q = k" by (auto simp: store_inv_def dest: distinct_map_eqD)
  with q(3) k(2) show ?thesis by (simp add: stale_def pending_def)
qed

theorem RequeueStaleJobs_blocked_witness:
  "RequeueStaleJobs True {} 100 100 200
     [sample_job ''a'' ''FETCH_KEV'' Running 5, sample_job ''b'' ''FETCH_KEV'' Queued 900,
      sample_job ''c'' ''CREATE_RUN'' Running 5] = Inl DuplicateKey"
proof -
  let ?a = "sample_job ''a'' ''FETCH_KEV'' Running 5"
  let ?b = "sample_job ''b'' ''FETCH_KEV'' Queued 900"
  let ?c = "sample_job ''c'' ''CREATE_RUN'' Running 5"
  have inv: "store_inv [?a, ?b, ?c]"
    by (simp add: store_inv_def index_ok_def row_ok_def sample_defs index_key_def
        singleton_types_def job_type_defs pending_def)
  show ?thesis
    by (rule RequeueStaleJobs_blocked [OF inv, of ?a _ _ _ ?b])
      (simp_all add: stale_def untouched_since_def sample_defs job_type_defs
        singleton_types_def pending_def)
qed

text \<open>C10. For up to 28 attempts the retry delay is one minute doubled with each further
  attempt, capped at thirty minutes.\<close>

theorem retry_delay_backoff:
  assumes "1 \<le> n" and "n \<le> 28"
  shows "NextRetryTime n m now = now + min (minute * 2 ^ nat (n - 1)) (30 * minute)"
proof -
  have "nat (n - 1) \<le> 27" using assms by simp
  then have "(2::int) ^ nat (n - 1) \<le> 2 ^ 27" by (intro power_increasing) auto
  then have "minute * 2 ^ nat (n - 1) < 2 ^ 63"
    by (simp add: duration_defs)
  then have "double_delay (nat (n - 1)) minute = minute * 2 ^ nat (n - 1)"
    by (intro double_delay_exact) (simp_all add: duration_defs)
  then show ?thesis by (simp add: NextRetryTime_def retry_delay_def Let_def min_def)
qed

theorem retry_delay_backoff_witness:
  "NextRetryTime 3 3 0 = 4 * minute \<and> NextRetryTime 9 3 0 = 30 * minute"
  using retry_delay_backoff [of 3 3 0] retry_delay_backoff [of 9 3 0]
  by (simp add: duration_defs)

text \<open>From the 29th attempt on the doubling overflows \<open>int64\<close>: attempt 29 is
  scheduled in the past, and from attempt 54 on the delay is zero, so the backoff is gone.\<close>

theorem retry_delay_overflow:
  "NextRetryTime 29 m now < now \<and> NextRetryTime (54 + int k) m now = now"
proof
  have "double_delay 28 minute < 0"
    by (simp add: double_delay_wraps duration_defs i64_def)
  then show "NextRetryTime 29 m now < now"
    by (simp add: NextRetryTime_def retry_delay_def Let_def duration_defs)
next
  have "minute * 2 ^ (53 + k) = 2 ^ 64 * (29296875 * 2 ^ k)"
    by (simp add: power_add duration_defs)
  then have "i64 (minute * 2 ^ (53 + k)) = i64 (0 - 2 ^ 64 * (- (29296875 * 2 ^ k)))"
    by simp
  then have "i64 (minute * 2 ^ (53 + k)) = 0"
    by (simp only: i64_minus_mult) (simp add: i64_def)
  then have "double_delay (53 + k) minute = 0"
    by (simp add: double_delay_wraps)
  moreover have "nat (54 + int k - 1) = 53 + k" by simp
  ultimately show "NextRetryTime (54 + int k) m now = now"
    by (simp add: NextRetryTime_def retry_delay_def Let_def duration_defs)
qed

end
