(* ===== verification/Job_Process.thy ===== *)
theory Job_Process
  imports Job_Store
begin

text \<open>
  The job handlers of \<open>internal/jobs/processor.go\<close> and \<open>db_maintenance.go\<close>,
  the error classes of \<open>errors.go\<close>, and the feed schedule
  (\<open>nextFeedRunAt\<close>, \<open>scheduleNextFeedRefresh\<close>,
  \<open>EnsureFeedRefreshScheduled\<close>) and the advisory-metadata backlog
  (\<open>EnqueueVulnMetaFetches\<close>, \<open>EnqueueMissingVulnMeta\<close>).

  What a handler gets from outside the package (the outcome of a feed download, of a
  Kubernetes call, of a scan; the clock; fresh identifiers; the time zone) is a field of
  \<open>proc_env\<close>. The background refreshes a handler triggers write no job row and are
  left out.
\<close>

section \<open>Errors\<close>

text \<open>
  An error is a message, or one of the three marker types around another error, or a
  \<open>fmt.Errorf("...: %w", err)\<close>. \<open>errors.As\<close> walks the chain.
\<close>

datatype go_error =
    Plain string
  | NonRetryableError go_error
  | ProviderUnavailableError go_error
  | RetryableError go_error
  | Wrapped string go_error

fun error_text :: "go_error \<Rightarrow> string" where
  "error_text (Plain m) = m"
| "error_text (NonRetryableError e) = error_text e"
| "error_text (ProviderUnavailableError e) = error_text e"
| "error_text (RetryableError e) = error_text e"
| "error_text (Wrapped m e) = m @ '': '' @ error_text e"

definition NonRetryable :: "go_error option \<Rightarrow> go_error option" where
  "NonRetryable e = map_option NonRetryableError e"

definition ProviderUnavailable :: "go_error option \<Rightarrow> go_error option" where
  "ProviderUnavailable e = map_option ProviderUnavailableError e"

fun IsNonRetryable :: "go_error \<Rightarrow> bool" where
  "IsNonRetryable (Plain m) = False"
| "IsNonRetryable (NonRetryableError e) = True"
| "IsNonRetryable (ProviderUnavailableError e) = IsNonRetryable e"
| "IsNonRetryable (RetryableError e) = IsNonRetryable e"
| "IsNonRetryable (Wrapped m e) = IsNonRetryable e"

fun IsProviderUnavailable :: "go_error \<Rightarrow> bool" where
  "IsProviderUnavailable (Plain m) = False"
| "IsProviderUnavailable (NonRetryableError e) = IsProviderUnavailable e"
| "IsProviderUnavailable (ProviderUnavailableError e) = True"
| "IsProviderUnavailable (RetryableError e) = IsProviderUnavailable e"
| "IsProviderUnavailable (Wrapped m e) = IsProviderUnavailable e"

fun IsRetryableWithoutCount :: "go_error \<Rightarrow> bool" where
  "IsRetryableWithoutCount (Plain m) = False"
| "IsRetryableWithoutCount (NonRetryableError e) = IsRetryableWithoutCount e"
| "IsRetryableWithoutCount (ProviderUnavailableError e) = IsRetryableWithoutCount e"
| "IsRetryableWithoutCount (RetryableError e) = True"
| "IsRetryableWithoutCount (Wrapped m e) = IsRetryableWithoutCount e"

section \<open>Decoding payloads\<close>

record create_run_payload =
  crp_repo_id :: string
  crp_provider_id :: string
  crp_provider :: string
  crp_clone_url :: string
  crp_ref :: string
  crp_commit_sha :: string
  crp_repo_disabled :: bool

definition decode_create_run :: "json \<Rightarrow> create_run_payload option" where
  "decode_create_run v =
     (case (string_field v ''repo_id'', string_field v ''provider_id'',
            string_field v ''provider'', string_field v ''clone_url'',
            string_field v ''ref'', string_field v ''commit_sha'',
            bool_field v ''repo_disabled'') of
        (Some a, Some b, Some c, Some d, Some e, Some f, Some g) \<Rightarrow>
          Some \<lparr>crp_repo_id = a, crp_provider_id = b, crp_provider = c, crp_clone_url = d,
                crp_ref = e, crp_commit_sha = f, crp_repo_disabled = g\<rparr>
      | _ \<Rightarrow> None)"

definition vuln_meta_payload :: "string \<Rightarrow> json" where
  "vuln_meta_payload v = JObj [(''vuln_id'', JStr v)]"

section \<open>The feed schedule\<close>

definition kevRefreshInterval :: duration where "kevRefreshInterval = 6 * hour"

text \<open>
  \<open>at5\<close> gives 05:00 in Europe/Oslo on the local date of an instant
  (\<open>time.Date\<close> with the embedded zone data).
\<close>

definition nextFeedRunAt :: "(go_time \<Rightarrow> go_time) \<Rightarrow> string \<Rightarrow> go_time \<Rightarrow> go_time" where
  "nextFeedRunAt at5 ty from =
     (if ty = JobTypeFetchEPSS then
        (let next = at5 from in if \<not> next > from then next + 24 * hour else next)
      else if ty = JobTypeFetchKEV then from + kevRefreshInterval
      else if ty = JobTypeFetchDepHealth then from + 7 * 24 * hour
      else from + 24 * hour)"

definition feed_input :: "string \<Rightarrow> go_time \<Rightarrow> create_input" where
  "feed_input ty t =
     \<lparr>in_type = ty, in_payload = None, in_run_at = Some t, in_max_attempts = 0\<rparr>"

text \<open>An error of the insert is logged or ignored; the table is then as before.\<close>

definition create_ignoring ::
    "bool \<Rightarrow> go_time \<Rightarrow> string \<Rightarrow> create_input \<Rightarrow> job_store \<Rightarrow> job_store" where
  "create_ignoring ok now uuid inp s =
     (case CreateJob ok now uuid inp s of Inl e \<Rightarrow> s | Inr (j, s') \<Rightarrow> s')"

definition scheduleNextFeedRefresh ::
    "(go_time \<Rightarrow> go_time) \<Rightarrow> bool \<Rightarrow> go_time \<Rightarrow> string \<Rightarrow> string \<Rightarrow> job_store \<Rightarrow> job_store" where
  "scheduleNextFeedRefresh at5 ok now uuid ty s =
     create_ignoring ok now uuid (feed_input ty (nextFeedRunAt at5 ty now)) s"

definition feed_types :: "string list" where
  "feed_types = [JobTypeFetchKEV, JobTypeFetchEPSS, JobTypeFetchDepHealth]"

definition pending_of_type :: "string \<Rightarrow> job_store \<Rightarrow> nat" where
  "pending_of_type ty s = count_where (\<lambda>j. job_type j = ty \<and> pending (status j)) s"

text \<open>\<open>COALESCE(MAX(finished_at), '1970-01-01')\<close> over the succeeded jobs of a type.\<close>

definition last_success :: "string \<Rightarrow> job_store \<Rightarrow> go_time" where
  "last_success ty s =
     (case List.map_filter finished_at
             (filter (\<lambda>j. job_type j = ty \<and> status j = Succeeded) s) of
        [] \<Rightarrow> 0
      | t # ts \<Rightarrow> fold max ts t)"

definition ensure_feed ::
    "(go_time \<Rightarrow> go_time) \<Rightarrow> bool \<Rightarrow> go_time \<Rightarrow> string \<Rightarrow> string \<Rightarrow> job_store \<Rightarrow> job_store" where
  "ensure_feed at5 ok now uuid ty s =
     (if ok \<and> pending_of_type ty s > 0 then s
      else (let runAt = (if ok \<and> nextFeedRunAt at5 ty (last_success ty s) > now
                         then nextFeedRunAt at5 ty (last_success ty s) else now)
            in create_ignoring ok now uuid (feed_input ty runAt) s))"

fun ensure_feeds ::
    "(go_time \<Rightarrow> go_time) \<Rightarrow> bool \<Rightarrow> go_time \<Rightarrow> (string \<times> string) list \<Rightarrow> job_store \<Rightarrow> job_store" where
  "ensure_feeds at5 ok now [] s = s"
| "ensure_feeds at5 ok now ((ty, uuid) # rest) s =
     ensure_feeds at5 ok now rest (ensure_feed at5 ok now uuid ty s)"

definition EnsureFeedRefreshScheduled ::
    "(go_time \<Rightarrow> go_time) \<Rightarrow> bool \<Rightarrow> go_time \<Rightarrow> string list \<Rightarrow> job_store \<Rightarrow> job_store" where
  "EnsureFeedRefreshScheduled at5 ok now uuids s =
     ensure_feeds at5 ok now (zip feed_types uuids) s"

section \<open>The advisory-metadata backlog\<close>

definition vulnMetaEnqueueCap :: nat where "vulnMetaEnqueueCap = 1000"

definition IDsMissingMetadata :: "string set \<Rightarrow> string list \<Rightarrow> string list" where
  "IDsMissingMetadata have_meta ids =
     filter (\<lambda>i. i \<notin> have_meta)
       (rev (remdups (rev (filter (\<lambda>i. i \<noteq> [] \<and> i \<noteq> ''_none'') ids))))"

definition vuln_meta_input :: "string \<Rightarrow> create_input" where
  "vuln_meta_input v =
     \<lparr>in_type = JobTypeVulnMetaFetch, in_payload = Some (vuln_meta_payload v),
      in_run_at = None, in_max_attempts = 0\<rparr>"

fun enqueue_each :: "bool \<Rightarrow> go_time \<Rightarrow> (string \<times> string) list \<Rightarrow> job_store \<Rightarrow> job_store" where
  "enqueue_each ok now [] s = s"
| "enqueue_each ok now ((v, uuid) # rest) s =
     enqueue_each ok now rest (create_ignoring ok now uuid (vuln_meta_input v) s)"

definition EnqueueVulnMetaFetches ::
    "bool \<Rightarrow> go_time \<Rightarrow> string list \<Rightarrow> string set \<Rightarrow> string list \<Rightarrow> job_store \<Rightarrow> job_store" where
  "EnqueueVulnMetaFetches ok now uuids have_meta ids s =
     (if \<not> ok then s
      else enqueue_each ok now (zip (IDsMissingMetadata have_meta ids) uuids) s)"

definition active_vuln_ids :: "job_store \<Rightarrow> string set" where
  "active_vuln_ids s =
     {v. \<exists>j \<in> set s. job_type j = JobTypeVulnMetaFetch \<and> pending_or_running (status j) \<and>
           json_text (payload j) ''vuln_id'' = Some v}"

text \<open>
  The query of \<open>EnqueueMissingVulnMeta\<close> over the two findings tables; SQL leaves the
  order of its \<open>DISTINCT ... LIMIT\<close> open, the model takes the order of first
  occurrence.
\<close>

definition missing_vuln_ids ::
    "string list \<Rightarrow> string list \<Rightarrow> string set \<Rightarrow> job_store \<Rightarrow> string list" where
  "missing_vuln_ids component_vulns image_vulns have_meta s =
     take vulnMetaEnqueueCap
       (filter (\<lambda>v. v \<notin> have_meta \<and>
            \<not> list_ex (\<lambda>j. job_type j = JobTypeVulnMetaFetch \<and> pending_or_running (status j) \<and>
                           json_text (payload j) ''vuln_id'' = Some v) s)
          (rev (remdups (rev (filter (\<lambda>v. v \<noteq> ''_none'' \<and> v \<noteq> [])
             (component_vulns @ image_vulns))))))"

definition EnqueueMissingVulnMeta ::
    "bool \<Rightarrow> go_time \<Rightarrow> string list \<Rightarrow> string list \<Rightarrow> string list \<Rightarrow> string set \<Rightarrow> job_store \<Rightarrow> job_store" where
  "EnqueueMissingVulnMeta ok now uuids component_vulns image_vulns have_meta s =
     (if \<not> ok then s
      else (let ids = missing_vuln_ids component_vulns image_vulns have_meta s
            in if ids = [] then s
               else EnqueueVulnMetaFetches ok now uuids have_meta ids s))"

section \<open>Database maintenance\<close>

text \<open>\<open>quoteIdent\<close>: in double quotes, an embedded double quote doubled.\<close>

fun double_quotes :: "string \<Rightarrow> string" where
  "double_quotes [] = []"
| "double_quotes (c # cs) =
     (if c = CHR 0x22 then CHR 0x22 # CHR 0x22 # double_quotes cs else c # double_quotes cs)"

definition quoteIdent :: "string \<Rightarrow> string" where
  "quoteIdent name = [CHR 0x22] @ double_quotes name @ [CHR 0x22]"

definition maintenanceStatement :: "string \<Rightarrow> string option" where
  "maintenanceStatement op =
     (if op = ''analyze'' then Some ''ANALYZE''
      else if op = ''vacuum_analyze'' then Some ''VACUUM (ANALYZE)''
      else None)"

text \<open>
  The handler up to its \<open>Exec\<close>: an error, or the statement prefix, the operation,
  schema and table, and the statement it runs. \<open>tables\<close> is the catalog lookup,
  \<open>None\<close> when that query fails. Error messages leave out the quoted values.
\<close>

definition maintenance_plan ::
    "(string \<Rightarrow> string \<Rightarrow> bool option) \<Rightarrow> json option
       \<Rightarrow> go_error + (string \<times> string \<times> string \<times> string \<times> string)" where
  "maintenance_plan tables p =
     (case p of
        None \<Rightarrow> Inl (NonRetryableError (Plain ''DB_MAINTENANCE missing payload''))
      | Some v \<Rightarrow>
          (case (string_field v ''schema'', string_field v ''table'', string_field v ''operation'') of
             (Some sc, Some tb, Some op) \<Rightarrow>
               (case maintenanceStatement op of
                  None \<Rightarrow> Inl (NonRetryableError (Plain ''unsupported db maintenance operation''))
                | Some pre \<Rightarrow>
                    (let schema = trim_space sc; table = trim_space tb in
                     if schema = [] \<or> table = []
                     then Inl (NonRetryableError (Plain ''DB_MAINTENANCE payload missing schema or table''))
                     else (case tables schema table of
                             None \<Rightarrow> Inl (Wrapped ''validate table'' (Plain ''query failed''))
                           | Some False \<Rightarrow> Inl (NonRetryableError (Plain ''table not found''))
                           | Some True \<Rightarrow>
                               Inr (pre, op, schema, table,
                                    pre @ '' '' @ quoteIdent schema @ ''.'' @ quoteIdent table))))
           | _ \<Rightarrow> Inl (NonRetryableError (Wrapped ''invalid DB_MAINTENANCE payload'' (Plain ''json'')))))"

section \<open>The handlers\<close>

text \<open>
  The run executor of the worker (the interfaces \<open>RunExecutor\<close> and
  \<open>SBOMAdhocJobCreator\<close>): starting a run may write the job's row, creating a scanner
  job writes none. \<open>runner.RunExecutor\<close> is the implementation, modelled in
  \<open>Run_Lifecycle\<close>.
\<close>

record executor =
  execute_run :: "string \<Rightarrow> create_run_payload \<Rightarrow> job_store \<Rightarrow> go_error option \<times> job_store"
  create_adhoc :: "(string \<Rightarrow> go_error option) option"

datatype enrich_outcome = UpstreamTransient | EnrichError go_error | NotFoundUpstream | Enriched

record proc_env =
  env_ok :: bool
  env_now :: go_time
  env_uuid :: string
  env_uuids :: "string list"
  env_at5 :: "go_time \<Rightarrow> go_time"
  env_executor :: "executor option"
  env_cronjob :: string
  env_osv :: "json list \<times> (go_error + json)"
  env_enrich :: "string \<Rightarrow> enrich_outcome"
  env_kev :: "go_error + int"
  env_epss :: "int list \<times> (go_error + int)"
  env_resolvers :: nat
  env_dep_health :: "int list \<times> (go_error + (int \<times> int \<times> int))"
  env_tables :: "string \<Rightarrow> string \<Rightarrow> bool option"
  env_exec :: "string \<Rightarrow> go_error + (int \<times> string)"
  env_backfill :: "bool \<Rightarrow> (int \<times> int) list \<times> (go_error + (int \<times> int))"
  env_probe :: "json option \<Rightarrow> (int \<times> int) list \<times> (go_error + json)"
  env_component_vulns :: "string list"
  env_image_vulns :: "string list"
  env_have_meta :: "string set"

text \<open>A handler's result, the table it leaves and the \<open>vuln_meta_updated\<close> events it sends.\<close>

record proc_out =
  out_result :: "go_error + json"
  out_store :: job_store
  out_notify :: "(string \<times> string) list"

definition proc_output :: "go_error + json \<Rightarrow> job_store \<Rightarrow> proc_out" where
  "proc_output r s = \<lparr>out_result = r, out_store = s, out_notify = []\<rparr>"

text \<open>Progress: \<open>UPDATE jobs SET result = ... WHERE id = ...\<close>, once per report.\<close>

definition write_progress :: "proc_env \<Rightarrow> string \<Rightarrow> json list \<Rightarrow> job_store \<Rightarrow> job_store" where
  "write_progress env i vs s =
     (if env_ok env
      then fold (\<lambda>v. set_job i (\<lambda>j. j\<lparr>job_result := Some v, updated_at := env_now env\<rparr>)) vs s
      else s)"

definition status_obj :: "string \<Rightarrow> (string \<times> json) list \<Rightarrow> json" where
  "status_obj st rest = JObj ((''status'', JStr st) # rest)"

definition processCreateRun :: "proc_env \<Rightarrow> job \<Rightarrow> job_store \<Rightarrow> proc_out" where
  "processCreateRun env j s =
     (case env_executor env of
        None \<Rightarrow> proc_output (Inl (Plain ''runner not enabled'')) s
      | Some ex \<Rightarrow>
          (case payload j of
             None \<Rightarrow> proc_output (Inl (Plain ''missing job payload'')) s
           | Some v \<Rightarrow>
               (case decode_create_run v of
                  None \<Rightarrow> proc_output (Inl (Wrapped ''unmarshal payload'' (Plain ''json''))) s
                | Some p \<Rightarrow>
                    if crp_clone_url p = [] then proc_output (Inl (Plain ''missing clone_url in payload'')) s
                    else (case execute_run ex (job_id j) p s of
                            (Some e, s1) \<Rightarrow> proc_output (Inl (Wrapped ''execute run'' e)) s1
                          | (None, s1) \<Rightarrow>
                              proc_output (Inr (status_obj ''started'' [(''run_id'', JStr (job_id j))])) s1))))"

definition processOSVScan :: "proc_env \<Rightarrow> job \<Rightarrow> job_store \<Rightarrow> proc_out" where
  "processOSVScan env j s =
     (let s1 = write_progress env (job_id j) (fst (env_osv env)) s in
      case snd (env_osv env) of
        Inl e \<Rightarrow> proc_output (Inl e) s1
      | Inr r \<Rightarrow>
          proc_output (Inr r)
            (EnqueueMissingVulnMeta (env_ok env) (env_now env) (env_uuids env)
               (env_component_vulns env) (env_image_vulns env) (env_have_meta env) s1))"

definition isAlreadyRunning :: "go_error \<Rightarrow> bool" where
  "isAlreadyRunning e \<longleftrightarrow>
     contains (error_text e) ''already running'' \<or> contains (error_text e) ''AlreadyExists''"

definition processSBOMAdhocScan :: "proc_env \<Rightarrow> job \<Rightarrow> job_store \<Rightarrow> proc_out" where
  "processSBOMAdhocScan env j s =
     (case (case env_executor env of None \<Rightarrow> None | Some ex \<Rightarrow> create_adhoc ex) of
        None \<Rightarrow>
          proc_output (Inl (NonRetryableError
            (Plain ''sbom scan job creation not available: runner not enabled''))) s
      | Some creator \<Rightarrow>
          (let name0 = trim_space (env_cronjob env);
               name = (if name0 = [] then
                         (case payload j of
                            None \<Rightarrow> []
                          | Some v \<Rightarrow> (case string_field v ''cronjob_name'' of None \<Rightarrow> [] | Some n \<Rightarrow> n))
                       else name0)
           in if name = [] then
                proc_output (Inl (NonRetryableError
                  (Plain ''SBOM_SCANNER_CRONJOB_NAME not configured on worker''))) s
              else (case creator name of
                      Some e \<Rightarrow>
                        proc_output (Inl (if isAlreadyRunning e then NonRetryableError e else e)) s
                    | None \<Rightarrow>
                        proc_output (Inr (status_obj ''created'' [(''cronjob'', JStr name)])) s)))"

definition processVulnMetaFetch :: "proc_env \<Rightarrow> job \<Rightarrow> job_store \<Rightarrow> proc_out" where
  "processVulnMetaFetch env j s =
     (let decoded = (case payload j of None \<Rightarrow> Some [] | Some v \<Rightarrow> string_field v ''vuln_id'') in
      case decoded of
        None \<Rightarrow>
          proc_output (Inl (NonRetryableError (Wrapped ''invalid VULN_META_FETCH payload'' (Plain ''json'')))) s
      | Some vid \<Rightarrow>
          if vid = [] then
            proc_output (Inl (NonRetryableError (Plain ''VULN_META_FETCH missing vuln_id''))) s
          else
            (let finish = (\<lambda>st. (proc_output (Inr (JObj [(''vuln_id'', JStr vid), (''status'', JStr st)])) s)
                                 \<lparr>out_notify := [(vid, st)]\<rparr>)
             in case env_enrich env vid of
                  UpstreamTransient \<Rightarrow> finish ''upstream_error''
                | EnrichError e \<Rightarrow> proc_output (Inl e) s
                | NotFoundUpstream \<Rightarrow> finish ''not_found_upstream''
                | Enriched \<Rightarrow> finish ''enriched''))"

definition reschedule :: "proc_env \<Rightarrow> string \<Rightarrow> job_store \<Rightarrow> job_store" where
  "reschedule env ty s =
     scheduleNextFeedRefresh (env_at5 env) (env_ok env) (env_now env) (env_uuid env) ty s"

definition processFetchKEV :: "proc_env \<Rightarrow> job_store \<Rightarrow> proc_out" where
  "processFetchKEV env s =
     (case env_kev env of
        Inl e \<Rightarrow> proc_output (Inl e) s
      | Inr n \<Rightarrow>
          proc_output (Inr (status_obj ''ingested'' [(''rows'', JNum n)]))
            (reschedule env JobTypeFetchKEV s))"

definition progress_obj :: "int \<Rightarrow> json" where
  "progress_obj n = status_obj ''ingesting'' [(''rows_written'', JNum n)]"

definition processFetchEPSS :: "proc_env \<Rightarrow> job \<Rightarrow> job_store \<Rightarrow> proc_out" where
  "processFetchEPSS env j s =
     (let s1 = write_progress env (job_id j) (map progress_obj (fst (env_epss env))) s in
      case snd (env_epss env) of
        Inl e \<Rightarrow> proc_output (Inl e) s1
      | Inr n \<Rightarrow>
          proc_output (Inr (status_obj ''ingested'' [(''rows'', JNum n)]))
            (reschedule env JobTypeFetchEPSS s1))"

definition processFetchDepHealth :: "proc_env \<Rightarrow> job \<Rightarrow> job_store \<Rightarrow> proc_out" where
  "processFetchDepHealth env j s =
     (if env_resolvers env = 0 then
        proc_output (Inr (status_obj ''skipped'' [(''reason'', JStr ''no resolvers registered'')]))
          (reschedule env JobTypeFetchDepHealth s)
      else
        (let s1 = write_progress env (job_id j) (map progress_obj (fst (env_dep_health env))) s in
         case snd (env_dep_health env) of
           Inl e \<Rightarrow> proc_output (Inl e) s1
         | Inr (tot, refr, fld) \<Rightarrow>
             proc_output (Inr (status_obj ''ingested''
                 [(''total'', JNum tot), (''refreshed'', JNum refr), (''failed'', JNum fld)]))
               (reschedule env JobTypeFetchDepHealth s1)))"

definition processDBMaintenance :: "proc_env \<Rightarrow> job \<Rightarrow> job_store \<Rightarrow> proc_out" where
  "processDBMaintenance env j s =
     (case maintenance_plan (env_tables env) (payload j) of
        Inl e \<Rightarrow> proc_output (Inl e) s
      | Inr (pre, op, schema, table, stmt) \<Rightarrow>
          (case env_exec env stmt of
             Inl e \<Rightarrow> proc_output (Inl (Wrapped (''run '' @ pre) e)) s
           | Inr (ms, completed) \<Rightarrow>
               proc_output (Inr (status_obj ''ok''
                 [(''operation'', JStr op), (''schema'', JStr schema), (''table'', JStr table),
                  (''duration_ms'', JNum ms), (''completed_at'', JStr completed)])) s))"

definition processAdvisoryBackfill :: "proc_env \<Rightarrow> job \<Rightarrow> job_store \<Rightarrow> proc_out" where
  "processAdvisoryBackfill env j s =
     (case (case payload j of None \<Rightarrow> Some False | Some v \<Rightarrow> bool_field v ''replace'') of
        None \<Rightarrow> proc_output (Inl (Wrapped ''invalid ADVISORY_BACKFILL payload'' (Plain ''json''))) s
      | Some replace \<Rightarrow>
          (let s1 = write_progress env (job_id j)
                      (map (\<lambda>(d, t). status_obj ''generating'' [(''done'', JNum d), (''total'', JNum t)])
                         (fst (env_backfill env replace))) s
           in case snd (env_backfill env replace) of
                Inl e \<Rightarrow> proc_output (Inl e) s1
              | Inr (g, t) \<Rightarrow>
                  proc_output (Inr (status_obj ''complete'' [(''generated'', JNum g), (''total'', JNum t)])) s1))"

definition processProbeSecrets :: "proc_env \<Rightarrow> job \<Rightarrow> job_store \<Rightarrow> proc_out" where
  "processProbeSecrets env j s =
     (let s1 = write_progress env (job_id j)
                 (map (\<lambda>(d, t). JObj [(''probed'', JNum d), (''total'', JNum t)])
                    (fst (env_probe env (payload j)))) s
      in proc_output (snd (env_probe env (payload j))) s1)"

definition ProcessJob :: "proc_env \<Rightarrow> job \<Rightarrow> job_store \<Rightarrow> proc_out" where
  "ProcessJob env j s =
     (if job_type j = JobTypeCreateRun then processCreateRun env j s
      else if job_type j = JobTypeRefreshSBOMViews then proc_output (Inr (status_obj ''scheduled'' [])) s
      else if job_type j = JobTypeOSVScan then processOSVScan env j s
      else if job_type j = JobTypeSBOMAdhocScan then processSBOMAdhocScan env j s
      else if job_type j = JobTypeProbeSecrets then processProbeSecrets env j s
      else if job_type j = JobTypeVulnMetaFetch then processVulnMetaFetch env j s
      else if job_type j = JobTypeFetchKEV then processFetchKEV env s
      else if job_type j = JobTypeFetchEPSS then processFetchEPSS env j s
      else if job_type j = JobTypeFetchDepHealth then processFetchDepHealth env j s
      else if job_type j = JobTypeDBMaintenance then processDBMaintenance env j s
      else if job_type j = JobTypeAdvisoryBackfill then processAdvisoryBackfill env j s
      else proc_output (Inl (Plain (''unknown job type: '' @ job_type j))) s)"

section \<open>Handlers keep the table's invariant\<close>

lemma create_ignoring_inv [inv_intros]: "store_inv s \<Longrightarrow> store_inv (create_ignoring ok now uuid inp s)"
  by (auto simp: create_ignoring_def split: sum.splits prod.splits intro: CreateJob_inv)

lemma set_result_inv [inv_intros]:
  assumes "store_inv s"
  shows "store_inv (set_job i (\<lambda>j. j\<lparr>job_result := v, updated_at := now\<rparr>) s)"
proof -
  let ?f = "\<lambda>j. j\<lparr>job_result := v, updated_at := now\<rparr>"
  have "index_keys (update_where (\<lambda>j. job_id j = i) ?f s) = index_keys s"
    by (rule index_keys_same, rule index_key_cong) simp_all
  moreover have "list_all row_ok (update_where (\<lambda>j. job_id j = i) ?f s)"
    using assms by (auto simp: store_inv_def row_ok_def intro!: list_all_update_where)
  ultimately show ?thesis
    using assms by (simp add: set_job_def store_inv_def index_ok_def map_update_where)
qed

lemma write_progress_inv [inv_intros]: "store_inv s \<Longrightarrow> store_inv (write_progress env i vs s)"
proof -
  have "store_inv (fold (\<lambda>v. set_job i (\<lambda>j. j\<lparr>job_result := Some v, updated_at := env_now env\<rparr>)) vs s)"
    if "store_inv s" for s
    using that by (induction vs arbitrary: s) (simp_all add: set_result_inv)
  then show "store_inv s \<Longrightarrow> store_inv (write_progress env i vs s)"
    by (simp add: write_progress_def)
qed

lemma enqueue_each_inv [inv_intros]: "store_inv s \<Longrightarrow> store_inv (enqueue_each ok now vus s)"
  by (induction ok now vus s rule: enqueue_each.induct) (simp_all add: create_ignoring_inv)

lemma EnqueueMissingVulnMeta_inv [inv_intros]:
  "store_inv s \<Longrightarrow> store_inv (EnqueueMissingVulnMeta ok now uuids cv iv hm s)"
  by (simp add: EnqueueMissingVulnMeta_def EnqueueVulnMetaFetches_def Let_def enqueue_each_inv)

lemma reschedule_inv [inv_intros]: "store_inv s \<Longrightarrow> store_inv (reschedule env ty s)"
  by (simp add: reschedule_def scheduleNextFeedRefresh_def create_ignoring_inv)

lemma out_store_proc_output [simp]: "out_store (proc_output r s) = s"
  by (simp add: proc_output_def)

lemmas handler_defs =
  processCreateRun_def processOSVScan_def processSBOMAdhocScan_def processProbeSecrets_def
  processVulnMetaFetch_def processFetchKEV_def processFetchEPSS_def processFetchDepHealth_def
  processDBMaintenance_def processAdvisoryBackfill_def

text \<open>
  What the package relies on from an executor: starting a run keeps the table well formed.
\<close>

locale run_executor =
  fixes exec :: "string \<Rightarrow> create_run_payload \<Rightarrow> job_store \<Rightarrow> go_error option \<times> job_store"
  assumes exec_inv: "store_inv s \<Longrightarrow> store_inv (snd (exec i p s))"
begin

lemma processCreateRun_inv:
  assumes "store_inv s" and "\<And>ex. env_executor env = Some ex \<Longrightarrow> execute_run ex = exec"
  shows "store_inv (out_store (processCreateRun env j s))"
  using assms exec_inv [of s "job_id j"]
  by (auto simp: processCreateRun_def split: option.split prod.split) (metis snd_conv)+

lemma ProcessJob_inv:
  assumes "store_inv s" and "\<And>ex. env_executor env = Some ex \<Longrightarrow> execute_run ex = exec"
  shows "store_inv (out_store (ProcessJob env j s))"
proof -
  have "store_inv (out_store (processOSVScan env j s))"
    "store_inv (out_store (processSBOMAdhocScan env j s))"
    "store_inv (out_store (processProbeSecrets env j s))"
    "store_inv (out_store (processVulnMetaFetch env j s))"
    "store_inv (out_store (processFetchKEV env s))"
    "store_inv (out_store (processFetchEPSS env j s))"
    "store_inv (out_store (processFetchDepHealth env j s))"
    "store_inv (out_store (processDBMaintenance env j s))"
    "store_inv (out_store (processAdvisoryBackfill env j s))"
    using assms(1)
    by (simp_all add: handler_defs Let_def inv_intros
        split: option.split sum.split prod.split enrich_outcome.split)
  with assms(1) processCreateRun_inv [OF assms] show ?thesis by (simp add: ProcessJob_def)
qed

end

section \<open>One pending job per feed\<close>

lemma pending_of_type_append [simp]:
  "pending_of_type ty (s @ t) = pending_of_type ty s + pending_of_type ty t"
  by (simp add: pending_of_type_def)

lemma pending_singleton_key:
  "ty \<in> set singleton_types \<Longrightarrow> job_type j = ty \<Longrightarrow> pending (status j) \<Longrightarrow>
     index_key j = Some (ty, [])"
  by (simp add: index_key_def)

lemma pending_in_index:
  assumes "ty \<in> set singleton_types"
  shows "pending_of_type ty s \<le> count_list (index_keys s) (ty, [])"
  using assms
  by (induction s) (auto simp: pending_of_type_def pending_singleton_key split: option.split)

lemma pending_singleton_le_1:
  assumes "index_ok s" and "ty \<in> set singleton_types"
  shows "pending_of_type ty s \<le> 1"
proof -
  have "count_list (index_keys s) (ty, []) \<le> 1"
    using assms(1) count_list_distinct [of "index_keys s" "(ty, [])"] by (simp add: index_ok_def)
  with pending_in_index [OF assms(2), of s] show ?thesis by simp
qed

lemma key_singleton_pending:
  assumes "ty \<in> set singleton_types" and "index_key j = Some (ty, [])"
  shows "job_type j = ty \<and> pending (status j)"
  using assms by (auto simp: index_key_def split: if_splits option.splits)

lemma create_feed_succeeds:
  assumes inv: "store_inv s" and ty: "ty \<in> set singleton_types" "ty \<noteq> []"
    and none: "pending_of_type ty s = 0" and fresh: "uuid \<notin> job_id ` set s"
  shows "CreateJob True now uuid (feed_input ty t) s =
           Inr (new_job now uuid (feed_input ty t), s @ [new_job now uuid (feed_input ty t)])"
proof -
  let ?j = "new_job now uuid (feed_input ty t)"
  have key: "index_key ?j = Some (ty, [])"
    by (rule pending_singleton_key) (simp_all add: ty new_job_def feed_input_def pending_def)
  have "(ty, []) \<notin> set (index_keys s)"
    using none key_singleton_pending [OF ty(1)]
    by (auto simp: set_index_keys pending_of_type_def count_where_0_iff)
  with inv key have "index_ok (s @ [?j])" by (simp add: store_inv_def index_ok_def)
  with fresh ty show ?thesis
    by (simp add: CreateJob_def CreateJobTx_def db_insert_def Let_def)
      (simp add: new_job_def feed_input_def)
qed

lemma feed_types_singleton: "ty \<in> set feed_types \<Longrightarrow> ty \<in> set singleton_types \<and> ty \<noteq> []"
  by (auto simp: feed_types_def singleton_types_def job_type_defs)

lemma pending_new_feed [simp]:
  "pending_of_type ty' [new_job now uuid (feed_input ty t)] = (if ty' = ty then 1 else 0)"
  by (simp add: pending_of_type_def new_job_def feed_input_def pending_def)

lemma ensure_feed_cases:
  assumes inv: "store_inv s" and ty: "ty \<in> set feed_types" and fresh: "uuid \<notin> job_id ` set s"
  shows "(pending_of_type ty s = 1 \<and> ensure_feed at5 True now uuid ty s = s) \<or>
         (pending_of_type ty s = 0 \<and>
          (\<exists>t. ensure_feed at5 True now uuid ty s = s @ [new_job now uuid (feed_input ty t)]))"
proof (cases "pending_of_type ty s = 0")
  case True
  with create_feed_succeeds [OF inv _ _ True fresh] feed_types_singleton [OF ty]
  show ?thesis by (simp add: ensure_feed_def create_ignoring_def Let_def) blast
next
  case False
  with pending_singleton_le_1 [of s ty] inv feed_types_singleton [OF ty]
  have "pending_of_type ty s = 1" by (simp add: store_inv_def)
  with False show ?thesis by (simp add: ensure_feed_def)
qed

lemma ensure_feed_inv: "store_inv s \<Longrightarrow> store_inv (ensure_feed at5 ok now uuid ty s)"
  by (simp add: ensure_feed_def Let_def create_ignoring_inv)

lemma ensure_feeds_pending:
  assumes "store_inv s" and "set (map fst tus) \<subseteq> set feed_types" and "distinct (map snd tus)"
    and "set (map snd tus) \<inter> job_id ` set s = {}"
  shows "pending_of_type ty (ensure_feeds at5 True now tus s) =
           (if ty \<in> set (map fst tus) then 1 else pending_of_type ty s)"
  using assms
proof (induction tus arbitrary: s)
  case Nil
  then show ?case by simp
next
  case (Cons tu tus)
  obtain t u where tu: "tu = (t, u)" by (cases tu)
  let ?s1 = "ensure_feed at5 True now u t s"
  have u: "u \<notin> job_id ` set s" using Cons.prems tu by auto
  have t: "t \<in> set feed_types" using Cons.prems tu by simp
  note cases = ensure_feed_cases [OF Cons.prems(1) t u, of at5 now]
  have ids: "job_id ` set ?s1 \<subseteq> insert u (job_id ` set s)"
    using cases by (auto simp: new_job_def)
  have p: "pending_of_type x ?s1 = (if x = t then 1 else pending_of_type x s)" for x
    using cases by auto
  have "pending_of_type ty (ensure_feeds at5 True now tus ?s1) =
      (if ty \<in> set (map fst tus) then 1 else pending_of_type ty ?s1)"
    using Cons.prems tu disjoint_fresh [OF _ ids, of "set (map snd tus)"]
    by (intro Cons.IH ensure_feed_inv) auto
  with p tu show ?case by simp
qed

lemma ensure_feeds_idle:
  "(\<And>ty. ty \<in> set (map fst tus) \<Longrightarrow> pending_of_type ty s > 0) \<Longrightarrow>
     ensure_feeds at5 True now tus s = s"
proof (induction tus)
  case (Cons tu tus)
  then show ?case by (cases tu) (simp add: ensure_feed_def)
qed simp

section \<open>The backlog converges\<close>

lemma vuln_key:
  "job_type j = JobTypeVulnMetaFetch \<Longrightarrow> pending_or_running (status j) \<Longrightarrow>
     index_key j = map_option (\<lambda>d. (JobTypeVulnMetaFetch, [d])) (json_text (payload j) ''vuln_id'')"
  by (simp add: index_key_def singleton_types_def job_type_defs)

lemma key_vuln:
  "index_key j = Some (JobTypeVulnMetaFetch, [v]) \<Longrightarrow>
     job_type j = JobTypeVulnMetaFetch \<and> pending_or_running (status j) \<and>
     json_text (payload j) ''vuln_id'' = Some v"
  by (auto simp: index_key_def job_type_defs split: if_splits option.splits)

lemma vuln_key_iff:
  "index_key j = Some (JobTypeVulnMetaFetch, [v]) \<longleftrightarrow>
     job_type j = JobTypeVulnMetaFetch \<and> pending_or_running (status j) \<and>
     json_text (payload j) ''vuln_id'' = Some v"
proof
  assume "index_key j = Some (JobTypeVulnMetaFetch, [v])"
  then show "job_type j = JobTypeVulnMetaFetch \<and> pending_or_running (status j) \<and>
     json_text (payload j) ''vuln_id'' = Some v" by (rule key_vuln)
qed (simp add: vuln_key)

lemma active_vuln_ids_Nil [simp]: "active_vuln_ids [] = {}"
  by (simp add: active_vuln_ids_def)

lemma active_vuln_ids_append [simp]:
  "active_vuln_ids (s @ t) = active_vuln_ids s \<union> active_vuln_ids t"
  by (auto simp: active_vuln_ids_def)

lemma new_vuln_key:
  "index_key (new_job now uuid (vuln_meta_input v)) = Some (JobTypeVulnMetaFetch, [v])"
  by (subst vuln_key)
    (simp_all add: new_job_def vuln_meta_input_def vuln_meta_payload_def pending_or_running_def
      json_text_def)

lemma active_new_vuln: "active_vuln_ids [new_job now uuid (vuln_meta_input v)] = {v}"
  by (simp add: active_vuln_ids_def new_job_def vuln_meta_input_def vuln_meta_payload_def
      pending_or_running_def json_text_def)

lemma create_vuln_cases:
  assumes inv: "store_inv s" and fresh: "uuid \<notin> job_id ` set s"
  shows "create_ignoring True now uuid (vuln_meta_input v) s =
           (if v \<in> active_vuln_ids s then s else s @ [new_job now uuid (vuln_meta_input v)])"
proof -
  let ?j = "new_job now uuid (vuln_meta_input v)"
  have mem: "(JobTypeVulnMetaFetch, [v]) \<in> set (index_keys s) \<longleftrightarrow> v \<in> active_vuln_ids s"
    by (simp add: set_index_keys active_vuln_ids_def vuln_key_iff)
  have ty: "in_type (vuln_meta_input v) \<noteq> []" "job_id ?j = uuid"
    by (simp_all add: vuln_meta_input_def job_type_defs new_job_def)
  have ins: "db_insert ?j s = (if v \<in> active_vuln_ids s then Inl DuplicateKey else Inr (s @ [?j]))"
    using inv fresh ty(2) mem by (simp add: db_insert_def index_ok_def store_inv_def new_vuln_key)
  have "CreateJob True now uuid (vuln_meta_input v) s =
      (case db_insert ?j s of Inl e \<Rightarrow> Inl e | Inr s' \<Rightarrow> Inr (?j, s'))"
    using ty(1) by (simp add: CreateJob_def CreateJobTx_def Let_def)
  then show ?thesis by (simp add: create_ignoring_def ins)
qed

lemma enqueue_each_exact:
  assumes "store_inv s" and "distinct (map snd vus)" and "set (map snd vus) \<inter> job_id ` set s = {}"
    and "distinct (map fst vus)" and "set (map fst vus) \<inter> active_vuln_ids s = {}"
  shows "enqueue_each True now vus s = s @ map (\<lambda>(v, u). new_job now u (vuln_meta_input v)) vus"
  using assms
proof (induction vus arbitrary: s)
  case Nil
  then show ?case by simp
next
  case (Cons vu vus)
  obtain v u where vu: "vu = (v, u)" by (cases vu)
  let ?s1 = "s @ [new_job now u (vuln_meta_input v)]"
  have u: "u \<notin> job_id ` set s" and v: "v \<notin> active_vuln_ids s" using Cons.prems vu by auto
  have s1: "create_ignoring True now u (vuln_meta_input v) s = ?s1"
    using create_vuln_cases [OF Cons.prems(1) u, of now v] v by simp
  have inv1: "store_inv ?s1"
    using create_ignoring_inv [OF Cons.prems(1), of True now u "vuln_meta_input v"] s1 by simp
  have id: "job_id (new_job now u (vuln_meta_input v)) = u" by (simp add: new_job_def)
  have "enqueue_each True now vus ?s1 = ?s1 @ map (\<lambda>(v, u). new_job now u (vuln_meta_input v)) vus"
    by (rule Cons.IH [OF inv1]) (use Cons.prems vu id in \<open>auto simp: active_new_vuln\<close>)
  then show ?case by (simp add: vu s1)
qed

lemma list_ex_active:
  "list_ex (\<lambda>j. job_type j = JobTypeVulnMetaFetch \<and> pending_or_running (status j) \<and>
       json_text (payload j) ''vuln_id'' = Some v) s \<longleftrightarrow> v \<in> active_vuln_ids s"
  by (auto simp: active_vuln_ids_def list_ex_iff)

lemma missing_props:
  "v \<in> set (missing_vuln_ids cv iv hm s) \<Longrightarrow>
     v \<noteq> [] \<and> v \<noteq> ''_none'' \<and> v \<notin> hm \<and> v \<notin> active_vuln_ids s"
  by (auto simp: missing_vuln_ids_def list_ex_active dest!: in_set_takeD)

lemma missing_source: "v \<in> set (missing_vuln_ids cv iv hm s) \<Longrightarrow> v \<in> set cv \<union> set iv"
  by (auto simp: missing_vuln_ids_def dest!: in_set_takeD)

lemma missing_capped:
  "\<exists>l. missing_vuln_ids cv iv hm s = take 1000 l \<and> distinct l \<and>
     set l = {v \<in> set cv \<union> set iv. v \<noteq> [] \<and> v \<noteq> ''_none'' \<and> v \<notin> hm \<and> v \<notin> active_vuln_ids s}"
  unfolding missing_vuln_ids_def vulnMetaEnqueueCap_def list_ex_active
  by (intro exI conjI, rule refl) (auto simp: distinct_remdups)

lemma active_vuln_ids_spelled:
  "v \<in> active_vuln_ids s \<longleftrightarrow>
     (\<exists>j \<in> set s. job_type j = ''VULN_META_FETCH'' \<and> status j \<in> {Queued, Retry, Running} \<and>
        json_text (payload j) ''vuln_id'' = Some v)"
  by (auto simp: active_vuln_ids_def pending_or_running_def JobTypeVulnMetaFetch_def)

lemma missing_distinct: "distinct (missing_vuln_ids cv iv hm s)"
  by (simp add: missing_vuln_ids_def)

lemma IDsMissing_of_missing:
  "IDsMissingMetadata hm (missing_vuln_ids cv iv hm s) = missing_vuln_ids cv iv hm s"
proof -
  let ?m = "missing_vuln_ids cv iv hm s"
  have 1: "filter (\<lambda>i. i \<noteq> [] \<and> i \<noteq> ''_none'') ?m = ?m"
    using missing_props [of _ cv iv hm s] by (intro filter_True) blast
  have 2: "rev (remdups (rev ?m)) = ?m"
    using missing_distinct [of cv iv hm s] by (simp add: distinct_remdups_id)
  have 3: "filter (\<lambda>i. i \<notin> hm) ?m = ?m"
    using missing_props [of _ cv iv hm s] by (intro filter_True) blast
  show ?thesis unfolding IDsMissingMetadata_def 1 2 3 ..
qed

section \<open>Quoted identifiers\<close>

text \<open>
  PostgreSQL's reading of a quoted identifier, after its opening quote: up to the first
  quote that is not doubled.
\<close>

fun scan_quoted :: "string \<Rightarrow> (string \<times> string) option" where
  "scan_quoted [] = None"
| "scan_quoted (c # cs) =
     (if c = CHR 0x22 then
        (case cs of
           d # ds \<Rightarrow>
             if d = CHR 0x22 then map_option (\<lambda>(n, r). (CHR 0x22 # n, r)) (scan_quoted ds)
             else Some ([], cs)
         | [] \<Rightarrow> Some ([], []))
      else map_option (\<lambda>(n, r). (c # n, r)) (scan_quoted cs))"

fun scan_ident :: "string \<Rightarrow> (string \<times> string) option" where
  "scan_ident (c # cs) = (if c = CHR 0x22 then scan_quoted cs else None)"
| "scan_ident [] = None"

lemma scan_double_quotes:
  assumes "rest = [] \<or> hd rest \<noteq> CHR 0x22"
  shows "scan_quoted (double_quotes name @ CHR 0x22 # rest) = Some (name, rest)"
proof (induction name)
  case Nil
  from assms show ?case by (cases rest) auto
next
  case (Cons c cs)
  then show ?case by (cases "double_quotes cs @ CHR 0x22 # rest") auto
qed

lemma scan_quoteIdent:
  "rest = [] \<or> hd rest \<noteq> CHR 0x22 \<Longrightarrow> scan_ident (quoteIdent name @ rest) = Some (name, rest)"
  by (simp add: quoteIdent_def scan_double_quotes)

section \<open>Properties\<close>

text \<open>C11. After the startup hook has run with the database up and fresh identifiers, each of
  the three feeds has exactly one queued or retrying job, whatever the table held before,
  and running the hook once more changes nothing.\<close>

theorem EnsureFeedRefreshScheduled_one_each:
  assumes inv: "store_inv s" and len: "length uuids = 3" and dis: "distinct uuids"
    and fresh: "set uuids \<inter> job_id ` set s = {}" and ty: "ty \<in> set feed_types"
  shows "pending_of_type ty (EnsureFeedRefreshScheduled at5 True now uuids s) = 1 \<and>
    EnsureFeedRefreshScheduled at5 True later uuids' (EnsureFeedRefreshScheduled at5 True now uuids s) =
      EnsureFeedRefreshScheduled at5 True now uuids s"
proof -
  let ?s' = "EnsureFeedRefreshScheduled at5 True now uuids s"
  have len': "length feed_types = length uuids" by (simp add: feed_types_def len)
  have fs: "map fst (zip feed_types uuids) = feed_types"
    and sn: "map snd (zip feed_types uuids) = uuids"
    using len' by (simp_all add: map_fst_zip map_snd_zip)
  have all: "pending_of_type t ?s' = 1" if "t \<in> set feed_types" for t
    unfolding EnsureFeedRefreshScheduled_def
    by (subst ensure_feeds_pending [OF inv]) (use that fs sn dis fresh in \<open>simp_all\<close>)
  have "EnsureFeedRefreshScheduled at5 True later uuids' ?s' = ?s'"
    unfolding EnsureFeedRefreshScheduled_def [of at5 True later]
    by (rule ensure_feeds_idle) (auto dest!: set_zip_leftD simp: all)
  with all [OF ty] show ?thesis by simp
qed

theorem EnsureFeedRefreshScheduled_one_each_witness:
  "pending_of_type ''FETCH_KEV'' (EnsureFeedRefreshScheduled (\<lambda>t. t) True 10 [''x'', ''y'', ''z'']
     [sample_job ''a'' ''FETCH_KEV'' Queued 5]) = 1"
proof -
  have "store_inv [sample_job ''a'' ''FETCH_KEV'' Queued 5]"
    by (simp add: store_inv_def index_ok_def row_ok_def sample_defs split: option.split)
  then show ?thesis
    using EnsureFeedRefreshScheduled_one_each
      [of "[sample_job ''a'' ''FETCH_KEV'' Queued 5]" "[''x'', ''y'', ''z'']" "''FETCH_KEV''"
        "\<lambda>t. t" 10 0 "[]"]
    by (simp add: feed_types_def job_type_defs sample_defs)
qed

text \<open>C12. The next refresh of a feed is always in the future and at most a week away: six hours
  for KEV, a week for dependency health, the next 05:00 local time for EPSS. The zone data
  is asked only that 05:00 on an instant's own date is less than a day before it and at
  most a day after it.\<close>

theorem nextFeedRunAt_bounds:
  assumes "from - 24 * hour < at5 from" and "at5 from \<le> from + 24 * hour"
  shows "from < nextFeedRunAt at5 ty from \<and> nextFeedRunAt at5 ty from \<le> from + 7 * 24 * hour \<and>
    nextFeedRunAt at5 JobTypeFetchKEV from = from + 6 * hour"
  using assms
  by (simp add: nextFeedRunAt_def Let_def kevRefreshInterval_def duration_defs job_type_defs)

theorem nextFeedRunAt_bounds_witness:
  "(86400000000000::int) < nextFeedRunAt (\<lambda>t. t div (24 * hour) * (24 * hour) + 5 * hour) ''FETCH_EPSS'' 86400000000000"
proof -
  let ?at5 = "\<lambda>t. t div (24 * hour) * (24 * hour) + 5 * hour"
  have "86400000000000 - 24 * hour < ?at5 86400000000000"
    and "?at5 86400000000000 \<le> 86400000000000 + 24 * hour"
    by (simp_all add: duration_defs)
  with nextFeedRunAt_bounds [of 86400000000000 ?at5 "''FETCH_EPSS''"] show ?thesis by blast
qed

lemma EnqueueMissingVulnMeta_exact:
  assumes inv: "store_inv s" and m: "missing_vuln_ids cv iv hm s = vs"
    and len: "length vs \<le> length uuids"
    and dis: "distinct uuids" and fresh: "set uuids \<inter> job_id ` set s = {}"
  shows "EnqueueMissingVulnMeta True now uuids cv iv hm s =
    s @ map (\<lambda>(v, u). new_job now u (vuln_meta_input v)) (zip vs uuids)"
proof -
  have fst: "map fst (zip vs uuids) = vs" using len by (simp add: map_fst_zip_take)
  have snd: "map snd (zip vs uuids) = take (length vs) uuids"
    using len by (simp add: map_snd_zip_take min_def)
  have "enqueue_each True now (zip vs uuids) s =
      s @ map (\<lambda>(v, u). new_job now u (vuln_meta_input v)) (zip vs uuids)"
  proof (rule enqueue_each_exact [OF inv])
    show "distinct (map snd (zip vs uuids))" using dis by (simp add: snd)
    show "set (map snd (zip vs uuids)) \<inter> job_id ` set s = {}"
      unfolding snd using fresh set_take_subset [of "length vs" uuids] by blast
    show "distinct (map fst (zip vs uuids))"
      unfolding fst using missing_distinct m by metis
    show "set (map fst (zip vs uuids)) \<inter> active_vuln_ids s = {}"
      unfolding fst using missing_props m by blast
  qed
  then show ?thesis
    using IDsMissing_of_missing [of hm cv iv s] m
    by (auto simp: EnqueueMissingVulnMeta_def EnqueueVulnMetaFetches_def Let_def)
qed

text \<open>C13. Call an advisory missing when a component or an image has it (the placeholder
  \<open>_none\<close> and the empty id aside), no metadata is stored for it and no fetch job for it is
  queued, retrying or running. With the database up and fresh identifiers, a backlog pass
  appends one queued fetch job for each of \<open>min 1000 n\<close> different missing advisories,
  where \<open>n\<close> is their number, and changes nothing else. So when at most 1000 are missing
  it covers every one of them, and a second pass then adds nothing.\<close>

theorem EnqueueMissingVulnMeta_covers:
  fixes cv iv :: "string list" and hm :: "string set" and s :: job_store
  defines "missing \<equiv> {v \<in> set cv \<union> set iv. v \<noteq> [] \<and> v \<noteq> ''_none'' \<and> v \<notin> hm \<and>
      \<not> (\<exists>j \<in> set s. job_type j = ''VULN_META_FETCH'' \<and> status j \<in> {Queued, Retry, Running} \<and>
           json_text (payload j) ''vuln_id'' = Some v)}"
  assumes inv: "store_inv s" and len: "min 1000 (card missing) \<le> length uuids"
    and dis: "distinct uuids" and fresh: "set uuids \<inter> job_id ` set s = {}"
  shows "\<exists>new vs. EnqueueMissingVulnMeta True now uuids cv iv hm s = s @ new \<and>
      map (\<lambda>j. json_text (payload j) ''vuln_id'') new = map Some vs \<and>
      list_all (\<lambda>j. job_type j = ''VULN_META_FETCH'' \<and> status j = Queued) new \<and>
      distinct vs \<and> set vs \<subseteq> missing \<and> length vs = min 1000 (card missing) \<and>
      (card missing \<le> 1000 \<longrightarrow> set vs = missing \<and>
         EnqueueMissingVulnMeta True later uuids' cv iv hm (s @ new) = s @ new)"
proof -
  have missing: "missing = {v \<in> set cv \<union> set iv. v \<noteq> [] \<and> v \<noteq> ''_none'' \<and> v \<notin> hm \<and> v \<notin> active_vuln_ids s}"
    by (simp only: missing_def active_vuln_ids_spelled)
  obtain l where l: "missing_vuln_ids cv iv hm s = take 1000 l" "distinct l" "set l = missing"
    using missing_capped [of cv iv hm s] missing by auto
  let ?vs = "take 1000 l"
  let ?new = "map (\<lambda>(v, u). new_job now u (vuln_meta_input v)) (zip ?vs uuids)"
  have card: "length ?vs = min 1000 (card missing)"
    using distinct_card [OF l(2)] l(3) by (simp add: min.commute)
  have lenl: "length ?vs \<le> length uuids" using card len by simp
  have pass: "EnqueueMissingVulnMeta True now uuids cv iv hm s = s @ ?new"
    by (rule EnqueueMissingVulnMeta_exact [OF inv l(1) lenl dis fresh])
  have "map (\<lambda>j. json_text (payload j) ''vuln_id'') ?new = map Some (map fst (zip ?vs uuids))"
    by (auto simp: new_job_def vuln_meta_input_def vuln_meta_payload_def json_text_def)
  then have ids: "map (\<lambda>j. json_text (payload j) ''vuln_id'') ?new = map Some ?vs"
    using lenl by (simp only: map_fst_zip_take min.absorb1 take_all_iff order.refl take_all)
  have rows: "list_all (\<lambda>j. job_type j = ''VULN_META_FETCH'' \<and> status j = Queued) ?new"
    by (auto simp: list_all_iff new_job_def vuln_meta_input_def JobTypeVulnMetaFetch_def)
  have "set vs' = missing \<and> EnqueueMissingVulnMeta True later uuids' cv iv hm (s @ ?new) = s @ ?new"
    if few: "card missing \<le> 1000" and vs': "vs' = ?vs" for vs'
  proof -
    have all: "?vs = l" using few distinct_card [OF l(2)] l(3) by simp
    have act: "v \<in> active_vuln_ids (s @ ?new)" if "v \<in> missing" for v
    proof -
      from that all l(3) have "Some v \<in> set (map (\<lambda>j. json_text (payload j) ''vuln_id'') ?new)"
        unfolding ids by simp
      with rows show ?thesis by (auto simp: active_vuln_ids_spelled list_all_iff)
    qed
    have "missing_vuln_ids cv iv hm (s @ ?new) = []"
    proof (rule ccontr)
      assume "\<not> ?thesis"
      then obtain v where v: "v \<in> set (missing_vuln_ids cv iv hm (s @ ?new))" by fastforce
      have "v \<in> set cv \<union> set iv" by (rule missing_source [OF v])
      with missing_props [OF v] missing have "v \<in> missing" by simp
      with act missing_props [OF v] show False by blast
    qed
    with all l(3) vs' show ?thesis by (simp add: EnqueueMissingVulnMeta_def)
  qed
  moreover have "set ?vs \<subseteq> missing" using l(3) set_take_subset [of 1000 l] by simp
  ultimately show ?thesis
    using pass ids rows card l(2) by (intro exI [of _ ?new] exI [of _ ?vs]) simp
qed

theorem EnqueueMissingVulnMeta_covers_witness:
  "\<exists>new vs. EnqueueMissingVulnMeta True 5 [''u'', ''v''] [''CVE-1'', ''_none''] [''CVE-1'', ''CVE-2''] {} []
       = [] @ new \<and> map (\<lambda>j. json_text (payload j) ''vuln_id'') new = map Some vs \<and>
     set vs = {''CVE-1'', ''CVE-2''}"
proof -
  have inv: "store_inv []" by (simp add: store_inv_def index_ok_def)
  have m: "{v \<in> set [''CVE-1'', ''_none''] \<union> set [''CVE-1'', ''CVE-2'']. v \<noteq> [] \<and> v \<noteq> ''_none'' \<and> v \<notin> {} \<and>
      \<not> (\<exists>j \<in> set []. job_type j = ''VULN_META_FETCH'' \<and> status j \<in> {Queued, Retry, Running} \<and>
           json_text (payload j) ''vuln_id'' = Some v)} = {''CVE-1'', ''CVE-2''}"
    by auto
  from EnqueueMissingVulnMeta_covers
    [OF inv, of "[''CVE-1'', ''_none'']" "[''CVE-1'', ''CVE-2'']" "{}" "[''u'', ''v'']" 5 6 "[]"]
  show ?thesis unfolding m by force
qed

text \<open>C14. Database maintenance runs only one of its two fixed commands, only on a table
  the catalog confirmed, and the statement it builds is read by PostgreSQL as exactly
  that schema and table, whatever characters the names hold.\<close>

theorem maintenance_plan_safe:
  assumes "maintenance_plan tables p = Inr (pre, op, schema, table, stmt)"
  shows "tables schema table = Some True \<and> pre \<in> {''ANALYZE'', ''VACUUM (ANALYZE)''} \<and>
    (\<exists>body. stmt = pre @ '' '' @ body \<and>
       (\<exists>rest. scan_ident body = Some (schema, CHR ''.'' # rest) \<and> scan_ident rest = Some (table, [])))"
proof -
  have stmt: "stmt = pre @ '' '' @ quoteIdent schema @ ''.'' @ quoteIdent table"
    and cat: "tables schema table = Some True"
    and pre: "pre \<in> {''ANALYZE'', ''VACUUM (ANALYZE)''}"
    using assms
    by (auto simp: maintenance_plan_def maintenanceStatement_def Let_def
        split: option.splits if_splits bool.splits)
  have "scan_ident (quoteIdent schema @ ''.'' @ quoteIdent table) =
      Some (schema, CHR ''.'' # quoteIdent table)"
    using scan_quoteIdent [of "''.'' @ quoteIdent table" schema] by simp
  moreover have "scan_ident (quoteIdent table) = Some (table, [])"
    using scan_quoteIdent [of "[]" table] by simp
  ultimately show ?thesis using stmt cat pre by blast
qed

theorem maintenance_plan_safe_witness:
  "\<exists>stmt. maintenance_plan (\<lambda>_ _. Some True)
     (Some (JObj [(''schema'', JStr ''public''), (''table'', JStr ''jobs''), (''operation'', JStr ''analyze'')]))
     = Inr (''ANALYZE'', ''analyze'', ''public'', ''jobs'', stmt) \<and>
     (\<exists>body. stmt = ''ANALYZE'' @ '' '' @ body)"
proof -
  have "maintenance_plan (\<lambda>_ _. Some True)
     (Some (JObj [(''schema'', JStr ''public''), (''table'', JStr ''jobs''), (''operation'', JStr ''analyze'')]))
     = Inr (''ANALYZE'', ''analyze'', ''public'', ''jobs'',
         ''ANALYZE'' @ '' '' @ quoteIdent ''public'' @ ''.'' @ quoteIdent ''jobs'')"
    by (simp add: maintenance_plan_def maintenanceStatement_def trim_space_def trim_left_def
        trim_right_def is_space_def Let_def)
  from maintenance_plan_safe [OF this] this show ?thesis by blast
qed

text \<open>A job of a type without a handler fails with an error the worker will retry:
  it does not carry the non-retryable mark.\<close>

theorem ProcessJob_unknown_type_retryable:
  assumes "job_type j \<notin> set [JobTypeCreateRun, JobTypeRefreshSBOMViews, JobTypeOSVScan,
    JobTypeSBOMAdhocScan, JobTypeProbeSecrets, JobTypeVulnMetaFetch, JobTypeFetchKEV,
    JobTypeFetchEPSS, JobTypeFetchDepHealth, JobTypeDBMaintenance, JobTypeAdvisoryBackfill]"
  shows "\<exists>e. out_result (ProcessJob env j s) = Inl e \<and> \<not> IsNonRetryable e \<and>
           out_store (ProcessJob env j s) = s"
  using assms by (simp add: ProcessJob_def proc_output_def)

theorem ProcessJob_unknown_type_retryable_witness:
  "\<forall>env. \<exists>e. out_result (ProcessJob env (sample_job ''a'' ''IMAGE_SCAN'' Running 1) []) = Inl e \<and>
     \<not> IsNonRetryable e"
  using ProcessJob_unknown_type_retryable [of "sample_job ''a'' ''IMAGE_SCAN'' Running 1"]
  by (auto simp: sample_defs job_type_defs)

end
