(* ===== verification/Run_Lifecycle.thy ===== *)
theory Run_Lifecycle
  imports Job_Process
begin

text \<open>
  The runs of the package \<open>internal/runner\<close>: starting one (\<open>ExecuteRun\<close> and
  the adopt-or-replace logic of \<open>createK8sJob\<close> in \<open>k8s.go\<close>), the pod status
  it reads (\<open>GetPodStatus\<close>), the reconciler of \<open>reconcile.go\<close>, the status
  writes of the runner's WebSocket (\<open>websocket.go\<close>), the image-scan lease endpoints
  (\<open>image_lease_handlers.go\<close>), and the handlers of \<open>uiapi/runs.go\<close> that
  requeue or delete runs. A run is a row of the \<open>jobs\<close> table seen through
  \<open>runner.Run\<close>.

  What the Kubernetes API answers is an argument. A handler returns its HTTP status with
  the table it leaves.
\<close>

section \<open>Kubernetes jobs and pods\<close>

text \<open>The counters of a \<open>batchv1.Job\<close> and its \<open>spam.io/run-id\<close> label.\<close>

record k8s_job =
  kj_name :: string
  kj_run_id :: string
  kj_active :: int
  kj_succeeded :: int
  kj_failed :: int

text \<open>A container's state: at most one of its three members is set.\<close>

datatype container_state =
    CSNone
  | CSRunning
  | CSTerminated int string string
  | CSWaiting string string

record container_status =
  cs_name :: string
  cs_state :: container_state

record pod_condition =
  pc_type :: string
  pc_status :: string
  pc_reason :: string
  pc_message :: string

record pod =
  pod_phase :: string
  pod_conditions :: "pod_condition list"
  pod_containers :: "container_status list"
  pod_inits :: "container_status list"

record pod_status =
  ps_phase :: string
  ps_reason :: string
  ps_message :: string
  ps_container :: string
  ps_waiting_reason :: string
  ps_waiting_message :: string
  ps_is_error :: bool
  ps_init :: string

definition empty_status :: "string \<Rightarrow> pod_status" where
  "empty_status phase =
     \<lparr>ps_phase = phase, ps_reason = [], ps_message = [], ps_container = [],
      ps_waiting_reason = [], ps_waiting_message = [], ps_is_error = False, ps_init = []\<rparr>"

definition flag_error :: "string \<Rightarrow> string \<Rightarrow> pod_status \<Rightarrow> pod_status" where
  "flag_error reason msg st = st\<lparr>ps_reason := reason, ps_message := msg, ps_is_error := True\<rparr>"

definition check_condition :: "pod_condition \<Rightarrow> pod_status \<Rightarrow> pod_status" where
  "check_condition c st =
     (if pc_type c = ''PodScheduled'' \<and> pc_status c = ''False'' then
        st\<lparr>ps_reason := pc_reason c, ps_message := pc_message c,
           ps_is_error := (ps_is_error st \<or> pc_reason c = ''Unschedulable'')\<rparr>
      else st)"

definition pull_errors :: "string list" where
  "pull_errors = [''ImagePullBackOff'', ''ErrImagePull'', ''InvalidImageName'']"

definition start_errors :: "string list" where
  "start_errors = [''CrashLoopBackOff'', ''CreateContainerConfigError'', ''CreateContainerError'']"

definition check_runner :: "container_state \<Rightarrow> pod_status \<Rightarrow> pod_status" where
  "check_runner cst st =
     (case cst of
        CSNone \<Rightarrow> st\<lparr>ps_container := ''unknown''\<rparr>
      | CSRunning \<Rightarrow> st\<lparr>ps_container := ''running''\<rparr>
      | CSTerminated code reason msg \<Rightarrow>
          (let st1 = st\<lparr>ps_container := ''terminated''\<rparr>
           in if code \<noteq> 0 then flag_error reason msg st1 else st1)
      | CSWaiting reason msg \<Rightarrow>
          (let st1 = st\<lparr>ps_container := ''waiting'', ps_waiting_reason := reason,
                        ps_waiting_message := msg\<rparr>
           in if reason \<in> set pull_errors \<or> reason \<in> set start_errors
              then flag_error reason msg st1 else st1))"

definition check_init :: "container_status \<Rightarrow> pod_status \<Rightarrow> pod_status" where
  "check_init c st =
     (if cs_name c \<noteq> ''clone'' then st
      else (case cs_state c of
              CSNone \<Rightarrow> st
            | CSRunning \<Rightarrow> st\<lparr>ps_init := ''running''\<rparr>
            | CSTerminated code reason msg \<Rightarrow>
                if code = 0 then st\<lparr>ps_init := ''completed''\<rparr>
                else flag_error reason msg (st\<lparr>ps_init := ''failed''\<rparr>)
            | CSWaiting reason msg \<Rightarrow>
                (let st1 = st\<lparr>ps_init := ''waiting''\<rparr>
                 in if reason \<in> set pull_errors
                    then (flag_error reason msg st1)
                           \<lparr>ps_waiting_reason := reason, ps_waiting_message := msg\<rparr>
                    else st1)))"

text \<open>Only the first pod of the list is looked at, and only its first container called
  \<open>runner\<close>.\<close>

definition GetPodStatus :: "go_error + pod list \<Rightarrow> go_error + pod_status" where
  "GetPodStatus pods =
     (case pods of
        Inl e \<Rightarrow> Inl (Wrapped ''list pods'' e)
      | Inr [] \<Rightarrow>
          Inr ((empty_status ''Pending'')\<lparr>ps_reason := ''NoPod'',
                 ps_message := ''no pods found for job''\<rparr>)
      | Inr (p # _) \<Rightarrow>
          (let st1 = fold check_condition (pod_conditions p) (empty_status (pod_phase p));
               st2 = (case find (\<lambda>c. cs_name c = ''runner'') (pod_containers p) of
                        None \<Rightarrow> st1
                      | Some c \<Rightarrow> check_runner (cs_state c) st1)
           in Inr (fold check_init (pod_inits p) st2)))"

section \<open>Creating the Kubernetes job of a run\<close>

datatype k8s_err = AlreadyExists | K8sError string

text \<open>The answers of the API server to the calls \<open>createK8sJob\<close> makes for a namespace
  and a job name, the last field those to the creations polled within the thirty seconds.\<close>

record k8s_calls =
  kc_create :: "string \<Rightarrow> string \<Rightarrow> k8s_err + string"
  kc_get :: "string \<Rightarrow> string \<Rightarrow> k8s_err + k8s_job"
  kc_delete :: "string \<Rightarrow> string \<Rightarrow> k8s_err option"
  kc_recreate :: "string \<Rightarrow> string \<Rightarrow> (k8s_err + string) list"

fun poll_recreate :: "(k8s_err + string) list \<Rightarrow> go_error + string" where
  "poll_recreate [] = Inl (Plain ''timed out waiting for old job to be deleted'')"
| "poll_recreate (Inr name # rest) = Inr name"
| "poll_recreate (Inl AlreadyExists # rest) = poll_recreate rest"
| "poll_recreate (Inl (K8sError m) # rest) =
     Inl (Wrapped ''failed to recreate job after deletion'' (Plain m))"

text \<open>
  A job is named after the first eight bytes of the run's id, so two runs can have the same
  name; the label then tells them apart. Ids are 36-byte UUIDs; \<open>runID[:8]\<close> would panic
  on one shorter than eight bytes.
\<close>

definition runJobName :: "string \<Rightarrow> string" where
  "runJobName runID = ''run-'' @ take 8 runID"

definition createK8sJob :: "k8s_calls \<Rightarrow> string \<Rightarrow> string \<Rightarrow> go_error + (string \<times> string)" where
  "createK8sJob k namespace runID =
     (let jobName = runJobName runID in
      case kc_create k namespace jobName of
        Inr name \<Rightarrow> Inr (name, namespace)
      | Inl (K8sError m) \<Rightarrow> Inl (Wrapped ''failed to create job'' (Plain m))
      | Inl AlreadyExists \<Rightarrow>
          (case kc_get k namespace jobName of
             Inl e \<Rightarrow> Inl (Plain ''job already exists and failed to get status'')
           | Inr existing \<Rightarrow>
               if kj_run_id existing \<noteq> runID
               then Inl (Plain (''job '' @ jobName @ '' already exists for a different run''))
               else if kj_active existing > 0 \<or> kj_succeeded existing > 0
               then Inr (kj_name existing, namespace)
               else if kj_failed existing > 0 then
                 (case kc_delete k namespace jobName of
                    Some e \<Rightarrow> Inl (Plain ''failed to delete old job'')
                  | None \<Rightarrow>
                      (case poll_recreate (kc_recreate k namespace jobName) of
                         Inl e \<Rightarrow> Inl e
                       | Inr name \<Rightarrow> Inr (name, namespace)))
               else Inr (kj_name existing, namespace)))"

section \<open>Starting a run\<close>

definition ProviderHealthFailed :: string where "ProviderHealthFailed = ''FAILED''"

text \<open>\<open>ee_health\<close> is the health column of a provider, \<open>None\<close> when the row
  cannot be read; \<open>ee_token\<close> the run token, or the error of minting it.\<close>

record exec_env =
  ee_ok :: bool
  ee_now :: go_time
  ee_health :: "string \<Rightarrow> string option"
  ee_token :: "go_error + string"
  ee_namespace :: string
  ee_calls :: k8s_calls

definition ExecuteRun ::
    "exec_env \<Rightarrow> string \<Rightarrow> create_run_payload \<Rightarrow> job_store \<Rightarrow> go_error option \<times> job_store" where
  "ExecuteRun env runID p s =
     (if crp_repo_disabled p then
        (NonRetryable (Some (Plain ''repository is disabled; skipping runner spawn'')), s)
      else if trim_space (crp_provider_id p) \<noteq> [] \<and>
              ee_health env (crp_provider_id p) = Some ProviderHealthFailed then
        (ProviderUnavailable (Some (Plain ''provider health is failed; will retry later'')), s)
      else case ee_token env of
        Inl e \<Rightarrow> (Some (Wrapped ''generate token'' e), s)
      | Inr tok \<Rightarrow>
          (case createK8sJob (ee_calls env) (ee_namespace env) runID of
             Inl e \<Rightarrow> (Some (Wrapped ''create job'' e), s)
           | Inr (name, ns) \<Rightarrow>
               if ee_ok env then
                 (None, set_job runID (\<lambda>j. j\<lparr>k8s_job_name := Some name, k8s_namespace := Some ns,
                                             updated_at := ee_now env\<rparr>) s)
               else (Some (Wrapped ''update run'' (Plain ''db'')), s)))"

section \<open>The reconciler\<close>

text \<open>
  The calls of one reconciliation: the job and the pods of a job name and namespace, and
  whether the database accepts the writes. Deleted Kubernetes jobs are part of the result.
\<close>

record reconcile_env =
  re_ok :: bool
  re_skip :: "string set"
  re_now :: go_time
  re_job :: "string \<Rightarrow> string \<Rightarrow> go_error + k8s_job"
  re_pods :: "string \<Rightarrow> string \<Rightarrow> go_error + pod list"

record reconcile_out =
  ro_err :: bool
  ro_store :: job_store
  ro_deleted :: "(string \<times> string) list"

definition run_update :: "bool \<Rightarrow> string \<Rightarrow> (job \<Rightarrow> job) \<Rightarrow> job_store \<Rightarrow> reconcile_out" where
  "run_update ok i f s =
     (case (if ok then db_update i f s else Inl DBUnavailable) of
        Inl e \<Rightarrow> \<lparr>ro_err = True, ro_store = s, ro_deleted = []\<rparr>
      | Inr s' \<Rightarrow> \<lparr>ro_err = False, ro_store = s', ro_deleted = []\<rparr>)"

definition requeueRun :: "reconcile_env \<Rightarrow> job \<Rightarrow> job_store \<Rightarrow> reconcile_out" where
  "requeueRun env run s =
     run_update (re_ok env) (job_id run)
       (\<lambda>j. j\<lparr>status := Queued, locked_at := None, locked_by := [], updated_at := re_now env\<rparr>) s"

definition markRunSucceeded :: "reconcile_env \<Rightarrow> job \<Rightarrow> job_store \<Rightarrow> reconcile_out" where
  "markRunSucceeded env run s =
     run_update (re_ok env) (job_id run)
       (\<lambda>j. j\<lparr>status := Succeeded, finished_at := Some (re_now env), locked_at := None,
              locked_by := [], updated_at := re_now env\<rparr>) s"

definition markRunFailed :: "reconcile_env \<Rightarrow> job \<Rightarrow> string \<Rightarrow> job_store \<Rightarrow> reconcile_out" where
  "markRunFailed env run msg s =
     run_update (re_ok env) (job_id run)
       (\<lambda>j. j\<lparr>status := Failed, job_error := msg, finished_at := Some (re_now env),
              locked_at := None, locked_by := [], updated_at := re_now env\<rparr>) s"

definition touch_run :: "reconcile_env \<Rightarrow> job \<Rightarrow> job_store \<Rightarrow> reconcile_out" where
  "touch_run env run s =
     run_update (re_ok env) (job_id run) (\<lambda>j. j\<lparr>updated_at := re_now env\<rparr>) s"

definition run_name :: "job \<Rightarrow> string" where
  "run_name j = (case k8s_job_name j of None \<Rightarrow> [] | Some n \<Rightarrow> n)"

definition run_ns :: "job \<Rightarrow> string" where
  "run_ns j = (case k8s_namespace j of None \<Rightarrow> [] | Some n \<Rightarrow> n)"

definition pod_error :: "reconcile_env \<Rightarrow> job \<Rightarrow> (string \<times> string) option" where
  "pod_error env run =
     (case GetPodStatus (re_pods env (run_name run) (run_ns run)) of
        Inl e \<Rightarrow> None
      | Inr st \<Rightarrow> if ps_is_error st then Some (ps_reason st, ps_message st) else None)"

definition reconcileRun :: "reconcile_env \<Rightarrow> job \<Rightarrow> job_store \<Rightarrow> reconcile_out" where
  "reconcileRun env run s =
     (let stuck = (\<lambda>(reason, msg).
            (markRunFailed env run (''k8s pod stuck: '' @ reason @ '': '' @ msg) s)
              \<lparr>ro_deleted := [(run_name run, run_ns run)]\<rparr>)
      in case re_job env (run_name run) (run_ns run) of
        Inl e \<Rightarrow> markRunFailed env run ''k8s job not found'' s
      | Inr kj \<Rightarrow>
          if kj_active kj > 0 then
            (case pod_error env run of Some rm \<Rightarrow> stuck rm | None \<Rightarrow> touch_run env run s)
          else if kj_succeeded kj > 0 then markRunSucceeded env run s
          else if kj_failed kj > 0 then
            (case pod_error env run of
               Some (reason, msg) \<Rightarrow>
                 markRunFailed env run (''k8s job failed: '' @ reason @ '': '' @ msg) s
             | None \<Rightarrow> markRunFailed env run ''k8s job failed'' s)
          else (case pod_error env run of Some rm \<Rightarrow> stuck rm | None \<Rightarrow> touch_run env run s))"

fun reconcile_each ::
    "(job \<Rightarrow> job_store \<Rightarrow> reconcile_out) \<Rightarrow> job list \<Rightarrow> nat \<Rightarrow> job_store
       \<Rightarrow> nat \<times> job_store \<times> (string \<times> string) list" where
  "reconcile_each f [] n s = (n, s, [])"
| "reconcile_each f (r # rs) n s =
     (let out = f r s in
      case reconcile_each f rs (if ro_err out then n else n + 1) (ro_store out) of
        (m, s', ds) \<Rightarrow> (m, s', ro_deleted out @ ds))"

text \<open>
  \<open>k8s_job_name != ''\<close> and \<open>k8s_job_name = ''\<close> are both \<open>NULL\<close>, so false,
  where the column is \<open>NULL\<close>. SQL leaves the order of the rows within the limit
  open; the model takes the table's.
\<close>

definition running_run :: "go_time \<Rightarrow> job \<Rightarrow> bool" where
  "running_run cutoff j \<longleftrightarrow>
     job_type j = JobTypeCreateRun \<and> status j = Running \<and> updated_at j < cutoff"

definition due_runs :: "reconcile_env \<Rightarrow> go_time \<Rightarrow> job_store \<Rightarrow> job list" where
  "due_runs env cutoff s =
     take 50 (filter (\<lambda>j. running_run cutoff j \<and> job_id j \<notin> re_skip env \<and>
                          k8s_job_name j \<noteq> None \<and> k8s_job_name j \<noteq> Some []) s)"

definition orphan_runs :: "reconcile_env \<Rightarrow> go_time \<Rightarrow> job_store \<Rightarrow> job list" where
  "orphan_runs env cutoff s =
     take 50 (filter (\<lambda>j. running_run cutoff j \<and> job_id j \<notin> re_skip env \<and>
                          k8s_job_name j = Some []) s)"

definition ReconcileRunningJobs ::
    "reconcile_env \<Rightarrow> duration \<Rightarrow> job_store \<Rightarrow> nat \<times> job_store \<times> (string \<times> string) list" where
  "ReconcileRunningJobs env minAge s =
     (let cutoff = re_now env - minAge; runs = due_runs env cutoff s in
      if \<not> re_ok env \<or> runs = [] then (0, s, [])
      else (case reconcile_each (reconcileRun env) runs 0 s of
              (n, s1, ds) \<Rightarrow>
                (case reconcile_each (requeueRun env) (orphan_runs env cutoff s1) n s1 of
                   (m, s2, ds2) \<Rightarrow> (m, s2, ds @ ds2))))"

section \<open>The runner's connection\<close>

text \<open>The write of \<open>updateRunStatus\<close>; it sets no condition on the row's status.\<close>

definition run_status_updates :: "go_time \<Rightarrow> job_status \<Rightarrow> job \<Rightarrow> job" where
  "run_status_updates now st j =
     (let j1 = j\<lparr>status := st, updated_at := now\<rparr> in
      if st = Running then j1\<lparr>locked_at := Some now, last_attempted_at := Some now\<rparr>
      else if st = Succeeded \<or> st = Failed \<or> st = Cancelled then j1\<lparr>finished_at := Some now\<rparr>
      else j1)"

definition updateRunStatus :: "bool \<Rightarrow> go_time \<Rightarrow> string \<Rightarrow> job_status \<Rightarrow> job_store \<Rightarrow> job_err + job_store" where
  "updateRunStatus ok now i st s =
     (if ok then db_update i (run_status_updates now st) s else Inl DBUnavailable)"

definition ignore_error :: "job_err + job_store \<Rightarrow> job_store \<Rightarrow> job_store" where
  "ignore_error r s = (case r of Inl e \<Rightarrow> s | Inr s' \<Rightarrow> s')"

text \<open>
  \<open>verifyAndPersistRunCommit\<close>; \<open>upsert\<close> is \<open>assets.UpsertRepoCommit\<close> on
  the repository, the commit and the ref.
\<close>

definition verifyAndPersistRunCommit ::
    "(string \<Rightarrow> string \<Rightarrow> string \<Rightarrow> go_error option) \<Rightarrow> create_run_payload \<Rightarrow> string \<Rightarrow> go_error + string" where
  "verifyAndPersistRunCommit upsert p observed0 =
     (let observed = trim_space observed0; expected = trim_space (crp_commit_sha p);
          sha = (if observed = [] then expected else observed)
      in if crp_repo_id p = [] then Inr sha
         else if sha = [] then Inl (Plain ''missing commit hash for repo-linked run'')
         else if expected \<noteq> [] \<and> observed \<noteq> [] \<and> \<not> equal_fold expected observed
         then Inl (Plain (''runner checked out '' @ observed @ '' but job expected '' @ expected))
         else (case upsert (crp_repo_id p) sha (crp_ref p) of
                 Some e \<Rightarrow> Inl (Wrapped ''persist repo commit'' e)
               | None \<Rightarrow> Inr sha))"

text \<open>Messages of a runner. Anything else than the four types is skipped, as is a message
  that does not parse.\<close>

datatype ws_message =
    WSLog string "go_time option"
  | WSCommitHash string
  | WSToolVersions "(string \<times> string \<times> string) list"
  | WSDone int
  | WSOther

record ws_state =
  ws_jobs :: job_store
  ws_logs :: "(string \<times> string \<times> string \<times> go_time) list"
  ws_tools :: "(string \<times> string \<times> string) list"

record ws_env =
  we_ok :: bool
  we_now :: go_time
  we_upsert :: "string \<Rightarrow> string \<Rightarrow> string \<Rightarrow> go_error option"

definition zero_payload :: create_run_payload where
  "zero_payload =
     \<lparr>crp_repo_id = [], crp_provider_id = [], crp_provider = [], crp_clone_url = [],
      crp_ref = [], crp_commit_sha = [], crp_repo_disabled = False\<rparr>"

definition ws_commit_hash :: "ws_env \<Rightarrow> string \<Rightarrow> string \<Rightarrow> job_store \<Rightarrow> job_store" where
  "ws_commit_hash env runID h s =
     (if \<not> we_ok env then s
      else case find_job s runID of
        None \<Rightarrow> s
      | Some run \<Rightarrow>
          (case (case payload run of None \<Rightarrow> Some zero_payload | Some v \<Rightarrow> decode_create_run v) of
             None \<Rightarrow> s
           | Some p \<Rightarrow>
               (case verifyAndPersistRunCommit (we_upsert env) p h of
                  Inl e \<Rightarrow> s
                | Inr sha \<Rightarrow>
                    if sha = [] then s
                    else ignore_error
                           (db_update runID (\<lambda>j. j\<lparr>commit_hash := Some sha, updated_at := we_now env\<rparr>) s) s)))"

text \<open>One message; the result says whether the connection is finished.\<close>

definition ws_handle :: "ws_env \<Rightarrow> string \<Rightarrow> ws_message \<Rightarrow> ws_state \<Rightarrow> bool \<times> ws_state" where
  "ws_handle env runID m st =
     (case m of
        WSLog line ts \<Rightarrow>
          (False, if we_ok env
                  then st\<lparr>ws_logs := ws_logs st @
                         [(runID, ''runner'', line, case ts of None \<Rightarrow> we_now env | Some t \<Rightarrow> t)]\<rparr>
                  else st)
      | WSCommitHash h \<Rightarrow> (False, st\<lparr>ws_jobs := ws_commit_hash env runID h (ws_jobs st)\<rparr>)
      | WSToolVersions vs \<Rightarrow>
          (False, if vs \<noteq> [] \<and> we_ok env then st\<lparr>ws_tools := vs\<rparr> else st)
      | WSDone code \<Rightarrow>
          (True, st\<lparr>ws_jobs := ignore_error (updateRunStatus (we_ok env) (we_now env) runID
                               (if code \<noteq> 0 then Failed else Succeeded) (ws_jobs st)) (ws_jobs st)\<rparr>)
      | WSOther \<Rightarrow> (False, st))"

fun ws_loop :: "string \<Rightarrow> (ws_env \<times> ws_message) list \<Rightarrow> ws_state \<Rightarrow> ws_state" where
  "ws_loop runID [] st = st"
| "ws_loop runID ((env, m) # ms) st =
     (case ws_handle env runID m st of
        (fin, st') \<Rightarrow> if fin then st' else ws_loop runID ms st')"

text \<open>A whole connection, after its token has been accepted for \<open>runID\<close>.\<close>

definition handleWebSocket ::
    "ws_env \<Rightarrow> string \<Rightarrow> (ws_env \<times> ws_message) list \<Rightarrow> ws_state \<Rightarrow> ws_state" where
  "handleWebSocket env runID ms st =
     ws_loop runID ms
       (st\<lparr>ws_jobs := ignore_error (updateRunStatus (we_ok env) (we_now env) runID Running (ws_jobs st))
                         (ws_jobs st)\<rparr>)"

section \<open>The image-scan endpoints\<close>

record signing_policy =
  sp_type :: string
  sp_issuer :: string
  sp_subject_pattern :: string
  sp_key_pem :: string
  sp_signature_repository :: string
  sp_fulcio_url :: string
  sp_rekor_url :: string
  sp_tuf_mirror_url :: string

record lease_response =
  lr_job_id :: string
  lr_image_digest_id :: string
  lr_registry :: string
  lr_repository :: string
  lr_digest :: string
  lr_scanners :: "(string \<times> string) list"
  lr_signing_policy :: "signing_policy option"
  lr_run_token :: string
  lr_worker_url :: string

text \<open>
  The payload of an image scan. The \<open>scanners\<close> are a map from strings to strings, a
  \<open>signing_policy\<close> an object whose known fields are strings; a value of another type
  is a decoding error. The policy in the payload is decoded and then not used: the lease
  carries the one that is active when it is handed out.
\<close>

record image_scan_payload =
  isp_digest_id :: string
  isp_registry :: string
  isp_repository :: string
  isp_digest :: string
  isp_scanners :: "(string \<times> string) list"

definition zero_scan :: image_scan_payload where
  "zero_scan = \<lparr>isp_digest_id = [], isp_registry = [], isp_repository = [], isp_digest = [], isp_scanners = []\<rparr>"

fun string_values :: "(string \<times> json) list \<Rightarrow> (string \<times> string) list option" where
  "string_values [] = Some []"
| "string_values ((k, v) # kvs) =
     (case (v, string_values kvs) of
        (JStr x, Some rest) \<Rightarrow> Some ((k, x) # rest)
      | (JNull, Some rest) \<Rightarrow> Some ((k, []) # rest)
      | _ \<Rightarrow> None)"

definition decode_scanners :: "json \<Rightarrow> (string \<times> string) list option" where
  "decode_scanners v =
     (case json_field (Some v) ''scanners'' of
        None \<Rightarrow> Some []
      | Some JNull \<Rightarrow> Some []
      | Some (JObj kvs) \<Rightarrow> string_values kvs
      | Some _ \<Rightarrow> None)"

definition policy_keys :: "string list" where
  "policy_keys = [''policy_type'', ''issuer'', ''subject_pattern'', ''key_pem'',
     ''signature_repository'', ''fulcio_url'', ''rekor_url'', ''tuf_mirror_url'']"

definition policy_decodes :: "json \<Rightarrow> bool" where
  "policy_decodes v =
     (case json_field (Some v) ''signing_policy'' of
        None \<Rightarrow> True
      | Some p \<Rightarrow> list_all (\<lambda>k. string_field p k \<noteq> None) policy_keys)"

definition decode_image_scan :: "json \<Rightarrow> image_scan_payload option" where
  "decode_image_scan v =
     (case (string_field v ''image_digest_id'', string_field v ''registry'',
            string_field v ''repository'', string_field v ''digest'', decode_scanners v) of
        (Some a, Some b, Some c, Some d, Some m) \<Rightarrow>
          if policy_decodes v
          then Some \<lparr>isp_digest_id = a, isp_registry = b, isp_repository = c, isp_digest = d, isp_scanners = m\<rparr>
          else None
      | _ \<Rightarrow> None)"

text \<open>
  \<open>policy\<close> is what \<open>loadActiveSigningPolicy\<close> finds, \<open>None\<close> when no policy
  is enabled or it cannot be read, and \<open>workerURL\<close> the configured address.
\<close>

definition handleImageScanNext ::
    "bool \<Rightarrow> string set \<Rightarrow> string \<Rightarrow> go_time \<Rightarrow> (string \<Rightarrow> go_error + string)
       \<Rightarrow> signing_policy option \<Rightarrow> string \<Rightarrow> job_store \<Rightarrow> nat \<times> lease_response option \<times> job_store" where
  "handleImageScanNext ok skip host now mint policy workerURL s =
     (let leasedBy = (if host = [] then ''image-scanner'' else host) in
      case ClaimNextJobOfType ok skip leasedBy now JobTypeImageScan s of
        Inl e \<Rightarrow> (500, None, s)
      | Inr (None, s1) \<Rightarrow> (204, None, s1)
      | Inr (Some j, s1) \<Rightarrow>
          (case (case payload j of None \<Rightarrow> Some zero_scan | Some v \<Rightarrow> decode_image_scan v) of
             None \<Rightarrow>
               (case UpdateJobStatus ok now (job_id j) Failed None ''corrupt payload'' None s1 of
                  Inl e \<Rightarrow> (500, None, s1)
                | Inr (j', s2) \<Rightarrow> (500, None, s2))
           | Some p \<Rightarrow>
               (case mint (job_id j) of
                  Inl e \<Rightarrow> (500, None, s1)
                | Inr tok \<Rightarrow>
                    (200, Some \<lparr>lr_job_id = job_id j, lr_image_digest_id = isp_digest_id p,
                                lr_registry = isp_registry p, lr_repository = isp_repository p,
                                lr_digest = isp_digest p, lr_scanners = isp_scanners p,
                                lr_signing_policy = policy, lr_run_token = tok,
                                lr_worker_url = workerURL\<rparr>, s1))))"

definition handleImageScanPending :: "bool \<Rightarrow> go_time \<Rightarrow> job_store \<Rightarrow> nat \<times> int" where
  "handleImageScanPending ok now s =
     (if ok then (200, int (count_where (\<lambda>j. job_type j = JobTypeImageScan \<and> pending (status j) \<and>
                                              run_at j \<le> now) s))
      else (500, 0))"

record complete_request =
  cr_status :: string
  cr_error :: string
  cr_partial :: "(string \<times> string) list"

record scan_run =
  sr_id :: string
  sr_finished :: "go_time option"
  sr_updated :: go_time

text \<open>The outcome a report asks for: \<open>None\<close> for an unknown status.\<close>

definition complete_status :: "go_time \<Rightarrow> string \<Rightarrow> job \<Rightarrow> (job_status \<times> go_time option) option" where
  "complete_status now st j =
     (if st = ''succeeded'' then Some (Succeeded, None)
      else if st = ''failed'' then Some (Failed, None)
      else if st = ''retry'' then
        (if attempts j \<ge> max_attempts j then Some (Failed, None)
         else Some (Retry, Some (NextRetryTime (attempts j) (max_attempts j) now)))
      else None)"

definition complete_result :: "complete_request \<Rightarrow> json" where
  "complete_result body =
     JObj ((''status'', JStr (cr_status body)) #
           (if cr_partial body = [] then []
            else [(''partial_failures'', JObj (map (\<lambda>(k, v). (k, JStr v)) (cr_partial body)))]))"

definition handleImageScanComplete ::
    "bool \<Rightarrow> go_time \<Rightarrow> string list \<Rightarrow> string list \<Rightarrow> string list \<Rightarrow> string set \<Rightarrow> string
       \<Rightarrow> complete_request option \<Rightarrow> scan_run list \<Rightarrow> job_store
       \<Rightarrow> nat \<times> scan_run list \<times> job_store" where
  "handleImageScanComplete ok now uuids component_vulns image_vulns have_meta jobID body runs s =
     (if jobID = [] then (400, runs, s)
      else case body of
        None \<Rightarrow> (400, runs, s)
      | Some b \<Rightarrow>
          if \<not> ok then (500, runs, s)
          else (case find_job s jobID of
             None \<Rightarrow> (404, runs, s)
           | Some j \<Rightarrow>
               if job_type j \<noteq> JobTypeImageScan then (403, runs, s)
               else (case complete_status now (cr_status b) j of
                  None \<Rightarrow> (400, runs, s)
                | Some (st, next) \<Rightarrow>
                    (case UpdateJobStatus ok now jobID st (Some (complete_result b)) (cr_error b) next s of
                       Inl e \<Rightarrow> (500, runs, s)
                     | Inr (j', s1) \<Rightarrow>
                         (200,
                          update_where (\<lambda>r. sr_id r = jobID \<and> sr_finished r = None)
                            (\<lambda>r. r\<lparr>sr_finished := Some now, sr_updated := now\<rparr>) runs,
                          EnqueueMissingVulnMeta ok now uuids component_vulns image_vulns have_meta s1)))))"

section \<open>Requeueing and deleting runs by hand\<close>

definition bulk_update :: "(job \<Rightarrow> bool) \<Rightarrow> (job \<Rightarrow> job) \<Rightarrow> job_store \<Rightarrow> job_err + (nat \<times> job_store)" where
  "bulk_update p f s =
     (let s' = update_where p f s in
      if index_ok s' then Inr (count_where p s, s') else Inl DuplicateKey)"

definition reset_run :: "go_time \<Rightarrow> job \<Rightarrow> job" where
  "reset_run now j =
     j\<lparr>status := Queued, attempts := 0, job_error := [], locked_at := None, locked_by := [],
       finished_at := None, last_attempted_at := None, k8s_job_name := Some [],
       k8s_namespace := Some [], updated_at := now, run_at := now\<rparr>"

text \<open>The rows of the bulk reschedule: failed, with a non-empty key, and no newer row of
  that key queued, running or succeeded.\<close>

definition reschedulable :: "string \<Rightarrow> string \<Rightarrow> job_store \<Rightarrow> job \<Rightarrow> bool" where
  "reschedulable ty key s j \<longleftrightarrow>
     job_type j = ty \<and> status j = Failed \<and>
     (case json_text (payload j) key of
        None \<Rightarrow> False
      | Some v \<Rightarrow>
          v \<noteq> [] \<and>
          \<not> list_ex (\<lambda>j2. job_type j2 = ty \<and> status j2 \<in> {Queued, Running, Succeeded} \<and>
                         json_text (payload j2) key = Some v \<and> created_at j2 > created_at j) s)"

text \<open>Status code, rescheduled and skipped. The two statements commit separately.\<close>

definition RunsRescheduleFailed :: "bool \<Rightarrow> go_time \<Rightarrow> job_store \<Rightarrow> nat \<times> int \<times> int \<times> job_store" where
  "RunsRescheduleFailed admin now s =
     (if \<not> admin then (403, 0, 0, s)
      else
        (let totalFailed = count_where (\<lambda>j. (job_type j = JobTypeCreateRun \<or> job_type j = JobTypeImageScan) \<and>
                                           status j = Failed) s
         in case bulk_update (reschedulable JobTypeCreateRun ''repo_id'' s) (reset_run now) s of
              Inl e \<Rightarrow> (500, 0, 0, s)
            | Inr (n1, s1) \<Rightarrow>
                (case bulk_update (reschedulable JobTypeImageScan ''image_digest_id'' s1) (reset_run now) s1 of
                   Inl e \<Rightarrow> (500, 0, 0, s1)
                 | Inr (n2, s2) \<Rightarrow> (200, int (n1 + n2), int totalFailed - int (n1 + n2), s2))))"

definition RunRetry :: "bool \<Rightarrow> bool \<Rightarrow> go_time \<Rightarrow> string \<Rightarrow> job_store \<Rightarrow> nat \<times> job_store" where
  "RunRetry authorised ok now runID s =
     (if \<not> authorised then (403, s)
      else if runID = [] then (400, s)
      else if \<not> ok then (500, s)
      else case find_job s runID of
        None \<Rightarrow> (404, s)
      | Some j \<Rightarrow>
          if job_type j \<noteq> JobTypeCreateRun \<and> job_type j \<noteq> JobTypeImageScan then (400, s)
          else if status j = Succeeded \<or> status j = Running \<or> status j = Queued then (400, s)
          else (case db_update runID (reset_run now) s of
                  Inl e \<Rightarrow> (500, s)
                | Inr s' \<Rightarrow> (200, s')))"

definition RunsDeleteFailed :: "bool \<Rightarrow> bool \<Rightarrow> job_store \<Rightarrow> nat \<times> nat \<times> job_store" where
  "RunsDeleteFailed admin ok s =
     (if \<not> admin then (403, 0, s)
      else if \<not> ok then (500, 0, s)
      else (let p = (\<lambda>j. job_type j = JobTypeCreateRun \<and> status j = Failed) in
            (200, count_where p s, filter (\<lambda>j. \<not> p j) s)))"

section \<open>Every operation keeps the table's invariant\<close>

lemma run_update_inv:
  assumes "store_inv s" and "\<And>j. job_id (f j) = job_id j" and "\<And>j. row_ok j \<Longrightarrow> row_ok (f j)"
  shows "store_inv (ro_store (run_update ok i f s))"
  using assms db_update_inv [of i f s] by (auto simp: run_update_def split: sum.splits)

lemma reconcile_writes_inv [inv_intros]:
  assumes "store_inv s"
  shows "store_inv (ro_store (requeueRun env run s))"
    and "store_inv (ro_store (markRunSucceeded env run s))"
    and "store_inv (ro_store (markRunFailed env run msg s))"
    and "store_inv (ro_store (touch_run env run s))"
  unfolding requeueRun_def markRunSucceeded_def markRunFailed_def touch_run_def
  by (rule run_update_inv [OF assms]; simp add: row_ok_def)+

lemma reconcileRun_inv [inv_intros]:
  "store_inv s \<Longrightarrow> store_inv (ro_store (reconcileRun env run s))"
  by (simp add: reconcileRun_def Let_def inv_intros split: sum.split option.split prod.split)

lemma reconcile_each_inv:
  assumes "\<And>r s. store_inv s \<Longrightarrow> store_inv (ro_store (f r s))" and "store_inv s"
    and "reconcile_each f rs n s = (m, s', ds)"
  shows "store_inv s'"
  using assms(2,3)
proof (induction rs arbitrary: n s m s' ds)
  case (Cons r rs)
  from Cons.prems(2) obtain ds' where
    "reconcile_each f rs (if ro_err (f r s) then n else n + 1) (ro_store (f r s)) = (m, s', ds')"
    by (auto simp: Let_def split: prod.splits)
  from Cons.IH [OF assms(1) [OF Cons.prems(1)] this] show ?case .
qed simp

lemma ReconcileRunningJobs_inv:
  assumes inv: "store_inv s" and r: "ReconcileRunningJobs env age s = (n, s', ds)"
  shows "store_inv s'"
proof (cases "\<not> re_ok env \<or> due_runs env (re_now env - age) s = []")
  case True
  with r inv show ?thesis by (auto simp: ReconcileRunningJobs_def Let_def)
next
  case False
  obtain n1 s1 d1 where 1: "reconcile_each (reconcileRun env) (due_runs env (re_now env - age) s) 0 s = (n1, s1, d1)"
    by (metis prod_cases3)
  with False r obtain d2 where 2: "reconcile_each (requeueRun env) (orphan_runs env (re_now env - age) s1) n1 s1 = (n, s', d2)"
    by (auto simp: ReconcileRunningJobs_def Let_def split: prod.splits)
  from reconcile_each_inv [OF reconcileRun_inv inv 1] have "store_inv s1" by simp
  from reconcile_each_inv [OF reconcile_writes_inv(1) this 2] show ?thesis by simp
qed

lemma row_ok_run_status: "row_ok j \<Longrightarrow> \<not> pending st \<Longrightarrow> row_ok (run_status_updates now st j)"
  by (auto simp: row_ok_def run_status_updates_def Let_def)

lemma job_id_run_updates [simp]:
  "job_id (run_status_updates now st j) = job_id j" "job_id (reset_run now j) = job_id j"
  by (simp_all add: run_status_updates_def reset_run_def Let_def)

lemma row_ok_reset: "row_ok j \<Longrightarrow> row_ok (reset_run now j)"
  by (auto simp: row_ok_def reset_run_def)

lemma ignore_error_inv:
  "store_inv s \<Longrightarrow> (\<And>s'. r = Inr s' \<Longrightarrow> store_inv s') \<Longrightarrow> store_inv (ignore_error r s)"
  by (simp add: ignore_error_def split: sum.split)

lemma updateRunStatus_inv:
  assumes "store_inv s" and "\<not> pending st"
  shows "store_inv (ignore_error (updateRunStatus ok now i st s) s)"
  using assms
  by (intro ignore_error_inv)
    (auto simp: updateRunStatus_def row_ok_run_status split: if_splits elim!: db_update_inv)

lemma ws_commit_hash_inv:
  assumes "store_inv s"
  shows "store_inv (ws_commit_hash env i h s)"
proof -
  have "store_inv (ignore_error
      (db_update i (\<lambda>j. j\<lparr>commit_hash := Some sha, updated_at := now\<rparr>) s) s)" for sha now
    using assms by (intro ignore_error_inv) (auto simp: row_ok_def elim!: db_update_inv)
  with assms show ?thesis by (simp add: ws_commit_hash_def split: option.split sum.split)
qed

lemma ws_handle_inv:
  "store_inv (ws_jobs st) \<Longrightarrow> store_inv (ws_jobs (snd (ws_handle env i m st)))"
  by (cases m) (simp_all add: ws_handle_def ws_commit_hash_inv updateRunStatus_inv)

lemma ws_loop_inv: "store_inv (ws_jobs st) \<Longrightarrow> store_inv (ws_jobs (ws_loop i ms st))"
proof (induction i ms st rule: ws_loop.induct)
  case (2 i env m ms st)
  with ws_handle_inv [of st env i m] show ?case by (auto split: prod.split)
qed simp

lemma handleWebSocket_inv:
  "store_inv (ws_jobs st) \<Longrightarrow> store_inv (ws_jobs (handleWebSocket env i ms st))"
  by (simp add: handleWebSocket_def ws_loop_inv updateRunStatus_inv)

lemma ExecuteRun_inv: "store_inv s \<Longrightarrow> store_inv (snd (ExecuteRun env i p s))"
proof -
  assume inv: "store_inv s"
  let ?f = "\<lambda>name ns j. j\<lparr>k8s_job_name := Some name, k8s_namespace := Some ns, updated_at := ee_now env\<rparr>"
  have "store_inv (set_job i (?f name ns) s)" for name ns
  proof -
    have "index_keys (update_where (\<lambda>j. job_id j = i) (?f name ns) s) = index_keys s"
      by (rule index_keys_same, rule index_key_cong) simp_all
    moreover have "list_all row_ok (update_where (\<lambda>j. job_id j = i) (?f name ns) s)"
      using inv by (auto simp: store_inv_def row_ok_def intro!: list_all_update_where)
    ultimately show ?thesis
      using inv by (simp add: set_job_def store_inv_def index_ok_def map_update_where)
  qed
  with inv show ?thesis by (simp add: ExecuteRun_def split: sum.split prod.split)
qed

interpretation runner: run_executor "ExecuteRun env" for env
  by unfold_locales (rule ExecuteRun_inv)

lemma ClaimNextJobOfType_inv [inv_intros]:
  "ClaimNextJobOfType ok skip w now ty s = Inr (r, s') \<Longrightarrow> store_inv s \<Longrightarrow> store_inv s'"
  by (auto simp: ClaimNextJobOfType_def intro: claim_first_inv)

lemma handleImageScanNext_inv:
  "handleImageScanNext ok skip h now mint pol url s = (c, r, s') \<Longrightarrow> store_inv s \<Longrightarrow> store_inv s'"
  by (auto simp: handleImageScanNext_def Let_def
      split: sum.splits prod.splits option.splits intro: inv_intros)

lemma handleImageScanComplete_inv:
  "handleImageScanComplete ok now us cv iv hm i body runs s = (c, r, s') \<Longrightarrow> store_inv s \<Longrightarrow> store_inv s'"
  by (auto simp: handleImageScanComplete_def split: sum.splits prod.splits option.splits if_splits
      intro: EnqueueMissingVulnMeta_inv UpdateJobStatus_inv)

lemma bulk_update_inv:
  assumes "bulk_update p f s = Inr (n, s')" and "store_inv s"
    and "\<And>j. job_id (f j) = job_id j" and "\<And>j. row_ok j \<Longrightarrow> row_ok (f j)"
  shows "store_inv s'"
  using assms
  by (auto simp: bulk_update_def Let_def store_inv_def map_update_where split: if_splits
      intro: list_all_update_where)

lemma RunsRescheduleFailed_inv:
  "RunsRescheduleFailed a now s = (c, n, k, s') \<Longrightarrow> store_inv s \<Longrightarrow> store_inv s'"
  by (auto simp: RunsRescheduleFailed_def Let_def row_ok_reset split: if_splits sum.splits prod.splits
      dest!: bulk_update_inv)

lemma RunRetry_inv: "RunRetry a ok now i s = (c, s') \<Longrightarrow> store_inv s \<Longrightarrow> store_inv s'"
  by (auto simp: RunRetry_def row_ok_reset split: if_splits option.splits sum.splits
      elim!: db_update_inv)

lemma index_keys_filter: "subseq (index_keys (filter p s)) (index_keys s)"
  by (induction s) (auto split: option.split)

lemma filter_inv:
  assumes "store_inv s"
  shows "store_inv (filter p s)"
proof -
  have "distinct (index_keys (filter p s))"
    using assms index_keys_filter [of p s]
    by (auto simp: store_inv_def index_ok_def subseq_conv_nths distinct_nthsI)
  moreover have "distinct (map job_id (filter p s))"
    using assms by (simp add: store_inv_def distinct_map_filter)
  ultimately show ?thesis
    using assms by (simp add: store_inv_def index_ok_def list_all_iff)
qed

lemma RunsDeleteFailed_inv: "RunsDeleteFailed a ok s = (c, n, s') \<Longrightarrow> store_inv s \<Longrightarrow> store_inv s'"
  by (auto simp: RunsDeleteFailed_def Let_def filter_inv split: if_splits)

section \<open>What a reconciliation does to a row\<close>

lemma run_update_other:
  "k \<in> set s \<Longrightarrow> job_id k \<noteq> i \<Longrightarrow> k \<in> set (ro_store (run_update ok i f s))"
  by (auto simp: run_update_def db_update_def set_job_def set_update_where Let_def
      split: sum.splits if_splits)

lemmas run_write_defs = requeueRun_def markRunSucceeded_def markRunFailed_def touch_run_def

lemma reconcileRun_other:
  "k \<in> set s \<Longrightarrow> job_id k \<noteq> job_id run \<Longrightarrow> k \<in> set (ro_store (reconcileRun env run s))"
  by (simp add: reconcileRun_def run_write_defs run_update_other Let_def
      split: sum.split option.split prod.split)

lemma reconcile_each_other:
  assumes "\<And>r s. k \<in> set s \<Longrightarrow> job_id k \<noteq> job_id r \<Longrightarrow> k \<in> set (ro_store (f r s))"
    and "k \<in> set s" and "job_id k \<notin> job_id ` set rs"
    and "reconcile_each f rs n s = (m, s', ds)"
  shows "k \<in> set s'"
  using assms(2-)
proof (induction rs arbitrary: n s m s' ds)
  case (Cons r rs)
  from Cons.prems(3) obtain ds' where
    rest: "reconcile_each f rs (if ro_err (f r s) then n else n + 1) (ro_store (f r s)) = (m, s', ds')"
    by (auto simp: Let_def split: prod.splits)
  from Cons.prems have "k \<in> set (ro_store (f r s))" by (auto intro: assms(1))
  from Cons.IH [OF this _ rest] Cons.prems(2) show ?case by simp
qed simp

lemma due_runs_named: "r \<in> set (due_runs env c s) \<Longrightarrow> r \<in> set s \<and> k8s_job_name r \<noteq> None"
  by (auto simp: due_runs_def dest: in_set_takeD)

lemma orphan_runs_named: "r \<in> set (orphan_runs env c s) \<Longrightarrow> r \<in> set s \<and> k8s_job_name r \<noteq> None"
  by (auto simp: orphan_runs_def dest: in_set_takeD)

lemma unnamed_other_id:
  assumes "store_inv s" and "k \<in> set s" and "k8s_job_name k = None"
    and "\<And>r. r \<in> R \<Longrightarrow> r \<in> set s \<and> k8s_job_name r \<noteq> None"
  shows "job_id k \<notin> job_id ` R"
proof
  assume "job_id k \<in> job_id ` R"
  then obtain r where "r \<in> R" "job_id r = job_id k" by auto
  with assms have "r = k" by (auto simp: store_inv_def dest: distinct_map_eqD)
  with assms(3) assms(4) [OF \<open>r \<in> R\<close>] show False by simp
qed

text \<open>
  The decision the reconciler is meant to make about a run, from what Kubernetes says.
\<close>

datatype run_verdict = StillRunning | RunOk | RunBroken

definition run_verdict_of :: "reconcile_env \<Rightarrow> job \<Rightarrow> run_verdict" where
  "run_verdict_of env run =
     (case re_job env (run_name run) (run_ns run) of
        Inl e \<Rightarrow> RunBroken
      | Inr kj \<Rightarrow>
          if kj_active kj \<le> 0 \<and> kj_succeeded kj > 0 then RunOk
          else if kj_active kj \<le> 0 \<and> kj_failed kj > 0 then RunBroken
          else if pod_error env run \<noteq> None then RunBroken else StillRunning)"

definition verdict_status :: "run_verdict \<Rightarrow> job_status \<Rightarrow> job_status" where
  "verdict_status v st = (case v of StillRunning \<Rightarrow> st | RunOk \<Rightarrow> Succeeded | RunBroken \<Rightarrow> Failed)"

lemma index_key_run_terminal:
  assumes "job_type j = JobTypeCreateRun" and "job_type (f j) = job_type j" and "\<not> pending (status (f j))"
  shows "index_key (f j) = None"
  using assms by (simp add: index_key_def singleton_types_def job_type_defs)

text \<open>A write that leaves a run in a status that does not wait cannot violate an index.\<close>

lemma db_update_run:
  assumes inv: "store_inv s" and run: "run \<in> set s" "job_type run = JobTypeCreateRun"
    and f: "job_type (f run) = job_type run" "\<not> pending (status (f run))"
  shows "db_update (job_id run) f s = Inr (map (\<lambda>j. if j = run then f j else j) s)"
proof -
  have ids: "distinct (map job_id s)" and ix: "index_ok s" using inv by (auto simp: store_inv_def)
  have "index_ok (set_job (job_id run) f s)"
    unfolding set_job_def
  proof (rule index_ok_shrink [OF ix])
    fix k assume "k \<in> set s" "job_id k = job_id run"
    with run(1) ids have "k = run" by (auto dest: distinct_map_eqD)
    with index_key_run_terminal [of run f] run(2) f
    show "index_key (f k) = None \<or> index_key (f k) = index_key k" by simp
  qed
  with ids run(1) show ?thesis by (simp add: db_update_def set_job_eq)
qed

lemma run_update_effect:
  assumes "store_inv s" and "run \<in> set s" "job_type run = JobTypeCreateRun"
    and "job_type (f run) = job_type run" "\<not> pending (status (f run))"
  shows "run_update True (job_id run) f s =
    \<lparr>ro_err = False, ro_store = map (\<lambda>j. if j = run then f j else j) s, ro_deleted = []\<rparr>"
  using db_update_run [of s run f] assms by (simp add: run_update_def)

section \<open>Properties\<close>

text \<open>C5. Reconciling a running run writes the status the state of its Kubernetes job calls
  for: failed when the job is gone, has failed or its pod is stuck, succeeded when it
  succeeded, and only a fresh timestamp otherwise. No other row changes, and the
  Kubernetes job is deleted exactly when its pod is stuck before the job has ended.\<close>

theorem reconcileRun_implements_verdict:
  assumes inv: "store_inv s" and run: "run \<in> set s" "job_type run = JobTypeCreateRun" "status run = Running"
    and ok: "re_ok env"
  shows "\<exists>g. ro_store (reconcileRun env run s) = map (\<lambda>j. if j = run then g j else j) s \<and>
      job_id (g run) = job_id run \<and> updated_at (g run) = re_now env \<and>
      status (g run) = verdict_status (run_verdict_of env run) Running \<and>
      (ro_deleted (reconcileRun env run s) \<noteq> [] \<longleftrightarrow>
         pod_error env run \<noteq> None \<and>
         (\<exists>kj. re_job env (run_name run) (run_ns run) = Inr kj \<and>
               (kj_active kj > 0 \<or> kj_succeeded kj \<le> 0 \<and> kj_failed kj \<le> 0)))"
proof -
  let ?fail = "\<lambda>m j. j\<lparr>status := Failed, job_error := m, finished_at := Some (re_now env),
      locked_at := None, locked_by := [], updated_at := re_now env\<rparr>"
  let ?succ = "\<lambda>j. j\<lparr>status := Succeeded, finished_at := Some (re_now env), locked_at := None,
      locked_by := [], updated_at := re_now env\<rparr>"
  let ?touch = "\<lambda>j. j\<lparr>updated_at := re_now env\<rparr>"
  have w: "run_update True (job_id run) (?fail m) s =
        \<lparr>ro_err = False, ro_store = map (\<lambda>j. if j = run then ?fail m j else j) s, ro_deleted = []\<rparr>"
      "run_update True (job_id run) ?succ s =
        \<lparr>ro_err = False, ro_store = map (\<lambda>j. if j = run then ?succ j else j) s, ro_deleted = []\<rparr>"
      "run_update True (job_id run) ?touch s =
        \<lparr>ro_err = False, ro_store = map (\<lambda>j. if j = run then ?touch j else j) s, ro_deleted = []\<rparr>" for m
    using run by (auto intro!: run_update_effect [OF inv run(1,2)])
  show ?thesis
  proof (cases "re_job env (run_name run) (run_ns run)")
    case (Inl e)
    then show ?thesis
      by (intro exI [of _ "?fail ''k8s job not found''"])
        (simp add: reconcileRun_def run_write_defs ok w run_verdict_of_def verdict_status_def)
  next
    case (Inr kj)
    show ?thesis
    proof (cases "pod_error env run")
      case None
      with Inr w ok run(3) show ?thesis
        by (intro exI [of _ "if kj_active kj > 0 then ?touch else if kj_succeeded kj > 0 then ?succ
              else if kj_failed kj > 0 then ?fail ''k8s job failed'' else ?touch"])
          (simp add: reconcileRun_def run_write_defs run_verdict_of_def verdict_status_def)
    next
      case (Some rm)
      obtain r m where rm: "rm = (r, m)" by (cases rm)
      let ?stuck = "?fail (''k8s pod stuck: '' @ r @ '': '' @ m)"
      from Some rm Inr w ok show ?thesis
        by (intro exI [of _ "if kj_active kj > 0 then ?stuck else if kj_succeeded kj > 0 then ?succ
              else if kj_failed kj > 0 then ?fail (''k8s job failed: '' @ r @ '': '' @ m) else ?stuck"])
          (simp add: reconcileRun_def run_write_defs run_verdict_of_def verdict_status_def)
    qed
  qed
qed

definition sample_run :: job where
  "sample_run = (sample_job ''r'' ''CREATE_RUN'' Running 5)
     \<lparr>k8s_job_name := Some ''run-r'', k8s_namespace := Some ''spam''\<rparr>"

definition sample_reconcile :: "go_error + k8s_job \<Rightarrow> reconcile_env" where
  "sample_reconcile kj =
     \<lparr>re_ok = True, re_skip = {}, re_now = 900, re_job = (\<lambda>_ _. kj), re_pods = (\<lambda>_ _. Inr [])\<rparr>"

lemma sample_run_inv: "store_inv [sample_run]"
  by (simp add: sample_run_def sample_defs store_inv_def index_ok_def index_key_def singleton_types_def
      job_type_defs row_ok_def)

theorem reconcileRun_implements_verdict_witness:
  "\<exists>j. ro_store (reconcileRun (sample_reconcile (Inl (Plain ''gone''))) sample_run [sample_run]) = [j] \<and>
     status j = Failed"
proof -
  have "run_verdict_of (sample_reconcile (Inl (Plain ''gone''))) sample_run = RunBroken"
    by (simp add: run_verdict_of_def sample_reconcile_def)
  with reconcileRun_implements_verdict [OF sample_run_inv, of sample_run "sample_reconcile (Inl (Plain ''gone''))"]
  show ?thesis
    by (simp add: sample_run_def sample_defs job_type_defs sample_reconcile_def verdict_status_def) blast
qed

text \<open>C15. A run whose row has no Kubernetes job name (\<open>NULL\<close>, as \<open>CreateJob\<close>
  leaves it) is untouched by any reconciliation: the orphan pass, written for runs whose
  worker died before the Kubernetes job existed, never sees it.\<close>

theorem ReconcileRunningJobs_misses_unstarted:
  assumes inv: "store_inv s" and k: "k \<in> set s" "k8s_job_name k = None"
    and r: "ReconcileRunningJobs env age s = (n, s', ds)"
  shows "k \<in> set s'"
proof (cases "\<not> re_ok env \<or> due_runs env (re_now env - age) s = []")
  case True
  with r k show ?thesis by (auto simp: ReconcileRunningJobs_def Let_def)
next
  case False
  obtain n1 s1 d1 where 1: "reconcile_each (reconcileRun env) (due_runs env (re_now env - age) s) 0 s = (n1, s1, d1)"
    by (metis prod_cases3)
  with False r obtain d2 where 2: "reconcile_each (requeueRun env) (orphan_runs env (re_now env - age) s1) n1 s1 = (n, s', d2)"
    by (auto simp: ReconcileRunningJobs_def Let_def split: prod.splits)
  have "job_id k \<notin> job_id ` set (due_runs env (re_now env - age) s)"
    by (rule unnamed_other_id [OF inv k]) (rule due_runs_named)
  from reconcile_each_other [OF reconcileRun_other k(1) this 1] have k1: "k \<in> set s1" by simp
  have inv1: "store_inv s1" using reconcile_each_inv [OF reconcileRun_inv inv 1] by simp
  have "job_id k \<notin> job_id ` set (orphan_runs env (re_now env - age) s1)"
    by (rule unnamed_other_id [OF inv1 k1 k(2)]) (rule orphan_runs_named)
  moreover have "k \<in> set (ro_store (requeueRun env r s))" if "k \<in> set s" "job_id k \<noteq> job_id r" for r s
    using that by (simp add: requeueRun_def run_update_other)
  ultimately show ?thesis using reconcile_each_other [OF _ k1 _ 2] by blast
qed

theorem ReconcileRunningJobs_misses_unstarted_witness:
  "\<exists>k. k \<in> set (fst (snd (ReconcileRunningJobs (sample_reconcile (Inl (Plain ''gone''))) 100
           [sample_job ''o'' ''CREATE_RUN'' Running 5, sample_run]))) \<and>
     status k = Running \<and> updated_at k = 5"
proof -
  let ?o = "sample_job ''o'' ''CREATE_RUN'' Running 5"
  let ?env = "sample_reconcile (Inl (Plain ''gone''))"
  have inv: "store_inv [?o, sample_run]"
    by (simp add: sample_run_def sample_defs store_inv_def index_ok_def index_key_def singleton_types_def
        job_type_defs row_ok_def)
  obtain n s' ds where r: "ReconcileRunningJobs ?env 100 [?o, sample_run] = (n, s', ds)"
    by (metis prod_cases3)
  have "?o \<in> set s'"
    by (rule ReconcileRunningJobs_misses_unstarted [OF inv _ _ r]) (simp_all add: sample_defs)
  with r show ?thesis by (intro exI [of _ ?o]) (simp add: sample_defs)
qed

text \<open>C16. A runner's report of the commit it checked out is accepted exactly when the run is
  not linked to a repository, or there is a commit to store (the reported one, else the one the
  job asked for), the reported commit is the one the job asked for, up to letter case, when both
  are present, and the commit could be stored for the repository; what is accepted is the
  reported commit, else the expected one. When the reported and the expected commit of a
  repository's run differ, the WebSocket handler leaves the table as it is. A run without a
  repository has its reported commit accepted unchecked.\<close>

theorem verifyAndPersistRunCommit_sound:
  fixes p :: create_run_payload and reported :: string
  defines "observed \<equiv> trim_space reported" and "expected \<equiv> trim_space (crp_commit_sha p)"
  shows "(verifyAndPersistRunCommit upsert p reported = Inr sha \<longleftrightarrow>
      sha = (if observed \<noteq> [] then observed else expected) \<and>
      (crp_repo_id p = [] \<or>
       sha \<noteq> [] \<and> (observed = [] \<or> expected = [] \<or> to_lower observed = to_lower expected) \<and>
       upsert (crp_repo_id p) sha (crp_ref p) = None)) \<and>
    (crp_repo_id p \<noteq> [] \<and> observed \<noteq> [] \<and> expected \<noteq> [] \<and> to_lower observed \<noteq> to_lower expected \<and>
      find_job s runID = Some run \<and> payload run = Some v \<and> decode_create_run v = Some p \<longrightarrow>
      ws_commit_hash env runID reported s = s)"
  by (auto simp: verifyAndPersistRunCommit_def ws_commit_hash_def Let_def equal_fold_def observed_def
      expected_def split: if_splits option.splits)

theorem verifyAndPersistRunCommit_sound_witness:
  "verifyAndPersistRunCommit (\<lambda>_ _ _. None) (zero_payload\<lparr>crp_repo_id := ''r'', crp_commit_sha := ''ab12''\<rparr>)
     ''AB12'' = Inr ''AB12'' \<and>
   verifyAndPersistRunCommit (\<lambda>_ _ _. None) (zero_payload\<lparr>crp_repo_id := ''r'', crp_commit_sha := ''ab12''\<rparr>)
     ''cd34'' \<noteq> Inr ''cd34''"
proof -
  let ?p = "zero_payload\<lparr>crp_repo_id := ''r'', crp_commit_sha := ''ab12''\<rparr>"
  have t: "trim_space ''ab12'' = ''ab12''" "trim_space ''AB12'' = ''AB12''" "trim_space ''cd34'' = ''cd34''"
    by (simp_all add: trim_eval)
  show ?thesis
    using verifyAndPersistRunCommit_sound [of "\<lambda>_ _ _. None" ?p "''AB12''" "''AB12''"]
      verifyAndPersistRunCommit_sound [of "\<lambda>_ _ _. None" ?p "''cd34''" "''cd34''"]
    by (simp add: t lower_eval zero_payload_def)
qed

text \<open>C17. Creating the Kubernetes job of a run yields a job that was created now under the run's
  name, or an existing one of that name that carries its run id and has not failed; another
  run's job is never adopted.\<close>

theorem createK8sJob_owns_job:
  fixes runID :: string
  defines "jobName \<equiv> ''run-'' @ take 8 runID"
  assumes "createK8sJob k ns runID = Inr (name, ns')"
  shows "ns' = ns \<and>
    (kc_create k ns jobName = Inr name \<or> Inr name \<in> set (kc_recreate k ns jobName) \<or>
     (\<exists>kj. kc_get k ns jobName = Inr kj \<and> kj_name kj = name \<and> kj_run_id kj = runID \<and>
           (kj_active kj > 0 \<or> kj_succeeded kj > 0 \<or> kj_failed kj \<le> 0)))"
proof -
  have poll: "poll_recreate rs = Inr x \<Longrightarrow> Inr x \<in> set rs" for rs x
    by (induction rs rule: poll_recreate.induct) auto
  from assms(2) show ?thesis
    unfolding createK8sJob_def runJobName_def jobName_def [symmetric]
    by (auto simp: Let_def split: sum.splits k8s_err.splits if_splits option.splits dest: poll)
qed

theorem createK8sJob_owns_job_witness:
  "\<exists>kj. createK8sJob \<lparr>kc_create = (\<lambda>_ _. Inl AlreadyExists), kc_get = (\<lambda>_ _. Inr kj),
         kc_delete = (\<lambda>_ _. None), kc_recreate = (\<lambda>_ _. [])\<rparr> ''spam'' ''0123abcd-9''
       = Inr (''run-0123abcd'', ''spam'') \<and> kj_run_id kj = ''0123abcd-9''"
proof -
  let ?kj = "\<lparr>kj_name = ''run-0123abcd'', kj_run_id = ''0123abcd-9'', kj_active = 1, kj_succeeded = 0, kj_failed = 0\<rparr>"
  let ?k = "\<lparr>kc_create = (\<lambda>_ _. Inl AlreadyExists), kc_get = (\<lambda>_ _. Inr ?kj), kc_delete = (\<lambda>_ _. None),
    kc_recreate = (\<lambda>_ _. [])\<rparr>"
  have r: "createK8sJob ?k ''spam'' ''0123abcd-9'' = Inr (''run-0123abcd'', ''spam'')"
    by (simp add: createK8sJob_def)
  from createK8sJob_owns_job [OF r] r show ?thesis by (intro exI [of _ ?kj]) simp
qed

text \<open>One pair of rows blocks the bulk reschedule of failed image scans: when two
  failed scans of the same digest both qualify, the statement violates the unique index,
  the handler answers 500 and no image scan is rescheduled. Nothing in the handler's
  condition keeps both of two failed scans of one digest from qualifying.\<close>

theorem RunsRescheduleFailed_blocked:
  assumes inv: "store_inv s"
    and ab: "a \<in> set s" "b \<in> set s" "a \<noteq> b"
    and ra: "reschedulable JobTypeImageScan ''image_digest_id'' s a"
    and rb: "reschedulable JobTypeImageScan ''image_digest_id'' s b"
    and same: "json_text (payload a) ''image_digest_id'' = json_text (payload b) ''image_digest_id''"
    and none: "\<And>j. j \<in> set s \<Longrightarrow> job_type j \<noteq> JobTypeCreateRun"
  shows "RunsRescheduleFailed True now s = (500, 0, 0, s)"
proof -
  have first: "bulk_update (reschedulable JobTypeCreateRun ''repo_id'' s) (reset_run now) s = Inr (0, s)"
    using inv none
    by (subst bulk_update_def, subst update_where_id)
      (auto simp: reschedulable_def store_inv_def Let_def count_where_0_iff)
  let ?p = "reschedulable JobTypeImageScan ''image_digest_id'' s"
  obtain d where d: "json_text (payload a) ''image_digest_id'' = Some d"
    using ra by (auto simp: reschedulable_def split: option.splits)
  have key: "index_key (reset_run now j) = Some (JobTypeImageScan, [d])"
    if "?p j" "json_text (payload j) ''image_digest_id'' = Some d" for j
    using that by (auto simp: reschedulable_def index_key_def reset_run_def singleton_types_def
        job_type_defs pending_or_running_def)
  have "\<not> index_ok (update_where ?p (reset_run now) s)"
  proof
    assume ix: "index_ok (update_where ?p (reset_run now) s)"
    have "reset_run now a \<in> set (update_where ?p (reset_run now) s)"
      and "reset_run now b \<in> set (update_where ?p (reset_run now) s)"
      using ab ra rb by (auto simp: set_update_where)
    from index_ok_same_key [OF ix this] key ra rb d same
    have "reset_run now a = reset_run now b" by auto
    then have "job_id a = job_id b" by (metis job_id_run_updates(2))
    with ab inv show False by (auto simp: store_inv_def dest: distinct_map_eqD)
  qed
  then have "bulk_update ?p (reset_run now) s = Inl DuplicateKey"
    by (simp add: bulk_update_def)
  with first show ?thesis by (simp add: RunsRescheduleFailed_def Let_def)
qed

definition sample_scan :: "string \<Rightarrow> job" where
  "sample_scan i = (sample_job i ''IMAGE_SCAN'' Failed 5)
     \<lparr>payload := Some (JObj [(''image_digest_id'', JStr ''d'')]), finished_at := Some 6\<rparr>"

theorem RunsRescheduleFailed_blocked_witness:
  "RunsRescheduleFailed True 9 [sample_scan ''a'', sample_scan ''b''] =
     (500, 0, 0, [sample_scan ''a'', sample_scan ''b''])"
proof -
  let ?s = "[sample_scan ''a'', sample_scan ''b'']"
  have inv: "store_inv ?s"
    by (simp add: sample_scan_def sample_defs store_inv_def index_ok_def index_key_def
        singleton_types_def job_type_defs row_ok_def pending_or_running_def)
  show ?thesis
    by (rule RunsRescheduleFailed_blocked [OF inv, of "sample_scan ''a''" "sample_scan ''b''"])
      (auto simp: sample_scan_def sample_defs reschedulable_def job_type_defs json_text_def)
qed

end
