(* ===== verification/Worker.thy ===== *)
theory Worker
  imports Run_Lifecycle
begin

text \<open>
  The worker process (\<open>cmd/worker/main.go\<close>): the per-provider circuit breaker, the
  processing of one claimed job, the two claim loops (main pool and advisory-metadata
  pool), and one tick of the main loop.

  The semaphore of a pool is the number of its goroutines in flight. What happens to the
  table between two iterations of a claim loop (the goroutines of this worker, other
  workers, the scanners) is a function in the iteration's record.
\<close>

section \<open>The circuit breaker\<close>

text \<open>\<open>openUntil\<close> is \<open>None\<close> for Go's zero time, which is before every instant.\<close>

record providerCircuit =
  consecutiveFails :: int
  openUntil :: "go_time option"

type_synonym circuits = "string \<rightharpoonup> providerCircuit"

definition cbThreshold :: int where "cbThreshold = 5"
definition cbCooldown :: duration where "cbCooldown = 5 * minute"

definition after_open :: "go_time \<Rightarrow> providerCircuit \<Rightarrow> bool" where
  "after_open now pc = (case openUntil pc of None \<Rightarrow> True | Some t \<Rightarrow> now > t)"

definition before_open :: "go_time \<Rightarrow> providerCircuit \<Rightarrow> bool" where
  "before_open now pc = (case openUntil pc of None \<Rightarrow> False | Some t \<Rightarrow> now < t)"

definition isCircuitOpen :: "go_time \<Rightarrow> string list \<Rightarrow> circuits \<Rightarrow> bool" where
  "isCircuitOpen now keys cb =
     (let pcs = List.map_filter cb keys in
      pcs \<noteq> [] \<and> \<not> list_ex (\<lambda>pc. consecutiveFails pc < cbThreshold \<or> after_open now pc) pcs)"

definition isProviderCircuitOpen :: "go_time \<Rightarrow> string \<Rightarrow> circuits \<Rightarrow> bool" where
  "isProviderCircuitOpen now providerID cb =
     (if providerID = [] then False
      else case cb providerID of
        None \<Rightarrow> False
      | Some pc \<Rightarrow> consecutiveFails pc \<ge> cbThreshold \<and> before_open now pc)"

definition recordRunResult :: "go_time \<Rightarrow> string \<Rightarrow> bool \<Rightarrow> circuits \<Rightarrow> circuits" where
  "recordRunResult now providerID success cb =
     (if providerID = [] then cb
      else
        (let pc = (case cb providerID of
                     None \<Rightarrow> \<lparr>consecutiveFails = 0, openUntil = None\<rparr>
                   | Some pc \<Rightarrow> pc)
         in if success then cb(providerID \<mapsto> pc\<lparr>consecutiveFails := 0\<rparr>)
            else (let pc1 = pc\<lparr>consecutiveFails := consecutiveFails pc + 1\<rparr>
                  in cb(providerID \<mapsto>
                       (if consecutiveFails pc1 \<ge> cbThreshold
                        then pc1\<lparr>openUntil := Some (now + cbCooldown)\<rparr> else pc1)))))"

definition extractProviderID :: "job \<Rightarrow> string" where
  "extractProviderID j =
     (case payload j of
        None \<Rightarrow> []
      | Some v \<Rightarrow> (case decode_create_run v of None \<Rightarrow> [] | Some p \<Rightarrow> crp_provider_id p))"

section \<open>Processing a claimed job\<close>

text \<open>
  The clock when processing starts and ends, and whether the database accepts the
  individual writes that follow the handler.
\<close>

record worker_env =
  wk_proc :: proc_env
  wk_start :: go_time
  wk_end :: go_time
  wk_rollback_ok :: bool
  wk_update_ok :: bool
  wk_fallback_ok :: bool

record worker_state =
  ws_circuits :: circuits
  ws_store :: job_store

definition update_ignoring ::
    "bool \<Rightarrow> go_time \<Rightarrow> string \<Rightarrow> job_status \<Rightarrow> json option \<Rightarrow> string \<Rightarrow> go_time option
       \<Rightarrow> job_store \<Rightarrow> job_store" where
  "update_ignoring ok now i st res err next s =
     (case UpdateJobStatus ok now i st res err next s of Inl e \<Rightarrow> s | Inr (j, s') \<Rightarrow> s')"

text \<open>What an error of the handler leads to: status, retry time, attempt taken back.\<close>

definition error_outcome :: "go_time \<Rightarrow> job \<Rightarrow> go_error \<Rightarrow> job_status \<times> go_time option \<times> bool" where
  "error_outcome now j e =
     (if IsRetryableWithoutCount e then (Retry, Some (now + 10 * second), True)
      else if IsProviderUnavailable e then (Retry, Some (now + 5 * minute), True)
      else if IsNonRetryable e then (Failed, None, False)
      else if attempts j < max_attempts j
      then (Retry, Some (NextRetryTime (attempts j) (max_attempts j) now), False)
      else (Failed, None, False))"

definition finish_error :: "worker_env \<Rightarrow> job \<Rightarrow> go_error \<Rightarrow> job_store \<Rightarrow> job_store" where
  "finish_error env j e s =
     (case error_outcome (wk_end env) j e of
        (st, next, rollback) \<Rightarrow>
          (let now = wk_end env;
               s1 = (if rollback then rollback_attempt (wk_rollback_ok env) (job_id j) now s else s)
           in case UpdateJobStatus (wk_update_ok env) now (job_id j) st None (error_text e) next s1 of
                Inr (j', s2) \<Rightarrow> s2
              | Inl ue \<Rightarrow>
                  if st = Retry
                  then update_ignoring (wk_fallback_ok env) now (job_id j) Failed None (error_text e) None s1
                  else s1))"

definition processJob :: "worker_env \<Rightarrow> job \<Rightarrow> worker_state \<Rightarrow> worker_state" where
  "processJob env j st =
     (if job_type j = JobTypeCreateRun \<and>
         isProviderCircuitOpen (wk_start env) (extractProviderID j) (ws_circuits st)
      then st\<lparr>ws_store := update_ignoring (wk_update_ok env) (wk_start env) (job_id j) Retry None
                            ''circuit breaker open'' (Some (wk_start env + cbCooldown)) (ws_store st)\<rparr>
      else
        (let out = ProcessJob (wk_proc env) j (ws_store st);
             s1 = out_store out;
             cb = (if job_type j = JobTypeCreateRun
                   then recordRunResult (wk_end env) (extractProviderID j) (\<not> isl (out_result out))
                          (ws_circuits st)
                   else ws_circuits st)
         in \<lparr>ws_circuits = cb,
             ws_store =
               (case out_result out of
                  Inl e \<Rightarrow> finish_error env j e s1
                | Inr r \<Rightarrow>
                    update_ignoring (wk_update_ok env) (wk_end env) (job_id j)
                      (if job_type j = JobTypeCreateRun then Running else Succeeded)
                      (Some r) [] None s1)\<rparr>))"

section \<open>The claim loops\<close>

text \<open>
  One iteration of a claim loop: how many goroutines of the pool have finished since the
  last one, what others did to the table meanwhile, whether shutdown has begun, and the
  arguments of the claim.
\<close>

record claim_iter =
  ci_finished :: nat
  ci_others :: "job_store \<Rightarrow> job_store"
  ci_stop :: bool
  ci_ok :: bool
  ci_skip :: "string set"
  ci_now :: go_time

record 'c pool =
  pl_flight :: nat
  pl_note :: 'c
  pl_store :: job_store

text \<open>
  The loop both pools run: take a slot or stop, stop on shutdown, claim, stop on an error
  or when nothing is left, otherwise note the job and go on. \<open>claim\<close> and
  \<open>note\<close> are what the pools differ in. The jobs started come first in the result.
\<close>

fun pool_loop ::
    "('c \<Rightarrow> claim_iter \<Rightarrow> job_store \<Rightarrow> job_err + (job option \<times> job_store)) \<Rightarrow> (job \<Rightarrow> 'c \<Rightarrow> 'c)
       \<Rightarrow> nat \<Rightarrow> claim_iter list \<Rightarrow> 'c pool \<Rightarrow> job list \<times> 'c pool" where
  "pool_loop claim note conc [] p = ([], p)"
| "pool_loop claim note conc (it # its) p =
     (let p0 = p\<lparr>pl_flight := pl_flight p - ci_finished it, pl_store := ci_others it (pl_store p)\<rparr> in
      if \<not> pl_flight p0 < conc then ([], p0)
      else if ci_stop it then ([], p0)
      else (case claim (pl_note p0) it (pl_store p0) of
              Inl e \<Rightarrow> ([], p0)
            | Inr (None, s1) \<Rightarrow> ([], p0\<lparr>pl_store := s1\<rparr>)
            | Inr (Some j, s1) \<Rightarrow>
                (case pool_loop claim note conc its
                        \<lparr>pl_flight = pl_flight p0 + 1, pl_note = note j (pl_note p0), pl_store = s1\<rparr> of
                   (js, p1) \<Rightarrow> (j # js, p1))))"

definition excluded_types :: "int \<Rightarrow> int \<Rightarrow> string list" where
  "excluded_types concurrency runningRuns =
     [JobTypeImageScan, JobTypeVulnMetaFetch] @
     (if runningRuns \<ge> concurrency then [JobTypeCreateRun] else [])"

definition main_claim ::
    "int \<Rightarrow> string \<Rightarrow> int \<Rightarrow> claim_iter \<Rightarrow> job_store \<Rightarrow> job_err + (job option \<times> job_store)" where
  "main_claim concurrency worker runningRuns it s =
     ClaimNextJob (ci_ok it) (ci_skip it) worker (ci_now it) (excluded_types concurrency runningRuns) s"

definition count_run :: "job \<Rightarrow> int \<Rightarrow> int" where
  "count_run j runningRuns = (if job_type j = JobTypeCreateRun then runningRuns + 1 else runningRuns)"

definition vuln_claim ::
    "string \<Rightarrow> unit \<Rightarrow> claim_iter \<Rightarrow> job_store \<Rightarrow> job_err + (job option \<times> job_store)" where
  "vuln_claim worker u it s =
     ClaimNextJobOfType (ci_ok it) (ci_skip it) worker (ci_now it) JobTypeVulnMetaFetch s"

text \<open>The body of a tick of \<open>runVulnMetaPool\<close>.\<close>

definition runVulnMetaPool ::
    "nat \<Rightarrow> string \<Rightarrow> claim_iter list \<Rightarrow> unit pool \<Rightarrow> job list \<times> unit pool" where
  "runVulnMetaPool concurrency worker its p = pool_loop (vuln_claim worker) (\<lambda>_ u. u) concurrency its p"

section \<open>A tick of the main loop\<close>

definition syncJobStaleTimeout :: duration where "syncJobStaleTimeout = 45 * second"

text \<open>
  \<open>tk_reconcile\<close> is \<open>None\<close> without a runner; a failed count takes the pool to be
  at its limit. The provider poll runs beside the tick and writes through its own steps.
\<close>

record tick_env =
  tk_now :: go_time
  tk_requeue_ok :: bool
  tk_requeue_skip :: "string set"
  tk_stale :: duration
  tk_reconcile :: "reconcile_env option"
  tk_count_ok :: bool
  tk_iters :: "claim_iter list"

definition tick_maintenance :: "tick_env \<Rightarrow> job_store \<Rightarrow> job_store" where
  "tick_maintenance env s =
     (let now = tk_now env;
          s1 = (case RequeueStaleJobs (tk_requeue_ok env) (tk_requeue_skip env)
                       (now - syncJobStaleTimeout) (now - tk_stale env) now s of
                  Inl e \<Rightarrow> s
                | Inr (n, s') \<Rightarrow> s')
      in case tk_reconcile env of
           None \<Rightarrow> s1
         | Some re \<Rightarrow> (case ReconcileRunningJobs re (2 * minute) s1 of (n, s', ds) \<Rightarrow> s'))"

definition running_runs :: "nat \<Rightarrow> tick_env \<Rightarrow> job_store \<Rightarrow> int" where
  "running_runs concurrency env s =
     (if tk_count_ok env then CountRunningByType JobTypeCreateRun s else int concurrency)"

definition main_tick ::
    "nat \<Rightarrow> string \<Rightarrow> tick_env \<Rightarrow> nat \<Rightarrow> job_store \<Rightarrow> job list \<times> int pool" where
  "main_tick concurrency worker env flight s =
     (let s2 = tick_maintenance env s in
      pool_loop (main_claim (int concurrency) worker) count_run concurrency (tk_iters env)
        \<lparr>pl_flight = flight, pl_note = running_runs concurrency env s2, pl_store = s2\<rparr>)"

section \<open>What a claim loop relies on\<close>

lemma pool_loop_step:
  assumes "pool_loop claim noted conc (it # its) p = (js, p')"
  obtains (stop) "js = []" "pl_flight p' = pl_flight p - ci_finished it" "pl_note p' = pl_note p"
      "pl_store p' = ci_others it (pl_store p) \<or>
       claim (pl_note p) it (ci_others it (pl_store p)) = Inr (None, pl_store p')"
  | (start) j js' s1 where "js = j # js'" "pl_flight p - ci_finished it < conc"
      "claim (pl_note p) it (ci_others it (pl_store p)) = Inr (Some j, s1)"
      "pool_loop claim noted conc its
         \<lparr>pl_flight = pl_flight p - ci_finished it + 1, pl_note = noted j (pl_note p), pl_store = s1\<rparr>
       = (js', p')"
  using assms by (auto simp: Let_def split: if_splits sum.splits prod.splits option.splits)

text \<open>
  The contract of a claim: it keeps the table's invariant, a job it returns is a due row
  the pool wants, now running for the worker, and it returns none only when no such row
  is left.
\<close>

locale claim_source =
  fixes claim :: "'c \<Rightarrow> claim_iter \<Rightarrow> job_store \<Rightarrow> job_err + (job option \<times> job_store)"
    and noted :: "job \<Rightarrow> 'c \<Rightarrow> 'c"
    and wants :: "'c \<Rightarrow> job \<Rightarrow> bool"
    and worker :: string
  assumes claim_inv: "store_inv s \<Longrightarrow> claim c it s = Inr (r, s') \<Longrightarrow> store_inv s'"
    and claim_some: "store_inv s \<Longrightarrow> claim c it s = Inr (Some j, s') \<Longrightarrow>
      \<exists>k \<in> set s. due (ci_skip it) (ci_now it) k \<and> wants c k \<and> j = claim_updates worker (ci_now it) k"
    and claim_none: "store_inv s \<Longrightarrow> claim c it s = Inr (None, s') \<Longrightarrow>
      s' = s \<and> (\<forall>k \<in> set s. \<not> (due (ci_skip it) (ci_now it) k \<and> wants c k))"
begin

lemma loop_slots:
  "pl_flight p \<le> conc \<Longrightarrow> pool_loop claim noted conc its p = (js, p') \<Longrightarrow> pl_flight p' \<le> conc"
proof (induction its arbitrary: p js p')
  case (Cons it its)
  from Cons.prems(2) show ?case
  proof (cases rule: pool_loop_step)
    case stop
    with Cons.prems(1) show ?thesis by simp
  next
    case (start j js' s1)
    from start(2) show ?thesis by (intro Cons.IH [OF _ start(4)]) simp
  qed
qed simp

lemma loop_inv:
  assumes "store_inv (pl_store p)" and "pool_loop claim noted conc its p = (js, p')"
    and "\<And>it s. it \<in> set its \<Longrightarrow> store_inv s \<Longrightarrow> store_inv (ci_others it s)"
  shows "store_inv (pl_store p')"
  using assms
proof (induction its arbitrary: p js p')
  case (Cons it its)
  have inv0: "store_inv (ci_others it (pl_store p))" using Cons.prems by simp
  from Cons.prems(2) show ?case
  proof (cases rule: pool_loop_step)
    case stop
    with inv0 show ?thesis by (auto dest: claim_inv)
  next
    case (start j js' s1)
    from claim_inv [OF inv0 start(3)] Cons.prems(3) show ?thesis
      by (intro Cons.IH [OF _ start(4)]) simp_all
  qed
qed simp

lemma loop_jobs:
  assumes "store_inv (pl_store p)" and "pool_loop claim noted conc its p = (js, p')"
    and "\<And>it s. it \<in> set its \<Longrightarrow> store_inv s \<Longrightarrow> store_inv (ci_others it s)"
  shows "j \<in> set js \<Longrightarrow> \<exists>it \<in> set its. \<exists>c k. j = claim_updates worker (ci_now it) k \<and>
           due (ci_skip it) (ci_now it) k \<and> wants c k"
  using assms
proof (induction its arbitrary: p js p')
  case (Cons it its)
  have inv0: "store_inv (ci_others it (pl_store p))" using Cons.prems by simp
  from Cons.prems(3) show ?case
  proof (cases rule: pool_loop_step)
    case stop
    with Cons.prems(1) show ?thesis by simp
  next
    case (start j' js' s1)
    have inv1: "store_inv s1" by (rule claim_inv [OF inv0 start(3)])
    show ?thesis
    proof (cases "j = j'")
      case True
      with claim_some [OF inv0 start(3)] show ?thesis by auto
    next
      case False
      with Cons.prems(1) start(1) have "j \<in> set js'" by simp
      from Cons.IH [OF this _ start(4)] inv1 Cons.prems(4) show ?thesis by simp
    qed
  qed
qed simp

text \<open>A loop that stops with a free slot, no shutdown and no database error has left no due
  row it wanted.\<close>

lemma loop_exhausts:
  assumes "store_inv (pl_store p)" and "pool_loop claim noted conc its p = (js, p')"
    and "\<And>it s. it \<in> set its \<Longrightarrow> store_inv s \<Longrightarrow> store_inv (ci_others it s)"
    and "\<And>it c s. it \<in> set its \<Longrightarrow> \<not> ci_stop it \<and> (\<exists>r. claim c it s = Inr r)"
    and "pl_flight p' < conc" and "length js < length its"
  shows "\<exists>it \<in> set its. \<forall>k \<in> set (pl_store p'). \<not> (due (ci_skip it) (ci_now it) k \<and> wants (pl_note p') k)"
  using assms
proof (induction its arbitrary: p js p')
  case (Cons it its)
  have inv0: "store_inv (ci_others it (pl_store p))" using Cons.prems by simp
  show ?case
    using Cons.prems(2)
  proof (cases rule: pool_loop_step)
    case stop
    from Cons.prems(4) [of it "pl_note p" "ci_others it (pl_store p)"] obtain r where
      "\<not> ci_stop it" "claim (pl_note p) it (ci_others it (pl_store p)) = Inr r" by auto
    with stop(1,2) Cons.prems(2,5)
    have "claim (pl_note p) it (ci_others it (pl_store p)) = Inr (None, pl_store p')"
      by (auto simp: Let_def split: option.splits prod.splits)
    with claim_none [OF inv0 this] stop(3) show ?thesis by auto
  next
    case (start j js' s1)
    have inv1: "store_inv s1" by (rule claim_inv [OF inv0 start(3)])
    have "\<exists>it \<in> set its. \<forall>k \<in> set (pl_store p').
        \<not> (due (ci_skip it) (ci_now it) k \<and> wants (pl_note p') k)"
      using inv1 Cons.prems start(1) by (intro Cons.IH [OF _ start(4)]) simp_all
    then show ?thesis by auto
  qed
qed simp

end

lemma claim_first_some:
  assumes "store_inv s" and "\<And>j. p j \<Longrightarrow> pending (status j)"
    and "claim_first ok w now p s = Inr (Some j, s')"
  shows "\<exists>k \<in> set s. p k \<and> j = claim_updates w now k"
proof -
  from assms(3) have "ok = True" by (cases ok) (auto simp: claim_first_def)
  with claim_first_cases [OF assms(1,2), of p w now] assms(3) show ?thesis by auto
qed

lemma claim_first_none:
  assumes "claim_first ok w now p s = Inr (None, s')"
  shows "s' = s \<and> (\<forall>k \<in> set s. \<not> p k)"
  using assms
  by (auto simp: claim_first_def filter_empty_conv split: if_splits option.splits sum.splits)

interpretation main_pool: claim_source "main_claim conc w" count_run
  "\<lambda>runningRuns j. job_type j \<notin> set (excluded_types conc runningRuns)" w for conc w
proof unfold_locales
  fix s c it r s'
  assume "store_inv s" "main_claim conc w c it s = Inr (r, s')"
  then show "store_inv s'" by (auto simp: main_claim_def ClaimNextJob_def intro: claim_first_inv)
next
  fix s c it j s'
  assume "store_inv s" "main_claim conc w c it s = Inr (Some j, s')"
  then show "\<exists>k \<in> set s. due (ci_skip it) (ci_now it) k \<and> job_type k \<notin> set (excluded_types conc c) \<and>
      j = claim_updates w (ci_now it) k"
    unfolding main_claim_def ClaimNextJob_def
    by (drule_tac claim_first_some [rotated 2]) (auto simp: due_def excluded_types_def)
next
  fix s c it s'
  assume "main_claim conc w c it s = Inr (None, s')"
  then show "s' = s \<and> (\<forall>k \<in> set s. \<not> (due (ci_skip it) (ci_now it) k \<and>
      job_type k \<notin> set (excluded_types conc c)))"
    unfolding main_claim_def ClaimNextJob_def by (auto dest!: claim_first_none)
qed

interpretation vuln_pool: claim_source "vuln_claim w" "\<lambda>_ u. u"
  "\<lambda>_ j. job_type j = JobTypeVulnMetaFetch" w for w
proof unfold_locales
  fix s c it r s'
  assume "store_inv s" "vuln_claim w c it s = Inr (r, s')"
  then show "store_inv s'" by (auto simp: vuln_claim_def intro: ClaimNextJobOfType_inv)
next
  fix s c it j s'
  assume "store_inv s" "vuln_claim w c it s = Inr (Some j, s')"
  then show "\<exists>k \<in> set s. due (ci_skip it) (ci_now it) k \<and> job_type k = JobTypeVulnMetaFetch \<and>
      j = claim_updates w (ci_now it) k"
    unfolding vuln_claim_def ClaimNextJobOfType_def
    by (drule_tac claim_first_some [rotated 2]) (auto simp: due_def)
next
  fix s c it s'
  assume "vuln_claim w c it s = Inr (None, s')"
  then show "s' = s \<and> (\<forall>k \<in> set s. \<not> (due (ci_skip it) (ci_now it) k \<and>
      job_type k = JobTypeVulnMetaFetch))"
    unfolding vuln_claim_def ClaimNextJobOfType_def by (auto dest!: claim_first_none)
qed

section \<open>Settling a failed job\<close>

lemma index_key_terminal: "st = Succeeded \<or> st = Failed \<Longrightarrow>
    index_key (status_updates now st res err next j) = None"
  by (auto simp: index_key_def status_updates_def Let_def pending_or_running_def)

lemma find_job_id: "distinct (map job_id s) \<Longrightarrow> k \<in> set s \<Longrightarrow> find_job s (job_id k) = Some k"
  unfolding find_job_def by (induction s) (auto simp: image_iff)

lemma UpdateJobStatus_row:
  assumes "store_inv s" and "k \<in> set s"
    and "UpdateJobStatus ok now (job_id k) st res err next s = Inr (j', s')"
  shows "s' = map (\<lambda>j. if j = k then status_updates now st res err next j else j) s"
  using assms
  by (auto simp: UpdateJobStatus_def db_update_def Let_def set_job_eq store_inv_def
      split: if_splits option.splits sum.splits)

lemma UpdateJobStatus_terminal:
  assumes inv: "store_inv s" and k: "k \<in> set s" and st: "st = Succeeded \<or> st = Failed"
  shows "UpdateJobStatus True now (job_id k) st res err next s =
    Inr (status_updates now st res err next k,
         map (\<lambda>j. if j = k then status_updates now st res err next j else j) s)"
proof -
  have ids: "distinct (map job_id s)" and ix: "index_ok s" using inv by (auto simp: store_inv_def)
  have "index_ok (set_job (job_id k) (status_updates now st res err next) s)"
    unfolding set_job_def
    by (rule index_ok_shrink [OF ix]) (use st in \<open>simp add: index_key_terminal\<close>)
  with ids k show ?thesis
    by (simp add: UpdateJobStatus_def find_job_id db_update_def set_job_eq)
qed

lemma rollback_row:
  assumes "store_inv s" and "k \<in> set s"
  shows "\<exists>k1. rollback_attempt ok (job_id k) now s = map (\<lambda>j. if j = k then k1 else j) s \<and>
    job_id k1 = job_id k \<and> k1 \<in> set (rollback_attempt ok (job_id k) now s)"
proof (cases ok)
  case True
  let ?k1 = "k\<lparr>attempts := max (attempts k - 1) 0, updated_at := now\<rparr>"
  have "rollback_attempt ok (job_id k) now s = map (\<lambda>j. if j = k then ?k1 else j) s"
    using assms True by (auto simp: rollback_attempt_def set_job_eq store_inv_def)
  with assms(2) show ?thesis by (intro exI [of _ ?k1]) force
next
  case False
  with assms show ?thesis by (intro exI [of _ k]) (auto simp: rollback_attempt_def)
qed

lemma update_ignoring_inv [inv_intros]:
  "store_inv s \<Longrightarrow> store_inv (update_ignoring ok now i st res err next s)"
  by (auto simp: update_ignoring_def split: sum.split intro: UpdateJobStatus_inv)

lemma finish_error_inv [inv_intros]: "store_inv s \<Longrightarrow> store_inv (finish_error env j e s)"
  by (auto simp: finish_error_def Let_def split: prod.split sum.split
      intro: UpdateJobStatus_inv update_ignoring_inv rollback_attempt_inv)

lemma processJob_inv:
  assumes "store_inv (ws_store st)"
    and "\<And>ex. env_executor (wk_proc env) = Some ex \<Longrightarrow> execute_run ex = ExecuteRun ee"
  shows "store_inv (ws_store (processJob env j st))"
proof -
  have "store_inv (out_store (ProcessJob (wk_proc env) j (ws_store st)))"
    by (rule runner.ProcessJob_inv [OF assms(1)]) (rule assms(2))
  with assms(1) show ?thesis
    by (simp add: processJob_def Let_def inv_intros split: sum.split)
qed

lemma status_status_updates [simp]: "status (status_updates now st res err next j) = st"
  by (simp add: status_updates_def Let_def)

text \<open>The rows a settling write leaves: one row replaced, its id kept.\<close>

lemma update_row_in:
  "k \<in> set s \<Longrightarrow> f k \<in> set (map (\<lambda>j. if j = k then f j else j) s)"
  by force

lemma finish_error_settled:
  assumes inv: "store_inv s" and k: "k \<in> set s" and j: "job_id j = job_id k"
    and ok: "wk_update_ok env" "wk_fallback_ok env"
  shows "\<exists>k' \<in> set (finish_error env j e s). job_id k' = job_id k \<and>
    (status k' = Failed \<or> status k' = Retry \<and> fst (error_outcome (wk_end env) j e) = Retry)"
proof -
  obtain st nx rb where eo: "error_outcome (wk_end env) j e = (st, nx, rb)" by (metis prod_cases3)
  have st: "st = Retry \<or> st = Failed"
    using eo by (auto simp: error_outcome_def split: if_splits)
  let ?s1 = "if rb then rollback_attempt (wk_rollback_ok env) (job_id j) (wk_end env) s else s"
  have inv1: "store_inv ?s1" using inv by (simp add: rollback_attempt_inv)
  obtain k1 where k1: "k1 \<in> set ?s1" "job_id k1 = job_id k"
    using rollback_row [OF inv k, of "wk_rollback_ok env" "wk_end env"] k j by (cases rb) auto
  have fin: "finish_error env j e s =
      (case UpdateJobStatus True (wk_end env) (job_id k1) st None (error_text e) nx ?s1 of
         Inr (j', s2) \<Rightarrow> s2
       | Inl ue \<Rightarrow> if st = Retry
           then update_ignoring True (wk_end env) (job_id k1) Failed None (error_text e) None ?s1
           else ?s1)"
    using ok j k1(2) by (simp add: finish_error_def eo Let_def split: sum.split)
  show ?thesis
  proof (cases "UpdateJobStatus True (wk_end env) (job_id k1) st None (error_text e) nx ?s1")
    case (Inr x)
    obtain j' s2 where x: "x = (j', s2)" by (cases x)
    from UpdateJobStatus_row [OF inv1 k1(1)] Inr x
    have "finish_error env j e s =
        map (\<lambda>j. if j = k1 then status_updates (wk_end env) st None (error_text e) nx j else j) ?s1"
      by (simp add: fin)
    with update_row_in [OF k1(1)] k1(2) st eo show ?thesis
      by (intro bexI [of _ "status_updates (wk_end env) st None (error_text e) nx k1"]) auto
  next
    case (Inl ue)
    with UpdateJobStatus_terminal [OF inv1 k1(1)] have "st \<noteq> Failed" by auto
    with st Inl UpdateJobStatus_terminal [OF inv1 k1(1), of Failed]
    have "finish_error env j e s =
        map (\<lambda>j. if j = k1 then status_updates (wk_end env) Failed None (error_text e) None j else j) ?s1"
      by (simp add: fin update_ignoring_def)
    with update_row_in [OF k1(1)] k1(2) show ?thesis
      by (intro bexI [of _ "status_updates (wk_end env) Failed None (error_text e) None k1"]) auto
  qed
qed

section \<open>The main pool's limits\<close>

lemma tick_maintenance_inv:
  assumes "store_inv s"
  shows "store_inv (tick_maintenance env s)"
proof -
  define s1 where "s1 = (case RequeueStaleJobs (tk_requeue_ok env) (tk_requeue_skip env)
      (tk_now env - syncJobStaleTimeout) (tk_now env - tk_stale env) (tk_now env) s of
      Inl e \<Rightarrow> s | Inr (n, s') \<Rightarrow> s')"
  have "store_inv s1"
    using assms queue_step_inv [OF queue_step.requeue]
    by (auto simp: s1_def split: sum.split)
  then show ?thesis
    by (auto simp: tick_maintenance_def Let_def s1_def [symmetric] split: option.split prod.split
        intro: ReconcileRunningJobs_inv)
qed

lemma main_loop_runs:
  assumes "store_inv (pl_store p)" and "pool_loop (main_claim conc w) count_run n its p = (js, p')"
    and "\<And>it s. it \<in> set its \<Longrightarrow> store_inv s \<Longrightarrow> store_inv (ci_others it s)"
  shows "pl_note p + int (count_where (\<lambda>j. job_type j = JobTypeCreateRun) js) \<le> max (pl_note p) conc"
  using assms
proof (induction its arbitrary: p js p')
  case (Cons it its)
  have inv0: "store_inv (ci_others it (pl_store p))" using Cons.prems by simp
  from Cons.prems(2) show ?case
  proof (cases rule: pool_loop_step)
    case (start j js' s1)
    have inv1: "store_inv s1" by (rule main_pool.claim_inv [OF inv0 start(3)])
    from main_pool.claim_some [OF inv0 start(3)]
    have ty: "job_type j \<notin> set (excluded_types conc (pl_note p))" by (auto simp: claim_updates_def)
    have "count_run j (pl_note p) + int (count_where (\<lambda>j. job_type j = JobTypeCreateRun) js') \<le>
        max (count_run j (pl_note p)) conc"
      using Cons.IH [OF _ start(4)] inv1 Cons.prems(3) by simp
    with ty start(1) show ?thesis
      by (auto simp: count_run_def excluded_types_def split: if_splits)
  qed simp
qed simp

section \<open>The breaker's history\<close>

text \<open>Results of runs, oldest first: when, for which provider, whether it started.\<close>

definition record_results :: "(go_time \<times> string \<times> bool) list \<Rightarrow> circuits \<Rightarrow> circuits" where
  "record_results rs cb = fold (\<lambda>(t, pid, success). recordRunResult t pid success) rs cb"

definition results_of :: "string \<Rightarrow> (go_time \<times> string \<times> bool) list \<Rightarrow> (go_time \<times> bool) list" where
  "results_of pid rs = map (\<lambda>(t, p, ok). (t, ok)) (filter (\<lambda>(t, p, ok). p = pid) rs)"

definition trailing_failures :: "(go_time \<times> bool) list \<Rightarrow> nat" where
  "trailing_failures rs = length (takeWhile (\<lambda>(t, ok). \<not> ok) (rev rs))"

lemma trailing_Nil [simp]: "trailing_failures [] = 0"
  by (simp add: trailing_failures_def)

lemma trailing_snoc [simp]:
  "trailing_failures (rs @ [(t, ok)]) = (if ok then 0 else trailing_failures rs + 1)"
  by (simp add: trailing_failures_def)

lemma results_of_snoc [simp]:
  "results_of pid (rs @ [(t, p, ok)]) = results_of pid rs @ (if p = pid then [(t, ok)] else [])"
  by (simp add: results_of_def)

lemma record_results_snoc [simp]:
  "record_results (rs @ [(t, p, ok)]) cb = recordRunResult t p ok (record_results rs cb)"
  by (simp add: record_results_def)

lemma record_results_state:
  assumes "pid \<noteq> []"
  shows "case record_results rs Map.empty pid of
      None \<Rightarrow> results_of pid rs = []
    | Some pc \<Rightarrow> consecutiveFails pc = int (trailing_failures (results_of pid rs)) \<and>
        (trailing_failures (results_of pid rs) \<ge> 5 \<longrightarrow>
           openUntil pc = Some (fst (last (results_of pid rs)) + cbCooldown))"
proof (induction rs rule: rev_induct)
  case Nil
  then show ?case by (simp add: record_results_def results_of_def)
next
  case (snoc r rs)
  obtain t p ok where r: "r = (t, p, ok)" by (cases r)
  show ?case
  proof (cases "p = pid")
    case False
    with r have "record_results (rs @ [r]) Map.empty pid = record_results rs Map.empty pid"
      and "results_of pid (rs @ [r]) = results_of pid rs"
      by (auto simp: recordRunResult_def Let_def)
    with snoc show ?thesis by (simp only:)
  next
    case True
    have t0: "trailing_failures [(t, ok)] = (if ok then 0 else 1)" for t ok
      by (simp add: trailing_failures_def)
    show ?thesis
      using snoc r True assms
      by (cases "record_results rs Map.empty pid"; cases ok)
        (auto simp: recordRunResult_def Let_def cbThreshold_def t0)
  qed
qed

section \<open>Properties\<close>

text \<open>C18. Whatever the order of results of all providers, a provider's circuit is open
  exactly when its last five results or more were all failures and less than five minutes
  have passed since the last of them.\<close>

theorem isProviderCircuitOpen_iff:
  assumes "pid \<noteq> []"
  shows "isProviderCircuitOpen now pid (record_results rs Map.empty) \<longleftrightarrow>
    trailing_failures (results_of pid rs) \<ge> 5 \<and> now < fst (last (results_of pid rs)) + 5 * minute"
  using record_results_state [OF assms, of rs] assms
  by (auto simp: isProviderCircuitOpen_def before_open_def cbThreshold_def cbCooldown_def
      split: option.splits)

theorem isProviderCircuitOpen_iff_witness:
  "isProviderCircuitOpen 10 ''gh'' (record_results
     [(1, ''gh'', False), (2, ''gh'', False), (3, ''gl'', True), (4, ''gh'', False), (5, ''gh'', False),
      (6, ''gh'', False)] Map.empty)"
  using isProviderCircuitOpen_iff [of "''gh''" 10 "[(1, ''gh'', False), (2, ''gh'', False), (3, ''gl'', True),
      (4, ''gh'', False), (5, ''gh'', False), (6, ''gh'', False)]"]
  by (simp add: results_of_def trailing_failures_def duration_defs)

text \<open>C6. A tick of the main loop never has more jobs in flight than the configured
  concurrency, keeps the table's invariant if what runs beside it does, starts no image
  scan and no advisory fetch, starts only jobs it has marked running for itself, and starts
  no more runs than the limit leaves beside the ones already running.\<close>

theorem main_tick_limits:
  assumes inv: "store_inv s" and flight: "flight \<le> conc"
    and others: "\<And>it s. it \<in> set (tk_iters env) \<Longrightarrow> store_inv s \<Longrightarrow> store_inv (ci_others it s)"
    and tick: "main_tick conc w env flight s = (js, p)"
  shows "pl_flight p \<le> conc \<and> store_inv (pl_store p) \<and>
    (\<forall>j \<in> set js. job_type j \<noteq> JobTypeImageScan \<and> job_type j \<noteq> JobTypeVulnMetaFetch \<and>
       status j = Running \<and> locked_by j = w) \<and>
    int (count_where (\<lambda>j. job_type j = JobTypeCreateRun) js) \<le>
      max 0 (int conc - running_runs conc env (tick_maintenance env s))"
proof -
  let ?s2 = "tick_maintenance env s"
  let ?p = "\<lparr>pl_flight = flight, pl_note = running_runs conc env ?s2, pl_store = ?s2\<rparr>"
  have loop: "pool_loop (main_claim (int conc) w) count_run conc (tk_iters env) ?p = (js, p)"
    using tick by (simp add: main_tick_def Let_def)
  have inv2: "store_inv (pl_store ?p)" using inv by (simp add: tick_maintenance_inv)
  have "job_type j \<noteq> JobTypeImageScan \<and> job_type j \<noteq> JobTypeVulnMetaFetch \<and> status j = Running \<and>
      locked_by j = w" if "j \<in> set js" for j
    using main_pool.loop_jobs [OF inv2 loop others that] by (auto simp: claim_updates_def excluded_types_def)
  moreover have "pl_flight p \<le> conc"
    using main_pool.loop_slots [OF _ loop] flight by simp
  moreover have "store_inv (pl_store p)" by (rule main_pool.loop_inv [OF inv2 loop others])
  moreover have "int (count_where (\<lambda>j. job_type j = JobTypeCreateRun) js) \<le>
      max 0 (int conc - running_runs conc env ?s2)"
    using main_loop_runs [OF inv2 loop others] by simp
  ultimately show ?thesis by blast
qed

definition sample_iter :: "go_time \<Rightarrow> claim_iter" where
  "sample_iter t = \<lparr>ci_finished = 0, ci_others = (\<lambda>s. s), ci_stop = False, ci_ok = True,
     ci_skip = {}, ci_now = t\<rparr>"

definition sample_tick :: tick_env where
  "sample_tick = \<lparr>tk_now = 100, tk_requeue_ok = True, tk_requeue_skip = {}, tk_stale = minute,
     tk_reconcile = None, tk_count_ok = True, tk_iters = [sample_iter 100, sample_iter 100]\<rparr>"

theorem main_tick_limits_witness:
  "\<exists>js p. main_tick 1 ''w'' sample_tick 0 [sample_job ''a'' ''CREATE_RUN'' Queued 5,
     sample_job ''b'' ''IMAGE_SCAN'' Queued 1] = (js, p) \<and> pl_flight p \<le> 1 \<and> store_inv (pl_store p)"
proof -
  let ?s = "[sample_job ''a'' ''CREATE_RUN'' Queued 5, sample_job ''b'' ''IMAGE_SCAN'' Queued 1]"
  have inv: "store_inv ?s"
    by (simp add: store_inv_def index_ok_def row_ok_def sample_defs index_key_def singleton_types_def
        job_type_defs json_text_def nullif_empty_def)
  obtain js p where r: "main_tick 1 ''w'' sample_tick 0 ?s = (js, p)" by (cases "main_tick 1 ''w'' sample_tick 0 ?s")
  have "store_inv (ci_others it s)" if "it \<in> set (tk_iters sample_tick)" "store_inv s" for it s
    using that by (auto simp: sample_tick_def sample_iter_def)
  from main_tick_limits [OF inv _ this r] r show ?thesis by auto
qed

text \<open>C7. A job whose handler returned an error never stays running while the database
  accepts writes: its row ends up waiting for a retry or failed, and it is failed when the
  error is non-retryable or the attempts are used up, unless the error is one that does not
  count as an attempt.\<close>

theorem processJob_error_settles:
  assumes inv: "store_inv (out_store (ProcessJob (wk_proc env) j (ws_store st)))"
    and err: "out_result (ProcessJob (wk_proc env) j (ws_store st)) = Inl e"
    and k: "k \<in> set (out_store (ProcessJob (wk_proc env) j (ws_store st)))" "job_id k = job_id j"
    and closed: "\<not> (job_type j = JobTypeCreateRun \<and>
      isProviderCircuitOpen (wk_start env) (extractProviderID j) (ws_circuits st))"
    and ok: "wk_update_ok env" "wk_fallback_ok env"
  shows "\<exists>k' \<in> set (ws_store (processJob env j st)). job_id k' = job_id j \<and>
    (status k' = Retry \<or> status k' = Failed) \<and>
    (\<not> IsRetryableWithoutCount e \<and> \<not> IsProviderUnavailable e \<and>
       (IsNonRetryable e \<or> attempts j \<ge> max_attempts j) \<longrightarrow> status k' = Failed)"
proof -
  have eq: "ws_store (processJob env j st) =
      finish_error env j e (out_store (ProcessJob (wk_proc env) j (ws_store st)))"
    using closed err by (auto simp: processJob_def Let_def)
  from finish_error_settled [OF inv k(1) k(2) [symmetric] ok, of e] obtain k' where
    k': "k' \<in> set (ws_store (processJob env j st))" "job_id k' = job_id j"
    "status k' = Failed \<or> status k' = Retry \<and> fst (error_outcome (wk_end env) j e) = Retry"
    unfolding eq k(2) by blast
  then show ?thesis by (intro bexI [of _ k']) (auto simp: error_outcome_def split: if_splits)
qed

definition sample_proc :: proc_env where
  "sample_proc =
     \<lparr>env_ok = True, env_now = 9, env_uuid = ''u'', env_uuids = [], env_at5 = (\<lambda>t. t),
      env_executor = None, env_cronjob = [], env_osv = ([], Inr JNull), env_enrich = (\<lambda>_. Enriched),
      env_kev = Inl (Plain ''down''), env_epss = ([], Inr 0), env_resolvers = 0,
      env_dep_health = ([], Inr (0, 0, 0)), env_tables = (\<lambda>_ _. None), env_exec = (\<lambda>_. Inl (Plain ''x'')),
      env_backfill = (\<lambda>_. ([], Inr (0, 0))), env_probe = (\<lambda>_. ([], Inr JNull)),
      env_component_vulns = [], env_image_vulns = [], env_have_meta = {}\<rparr>"

definition sample_worker :: worker_env where
  "sample_worker =
     \<lparr>wk_proc = sample_proc, wk_start = 9, wk_end = 10, wk_rollback_ok = True, wk_update_ok = True,
      wk_fallback_ok = True\<rparr>"

theorem processJob_error_settles_witness:
  "\<exists>k' \<in> set (ws_store (processJob sample_worker (sample_job ''a'' ''FETCH_KEV'' Running 5)
       \<lparr>ws_circuits = Map.empty, ws_store = [sample_job ''a'' ''FETCH_KEV'' Running 5]\<rparr>)).
     status k' = Retry \<or> status k' = Failed"
proof -
  let ?j = "sample_job ''a'' ''FETCH_KEV'' Running 5"
  let ?st = "\<lparr>ws_circuits = Map.empty, ws_store = [?j]\<rparr>"
  have out: "ProcessJob (wk_proc sample_worker) ?j [?j] = proc_output (Inl (Plain ''down'')) [?j]"
    by (simp add: ProcessJob_def sample_defs job_type_defs processFetchKEV_def sample_worker_def
        sample_proc_def)
  have inv: "store_inv [?j]"
    by (simp add: store_inv_def index_ok_def row_ok_def sample_defs split: option.split)
  have "\<exists>k' \<in> set (ws_store (processJob sample_worker ?j ?st)). job_id k' = job_id ?j \<and>
      (status k' = Retry \<or> status k' = Failed) \<and>
      (\<not> IsRetryableWithoutCount (Plain ''down'') \<and> \<not> IsProviderUnavailable (Plain ''down'') \<and>
         (IsNonRetryable (Plain ''down'') \<or> attempts ?j \<ge> max_attempts ?j) \<longrightarrow> status k' = Failed)"
    by (rule processJob_error_settles [where k = ?j])
      (simp_all add: out proc_output_def inv, simp_all add: sample_defs job_type_defs sample_worker_def)
  then show ?thesis by blast
qed

text \<open>C19. Deferring a run because its provider's circuit is open costs the run an attempt:
  the claim has counted one, no handler ran, and nothing takes it back, although the
  branch for a provider that is down does. A run deferred as often as it may be tried
  fails for good on its first real error.\<close>

theorem circuit_deferral_uses_attempt:
  assumes inv: "store_inv s" and k: "k \<in> set s" and j: "j = claim_updates w t k"
    and claimed: "ws_store st = map (\<lambda>x. if x = k then j else x) s"
    and run: "job_type j = JobTypeCreateRun"
    and opened: "isProviderCircuitOpen (wk_start env) (extractProviderID j) (ws_circuits st)"
    and written: "UpdateJobStatus (wk_update_ok env) (wk_start env) (job_id j) Retry None
        ''circuit breaker open'' (Some (wk_start env + cbCooldown)) (ws_store st) = Inr (j', s')"
  shows "\<exists>k' \<in> set (ws_store (processJob env j st)). job_id k' = job_id k \<and> status k' = Retry \<and>
    attempts k' = attempts k + 1 \<and>
    (attempts k' \<ge> max_attempts k' \<longrightarrow> fst (error_outcome now (claim_updates w' t' k') (Plain m)) = Failed)"
proof -
  have ids: "distinct (map job_id (ws_store st))"
  proof -
    have "map job_id (ws_store st) = map job_id s" by (auto simp: claimed j)
    with inv show ?thesis by (simp add: store_inv_def)
  qed
  have jin: "j \<in> set (ws_store st)" using claimed k by force
  let ?k' = "status_updates (wk_start env) Retry None ''circuit breaker open''
      (Some (wk_start env + cbCooldown)) j"
  have "ws_store (processJob env j st) = s'"
    using run opened written by (simp add: processJob_def update_ignoring_def)
  moreover have "?k' \<in> set s'"
    using written jin ids
    by (auto simp: UpdateJobStatus_def db_update_def set_job_def set_update_where Let_def
        split: if_splits option.splits sum.splits)
  ultimately show ?thesis
    using j
    by (intro bexI [of _ ?k'])
      (auto simp: status_updates_def claim_updates_def error_outcome_def Let_def)
qed

definition sample_provider_run :: job where
  "sample_provider_run = (sample_job ''r'' ''CREATE_RUN'' Queued 5)
     \<lparr>payload := Some (JObj [(''provider_id'', JStr ''gh'')]), attempts := 2\<rparr>"

theorem circuit_deferral_uses_attempt_witness:
  "\<exists>k'. status k' = Retry \<and> attempts k' = 3 \<and>
     k' \<in> set (ws_store (processJob sample_worker (claim_updates ''w'' 8 sample_provider_run)
       \<lparr>ws_circuits = [''gh'' \<mapsto> \<lparr>consecutiveFails = 5, openUntil = Some 1000\<rparr>],
        ws_store = [claim_updates ''w'' 8 sample_provider_run]\<rparr>))"
proof -
  let ?k = sample_provider_run
  let ?j = "claim_updates ''w'' 8 ?k"
  let ?st = "\<lparr>ws_circuits = [''gh'' \<mapsto> \<lparr>consecutiveFails = 5, openUntil = Some 1000\<rparr>], ws_store = [?j]\<rparr>"
  have pid: "extractProviderID ?j = ''gh''"
    by (simp add: extractProviderID_def claim_updates_def sample_provider_run_def decode_create_run_def)
  have inv: "store_inv [?k]"
    by (simp add: store_inv_def index_ok_def row_ok_def sample_provider_run_def sample_defs index_key_def
        singleton_types_def job_type_defs json_text_def nullif_empty_def)
  let ?k' = "status_updates 9 Retry None ''circuit breaker open'' (Some (9 + cbCooldown)) ?j"
  have wr: "UpdateJobStatus (wk_update_ok sample_worker) (wk_start sample_worker) (job_id ?j) Retry None
      ''circuit breaker open'' (Some (wk_start sample_worker + cbCooldown)) (ws_store ?st) = Inr (?k', [?k'])"
    by (simp add: UpdateJobStatus_def sample_worker_def find_job_def db_update_def set_job_def index_ok_def
        split: option.split)
  have "\<exists>k' \<in> set (ws_store (processJob sample_worker ?j ?st)). job_id k' = job_id ?k \<and> status k' = Retry \<and>
      attempts k' = attempts ?k + 1 \<and>
      (attempts k' \<ge> max_attempts k' \<longrightarrow>
         fst (error_outcome 0 (claim_updates [] 0 k') (Plain [])) = Failed)"
    by (rule circuit_deferral_uses_attempt [OF inv _ refl _ _ _ wr])
      (simp_all add: pid, simp_all add: claim_updates_def sample_provider_run_def sample_defs
        job_type_defs isProviderCircuitOpen_def cbThreshold_def before_open_def sample_worker_def)
  then show ?thesis by (auto simp: sample_provider_run_def)
qed

text \<open>
  How the runner of a run can be faster than the worker that started it: while
  \<open>ExecuteRun\<close> returns, the run's pod connects and reports that it is done.
\<close>

definition report_before_return ::
    "exec_env \<Rightarrow> ws_env \<Rightarrow> string \<Rightarrow> create_run_payload \<Rightarrow> job_store \<Rightarrow> go_error option \<times> job_store" where
  "report_before_return ee we i p s =
     (case ExecuteRun ee i p s of
        (Some e, s0) \<Rightarrow> (Some e, s0)
      | (None, s0) \<Rightarrow>
          (None, ws_jobs (handleWebSocket we i [(we, WSDone 0)] \<lparr>ws_jobs = s0, ws_logs = [], ws_tools = []\<rparr>)))"

lemma ExecuteRun_row:
  assumes "k \<in> set s" and "ExecuteRun ee (job_id k) p s = (None, s0)"
  shows "\<exists>k0 \<in> set s0. job_id k0 = job_id k \<and> job_type k0 = job_type k"
proof -
  obtain f where s0: "s0 = set_job (job_id k) f s"
    and f: "\<And>j. job_id (f j) = job_id j \<and> job_type (f j) = job_type j"
    using assms(2) by (auto simp: ExecuteRun_def NonRetryable_def ProviderUnavailable_def
        split: if_splits sum.splits prod.splits)
  with assms(1) show ?thesis
    by (intro bexI [of _ "f k"]) (auto simp: set_job_def set_update_where)
qed

lemma done_report:
  assumes inv: "store_inv s" and k: "k \<in> set s" "job_type k = JobTypeCreateRun" and ok: "we_ok we"
  shows "\<exists>s1 k1. ws_jobs (handleWebSocket we (job_id k) [(we, WSDone 0)] \<lparr>ws_jobs = s, ws_logs = l, ws_tools = ts\<rparr>) = s1 \<and>
    store_inv s1 \<and> k1 \<in> set s1 \<and> job_id k1 = job_id k \<and> job_type k1 = JobTypeCreateRun \<and>
    status k1 = Succeeded \<and> finished_at k1 = Some (we_now we)"
proof -
  let ?f = "run_status_updates (we_now we)"
  have ty: "job_type (?f st j) = job_type j" "status (?f st j) = st" for st j
    by (simp_all add: run_status_updates_def Let_def)
  let ?k0 = "?f Running k"
  let ?s0 = "map (\<lambda>j. if j = k then ?f Running j else j) s"
  have u0: "db_update (job_id k) (?f Running) s = Inr ?s0"
    by (rule db_update_run [OF inv k]) (simp_all add: ty)
  have inv0: "store_inv ?s0"
    by (rule db_update_inv [OF u0 inv]) (simp_all add: row_ok_run_status)
  have k0: "?k0 \<in> set ?s0" using update_row_in [OF k(1)] .
  have u1: "db_update (job_id k) (?f Succeeded) ?s0 = Inr (map (\<lambda>j. if j = ?k0 then ?f Succeeded j else j) ?s0)"
    using db_update_run [OF inv0 k0, of "?f Succeeded"] k(2) by (simp add: ty)
  let ?s1 = "map (\<lambda>j. if j = ?k0 then ?f Succeeded j else j) ?s0"
  have "store_inv ?s1" by (rule db_update_inv [OF u1 inv0]) (simp_all add: row_ok_run_status)
  moreover have "?f Succeeded ?k0 \<in> set ?s1" by (rule update_row_in [OF k0])
  moreover have "ws_jobs (handleWebSocket we (job_id k) [(we, WSDone 0)] \<lparr>ws_jobs = s, ws_logs = l, ws_tools = ts\<rparr>) = ?s1"
    using ok u0 u1 by (simp add: handleWebSocket_def ws_handle_def updateRunStatus_def ignore_error_def)
  ultimately show ?thesis
    using k(2) by (intro exI [of _ ?s1] exI [of _ "?f Succeeded ?k0"]) (simp add: run_status_updates_def)
qed

lemma running_write:
  assumes inv: "store_inv s" and k: "k \<in> set s" "job_type k = JobTypeCreateRun"
  shows "status_updates now Running res err nx k
    \<in> set (update_ignoring True now (job_id k) Running res err nx s)"
proof -
  have ids: "distinct (map job_id s)" using inv by (simp add: store_inv_def)
  have "db_update (job_id k) (status_updates now Running res err nx) s =
      Inr (map (\<lambda>j. if j = k then status_updates now Running res err nx j else j) s)"
    by (rule db_update_run [OF inv k]) (simp_all add: status_updates_def)
  then show ?thesis
    using find_job_id [OF ids k(1)] update_row_in [OF k(1)]
    by (simp add: update_ignoring_def UpdateJobStatus_def)
qed

text \<open>C20. A run that has already reported success is set back to running: when the runner
  of a run is done before the worker that started it has finished processing the job, the
  row has reached \<open>SUCCEEDED\<close>, and processing the job then leaves it \<open>RUNNING\<close>
  with the finishing time of the report, since the worker writes that status without looking at
  the row.\<close>

theorem worker_overwrites_finished_run:
  assumes inv: "store_inv (ws_store st)"
    and k: "k \<in> set (ws_store st)" "job_id k = job_id j" "job_type k = JobTypeCreateRun"
    and run: "job_type j = JobTypeCreateRun" "payload j = Some v" "decode_create_run v = Some p"
      "crp_clone_url p \<noteq> []"
    and closed: "\<not> isProviderCircuitOpen (wk_start env) (extractProviderID j) (ws_circuits st)"
    and exec: "env_executor (wk_proc env) = Some ex" "execute_run ex = report_before_return ee we"
    and started: "ExecuteRun ee (job_id j) p (ws_store st) = (None, s')"
    and ok: "we_ok we" "wk_update_ok env"
  shows "(\<exists>k1 \<in> set (out_store (ProcessJob (wk_proc env) j (ws_store st))).
        job_id k1 = job_id j \<and> status k1 = Succeeded) \<and>
    (\<exists>k' \<in> set (ws_store (processJob env j st)).
        job_id k' = job_id j \<and> status k' = Running \<and> finished_at k' = Some (we_now we))"
proof -
  have inv0: "store_inv s'" using ExecuteRun_inv [OF inv, of ee "job_id j" p] started by simp
  obtain k0 where k0: "k0 \<in> set s'" "job_id k0 = job_id j" "job_type k0 = JobTypeCreateRun"
    using ExecuteRun_row [OF k(1), of ee p s'] started k(2,3) by auto
  obtain s1 k1 where r: "report_before_return ee we (job_id j) p (ws_store st) = (None, s1)"
    and s1: "store_inv s1" and k1: "k1 \<in> set s1" "job_id k1 = job_id j" "job_type k1 = JobTypeCreateRun"
      "status k1 = Succeeded" "finished_at k1 = Some (we_now we)"
    using done_report [OF inv0 k0(1,3) ok(1), of "[]" "[]"] started k0(2)
    by (auto simp: report_before_return_def)
  let ?r = "status_obj ''started'' [(''run_id'', JStr (job_id j))]"
  have out: "ProcessJob (wk_proc env) j (ws_store st) = proc_output (Inr ?r) s1"
    using run exec r by (simp add: ProcessJob_def processCreateRun_def)
  have "ws_store (processJob env j st) =
      update_ignoring True (wk_end env) (job_id k1) Running (Some ?r) [] None s1"
    using run(1) closed ok(2) k1(2) by (simp add: processJob_def out proc_output_def Let_def)
  with running_write [OF s1 k1(1,3), of "wk_end env" "Some ?r" "[]" None] k1
  have "\<exists>k' \<in> set (ws_store (processJob env j st)).
      job_id k' = job_id j \<and> status k' = Running \<and> finished_at k' = Some (we_now we)"
    by (intro bexI [of _ "status_updates (wk_end env) Running (Some ?r) [] None k1"])
      (simp_all add: status_updates_def)
  then show ?thesis using out k1 by (auto simp: proc_output_def)
qed

definition sample_exec :: exec_env where
  "sample_exec = \<lparr>ee_ok = True, ee_now = 6, ee_health = (\<lambda>_. None), ee_token = Inr ''t'', ee_namespace = ''spam'',
     ee_calls = \<lparr>kc_create = (\<lambda>_ n. Inr n), kc_get = (\<lambda>_ _. Inl AlreadyExists), kc_delete = (\<lambda>_ _. None),
       kc_recreate = (\<lambda>_ _. [])\<rparr>\<rparr>"

definition sample_ws :: ws_env where
  "sample_ws = \<lparr>we_ok = True, we_now = 7, we_upsert = (\<lambda>_ _ _. None)\<rparr>"

theorem worker_overwrites_finished_run_witness:
  "\<exists>env j st. (\<exists>k1 \<in> set (out_store (ProcessJob (wk_proc env) j (ws_store st))). status k1 = Succeeded) \<and>
     (\<exists>k' \<in> set (ws_store (processJob env j st)). status k' = Running \<and> finished_at k' = Some 7)"
proof -
  let ?v = "JObj [(''clone_url'', JStr ''u'')]"
  let ?p = "zero_payload\<lparr>crp_clone_url := ''u''\<rparr>"
  let ?j = "(sample_job ''r'' ''CREATE_RUN'' Running 5)\<lparr>payload := Some ?v\<rparr>"
  let ?ex = "\<lparr>execute_run = report_before_return sample_exec sample_ws, create_adhoc = None\<rparr>"
  let ?env = "sample_worker\<lparr>wk_proc := sample_proc\<lparr>env_executor := Some ?ex\<rparr>\<rparr>"
  let ?st = "\<lparr>ws_circuits = Map.empty, ws_store = [?j]\<rparr>"
  have inv: "store_inv [?j]"
    by (simp add: store_inv_def index_ok_def row_ok_def sample_defs split: option.split)
  have dec: "decode_create_run ?v = Some ?p"
    by (simp add: decode_create_run_def zero_payload_def)
  obtain s0 where ex: "ExecuteRun sample_exec (job_id ?j) ?p [?j] = (None, s0)"
    by (simp add: ExecuteRun_def sample_exec_def createK8sJob_def zero_payload_def trim_eval)
  have "(\<exists>k1 \<in> set (out_store (ProcessJob (wk_proc ?env) ?j (ws_store ?st))).
        job_id k1 = job_id ?j \<and> status k1 = Succeeded) \<and>
    (\<exists>k' \<in> set (ws_store (processJob ?env ?j ?st)).
        job_id k' = job_id ?j \<and> status k' = Running \<and> finished_at k' = Some (we_now sample_ws))"
    by (rule worker_overwrites_finished_run [where k = ?j and v = ?v and p = ?p and ex = ?ex and ee = sample_exec and s' = s0])
      (use inv dec ex in \<open>simp_all add: sample_defs job_type_defs zero_payload_def isProviderCircuitOpen_def
        sample_worker_def sample_ws_def\<close>)
  then show ?thesis by (auto simp: sample_ws_def intro!: exI [of _ ?env] exI [of _ ?j] exI [of _ ?st])
qed

end
