(* ===== verification/Run_Api.thy ===== *)
theory Run_Api
  imports Run_Lifecycle
begin

text \<open>
  The writes to \<open>jobs\<close> outside the packages \<open>jobs\<close> and \<open>runner\<close>'s
  lifecycle: runs requested by hand (\<open>uiapi/runs.go\<close>) or in bulk
  (\<open>uiapi/scan_all.go\<close>) and by the provider poll (\<open>poller/poller.go\<close>), which insert
  their row without \<open>CreateJob\<close>; the correction of a run's status from a stored Kubernetes
  snapshot (\<open>uiapi/k8s_events.go\<close>, \<open>RunGetHandler\<close>); the commit hash of uploaded results
  (\<open>runner/handlers.go\<close>); and the deletion of a provider's runs
  (\<open>providerconfig/store.go\<close>).

  Lookups in other tables (provider instances, repositories) and the provider's API are
  arguments. Every operation is shown to keep the table's invariant.
\<close>

section \<open>Inserting a run\<close>

definition omit_empty :: "string \<Rightarrow> string \<Rightarrow> (string \<times> json) list" where
  "omit_empty k v = (if v = [] then [] else [(k, JStr v)])"

text \<open>\<open>json.Marshal\<close> of a \<open>CreateRunPayload\<close>.\<close>

definition encode_create_run :: "create_run_payload \<Rightarrow> json" where
  "encode_create_run p =
     JObj (omit_empty ''repo_id'' (crp_repo_id p) @ omit_empty ''provider_id'' (crp_provider_id p) @
           omit_empty ''provider'' (crp_provider p) @ [(''clone_url'', JStr (crp_clone_url p))] @
           omit_empty ''ref'' (crp_ref p) @ omit_empty ''commit_sha'' (crp_commit_sha p) @
           (if crp_repo_disabled p then [(''repo_disabled'', JBool True)] else []))"

text \<open>The row of the three direct inserts; the columns they leave out are \<open>NULL\<close>, which
  the Go structs read as zero values.\<close>

definition run_row :: "go_time \<Rightarrow> string \<Rightarrow> create_run_payload \<Rightarrow> job" where
  "run_row now uuid p =
     new_job now uuid
       \<lparr>in_type = JobTypeCreateRun, in_payload = Some (encode_create_run p), in_run_at = None,
        in_max_attempts = 3\<rparr>"

definition insert_run ::
    "bool \<Rightarrow> go_time \<Rightarrow> string \<Rightarrow> create_run_payload \<Rightarrow> job_store \<Rightarrow> job_err + job_store" where
  "insert_run ok now uuid p s =
     (if ok then db_insert (run_row now uuid p) s else Inl DBUnavailable)"

text \<open>With \<open>ON CONFLICT DO NOTHING\<close>: the rows affected and the table.\<close>

definition insert_run_or_skip ::
    "bool \<Rightarrow> go_time \<Rightarrow> string \<Rightarrow> create_run_payload \<Rightarrow> job_store \<Rightarrow> job_err + (nat \<times> job_store)" where
  "insert_run_or_skip ok now uuid p s =
     (if \<not> ok then Inl DBUnavailable
      else case db_insert (run_row now uuid p) s of Inl e \<Rightarrow> Inr (0, s) | Inr s' \<Rightarrow> Inr (1, s'))"

definition is_slash :: "char \<Rightarrow> bool" where
  "is_slash c \<longleftrightarrow> c = CHR ''/''"

text \<open>The clone URL of \<open>uiapi\<close>, and the one of the poller.\<close>

definition buildCloneURL :: "string \<Rightarrow> string \<Rightarrow> string \<Rightarrow> string" where
  "buildCloneURL provider repoPath baseURL =
     (let base = trim_right is_slash baseURL; path = trim_char (CHR ''/'') repoPath in
      if base = [] \<or> path = [] then []
      else if provider \<in> {''github'', ''gitlab'', ''gitea'', ''forgejo''} then base @ ''/'' @ path @ ''.git''
      else [])"

definition poller_buildCloneURL :: "string \<Rightarrow> string \<Rightarrow> string \<Rightarrow> string" where
  "poller_buildCloneURL provider repoPath baseURL =
     (let based = trim_right is_slash baseURL @ ''/'' @ repoPath @ ''.git'' in
      if provider = ''github'' then ''https://github.com/'' @ repoPath @ ''.git''
      else if provider = ''gitlab'' then
        (if baseURL \<noteq> [] then based else ''https://gitlab.com/'' @ repoPath @ ''.git'')
      else if provider = ''gitea'' \<or> provider = ''forgejo'' then (if baseURL = [] then [] else based)
      else [])"

text \<open>The organisation and the slug of a path: before and after its last slash.\<close>

definition split_path :: "string \<Rightarrow> string \<times> string" where
  "split_path repoPath =
     (let full = trim_char (CHR ''/'') repoPath;
          slug = rev (takeWhile (\<lambda>c. \<not> is_slash c) (rev full))
      in (take (length full - length slug - 1) full, slug))"

definition run_pending :: "string \<Rightarrow> job_store \<Rightarrow> bool" where
  "run_pending repo s \<longleftrightarrow>
     list_ex (\<lambda>j. job_type j = JobTypeCreateRun \<and> status j \<in> {Queued, Running} \<and>
                 json_text (payload j) ''repo_id'' = Some repo) s"

section \<open>A run requested by hand\<close>

record create_run_request =
  cq_provider :: string
  cq_repo_path :: string
  cq_ref :: string
  cq_provider_id :: string
  cq_repo_disabled :: bool

text \<open>
  \<open>rc_base\<close> is the base URL of an enabled provider instance, \<open>rc_match\<close> the
  instance \<open>FindProviderMatch\<close> finds (its id and base URL), \<open>rc_upsert\<close> the id
  \<open>assets.UpsertRepo\<close> returns for provider, organisation, slug, external id and instance.
\<close>

record create_run_env =
  rc_admin :: bool
  rc_base :: "string \<Rightarrow> string option"
  rc_match :: "string \<Rightarrow> string \<Rightarrow> string \<Rightarrow> (string \<times> string) option"
  rc_upsert :: "string \<Rightarrow> string \<Rightarrow> string \<Rightarrow> string \<Rightarrow> string \<Rightarrow> go_error + string"
  rc_count_ok :: bool
  rc_insert_ok :: bool
  rc_now :: go_time
  rc_uuid :: string

definition resolve_provider :: "create_run_env \<Rightarrow> create_run_request \<Rightarrow> (string \<times> string) option" where
  "resolve_provider env req =
     (let pid = trim_space (cq_provider_id req) in
      if pid \<noteq> [] then
        (case rc_base env pid of
           Some b \<Rightarrow> if b = [] then None else Some (pid, b)
         | None \<Rightarrow> None)
      else
        (case rc_match env (cq_provider req) [] (cq_repo_path req) of
           Some (i, b) \<Rightarrow> if b = [] then None else Some (i, b)
         | None \<Rightarrow> None))"

text \<open>An error of the duplicate check is ignored, the count then being zero.\<close>

definition RunsCreate :: "create_run_env \<Rightarrow> create_run_request option \<Rightarrow> job_store \<Rightarrow> nat \<times> job_store" where
  "RunsCreate env body s =
     (if \<not> rc_admin env then (403, s)
      else case body of
        None \<Rightarrow> (400, s)
      | Some req \<Rightarrow>
          if cq_provider req = [] \<or> cq_repo_path req = [] then (400, s)
          else (case resolve_provider env req of
             None \<Rightarrow> (400, s)
           | Some (pid, base) \<Rightarrow>
               (let url = buildCloneURL (cq_provider req) (cq_repo_path req) base;
                    (org, slug) = split_path (cq_repo_path req)
                in if url = [] then (400, s)
                   else (case rc_upsert env (cq_provider req) org slug [] pid of
                      Inl e \<Rightarrow> (500, s)
                    | Inr repo \<Rightarrow>
                        if rc_count_ok env \<and> run_pending repo s then (409, s)
                        else (case insert_run (rc_insert_ok env) (rc_now env) (rc_uuid env)
                                \<lparr>crp_repo_id = repo, crp_provider_id = pid, crp_provider = cq_provider req,
                                 crp_clone_url = url, crp_ref = cq_ref req, crp_commit_sha = [],
                                 crp_repo_disabled = cq_repo_disabled req\<rparr> s of
                           Inl e \<Rightarrow> (500, s)
                         | Inr s' \<Rightarrow> (201, s'))))))"

section \<open>Scanning all repositories of a provider\<close>

record repo_data =
  rd_external_id :: string
  rd_full_path :: string
  rd_default_branch :: string
  rd_is_disabled :: bool
  rd_is_empty :: bool

datatype queue_outcome = RepoSkipped | RepoFailed | RepoScanned | RepoQueued

text \<open>
  The goroutine of one repository. With \<open>onlyNew\<close> a repository with a successful run is
  left alone; an error of that check is ignored.
\<close>

definition queue_repo ::
    "create_run_env \<Rightarrow> string \<Rightarrow> string \<Rightarrow> string \<Rightarrow> bool \<Rightarrow> repo_data \<Rightarrow> job_store
       \<Rightarrow> queue_outcome \<times> job_store" where
  "queue_repo env provider baseURL providerID onlyNew r s =
     (if rd_is_disabled r \<or> rd_is_empty r \<or> rd_default_branch r = [] then (RepoSkipped, s)
      else
        (let url = buildCloneURL provider (rd_full_path r) baseURL;
             pid = (if providerID \<noteq> [] then providerID
                    else case rc_match env provider baseURL (rd_full_path r) of
                           Some (i, b) \<Rightarrow> i | None \<Rightarrow> []);
             (org, slug) = split_path (rd_full_path r)
         in if url = [] then (RepoFailed, s)
            else (case rc_upsert env provider org slug (rd_external_id r) pid of
               Inl e \<Rightarrow> (RepoFailed, s)
             | Inr repo \<Rightarrow>
                 if onlyNew \<and> rc_count_ok env \<and>
                    list_ex (\<lambda>j. job_type j = JobTypeCreateRun \<and> status j = Succeeded \<and>
                                json_text (payload j) ''repo_id'' = Some repo) s
                 then (RepoScanned, s)
                 else (case insert_run (rc_insert_ok env) (rc_now env) (rc_uuid env)
                         \<lparr>crp_repo_id = repo, crp_provider_id = pid, crp_provider = provider,
                          crp_clone_url = url, crp_ref = rd_default_branch r, crp_commit_sha = [],
                          crp_repo_disabled = rd_is_disabled r\<rparr> s of
                    Inl e \<Rightarrow> (RepoFailed, s)
                  | Inr s' \<Rightarrow> (RepoQueued, s')))))"

text \<open>The goroutines of a page, in the order their writes reach the database.\<close>

fun queueRepos ::
    "string \<Rightarrow> string \<Rightarrow> string \<Rightarrow> bool \<Rightarrow> (create_run_env \<times> repo_data) list \<Rightarrow> job_store \<Rightarrow> nat \<times> job_store" where
  "queueRepos provider baseURL providerID onlyNew [] s = (0, s)"
| "queueRepos provider baseURL providerID onlyNew ((env, r) # rs) s =
     (case queue_repo env provider baseURL providerID onlyNew r s of
        (out, s1) \<Rightarrow>
          (case queueRepos provider baseURL providerID onlyNew rs s1 of
             (n, s2) \<Rightarrow> (if out = RepoQueued then n + 1 else n, s2)))"

section \<open>The provider poll\<close>

definition hasFinishedJobForCommit :: "bool \<Rightarrow> string \<Rightarrow> string \<Rightarrow> job_store \<Rightarrow> bool" where
  "hasFinishedJobForCommit ok repo sha s \<longleftrightarrow>
     repo \<noteq> [] \<and> sha \<noteq> [] \<and> ok \<and>
     list_ex (\<lambda>j. job_type j = JobTypeCreateRun \<and> finished_at j \<noteq> None \<and>
                 json_text (payload j) ''repo_id'' = Some repo \<and>
                 (commit_hash j = Some sha \<or> json_text (payload j) ''commit_sha'' = Some sha)) s"

definition hasPendingJob :: "bool \<Rightarrow> string \<Rightarrow> job_store \<Rightarrow> bool" where
  "hasPendingJob ok repo s \<longleftrightarrow> ok \<and> run_pending repo s"

record poll_counts =
  pc_queued :: nat
  pc_skipped_same :: nat
  pc_skipped_pending :: nat

text \<open>
  One repository of the poll: \<open>latest\<close> is the answer of \<open>GetLatestCommit\<close>, the
  other arguments as above.
\<close>

definition poll_repo ::
    "create_run_env \<Rightarrow> (go_error + string) \<Rightarrow> string \<Rightarrow> string \<Rightarrow> string \<Rightarrow> repo_data
       \<Rightarrow> poll_counts \<times> job_store \<Rightarrow> poll_counts \<times> job_store" where
  "poll_repo env latest ptype pid baseURL r st =
     (case st of (c, s) \<Rightarrow>
      if rd_default_branch r = [] \<or> rd_is_empty r \<or> rd_is_disabled r then (c, s)
      else case latest of
        Inl e \<Rightarrow> (c, s)
      | Inr sha \<Rightarrow>
          (case split_path (rd_full_path r) of (org, slug) \<Rightarrow>
           case rc_upsert env ptype org slug (rd_external_id r) pid of
             Inl e \<Rightarrow> (c, s)
           | Inr repo \<Rightarrow>
               if hasFinishedJobForCommit (rc_count_ok env) repo sha s
               then (c\<lparr>pc_skipped_same := pc_skipped_same c + 1\<rparr>, s)
               else if hasPendingJob (rc_count_ok env) repo s
               then (c\<lparr>pc_skipped_pending := pc_skipped_pending c + 1\<rparr>, s)
               else (let url = poller_buildCloneURL ptype (rd_full_path r) baseURL in
                     if url = [] then (c, s)
                     else (case insert_run_or_skip (rc_insert_ok env) (rc_now env) (rc_uuid env)
                             \<lparr>crp_repo_id = repo, crp_provider_id = pid, crp_provider = ptype,
                              crp_clone_url = url, crp_ref = rd_default_branch r, crp_commit_sha = sha,
                              crp_repo_disabled = rd_is_disabled r\<rparr> s of
                        Inl e \<Rightarrow> (c, s)
                      | Inr (n, s') \<Rightarrow>
                          if n = 0 then (c\<lparr>pc_skipped_pending := pc_skipped_pending c + 1\<rparr>, s')
                          else (c\<lparr>pc_queued := pc_queued c + 1\<rparr>, s')))))"

definition poll_repos ::
    "string \<Rightarrow> string \<Rightarrow> string \<Rightarrow> (create_run_env \<times> (go_error + string) \<times> repo_data) list
       \<Rightarrow> job_store \<Rightarrow> poll_counts \<times> job_store" where
  "poll_repos ptype pid baseURL rs s =
     fold (\<lambda>(env, latest, r). poll_repo env latest ptype pid baseURL r) rs
       (\<lparr>pc_queued = 0, pc_skipped_same = 0, pc_skipped_pending = 0\<rparr>, s)"

section \<open>Stored Kubernetes snapshots\<close>

record k8s_event =
  ev_reason :: string
  ev_message :: string

definition bad_reason :: "string \<Rightarrow> bool" where
  "bad_reason r \<longleftrightarrow>
     (let l = to_lower r in
      contains l ''backoff'' \<or> contains l ''failed'' \<or> contains l ''errimagepull'' \<or>
      contains l ''imagepullbackoff'')"

text \<open>The failure message, \<open>None\<close> when nothing points to a failure.\<close>

definition inferK8sFailure :: "k8s_event list \<Rightarrow> pod_status option \<Rightarrow> string option" where
  "inferK8sFailure events pod =
     (case pod of
        Some st \<Rightarrow>
          if ps_is_error st then
            Some (if ps_waiting_message st \<noteq> [] then ps_waiting_message st
                  else if ps_message st \<noteq> [] then ps_message st
                  else if ps_waiting_reason st \<noteq> [] then ps_waiting_reason st
                  else if ps_reason st \<noteq> [] then ps_reason st
                  else ''pod reported error'')
          else map_option (\<lambda>e. if ev_message e \<noteq> [] then ev_message e else ev_reason e)
                 (find (\<lambda>e. bad_reason (ev_reason e)) (rev events))
      | None \<Rightarrow>
          map_option (\<lambda>e. if ev_message e \<noteq> [] then ev_message e else ev_reason e)
            (find (\<lambda>e. bad_reason (ev_reason e)) (rev events)))"

text \<open>The write both corrections make; it does not look at the row's status again and
  leaves the lock.\<close>

definition fail_run :: "bool \<Rightarrow> go_time \<Rightarrow> string \<Rightarrow> string \<Rightarrow> job_store \<Rightarrow> job_err + job_store" where
  "fail_run ok now runID message s =
     (if ok then
        db_update runID
          (\<lambda>j. j\<lparr>status := Failed,
                 job_error := (if message = [] then ''k8s runner failed to start'' else message),
                 finished_at := Some now, updated_at := now\<rparr>) s
      else Inl DBUnavailable)"

text \<open>The status to report, whether the row was changed, and the table.\<close>

definition correctRunStatusFromSnapshot ::
    "bool \<Rightarrow> go_time \<Rightarrow> string \<Rightarrow> job_status \<Rightarrow> k8s_event list \<Rightarrow> pod_status option \<Rightarrow> job_store
       \<Rightarrow> job_status \<times> bool \<times> job_store" where
  "correctRunStatusFromSnapshot ok now runID st events pod s =
     (if st = Failed then (st, False, s)
      else case inferK8sFailure events pod of
        None \<Rightarrow> (st, False, s)
      | Some message \<Rightarrow>
          (case fail_run ok now runID message s of
             Inl e \<Rightarrow> (Failed, False, s)
           | Inr s' \<Rightarrow> (Failed, True, s')))"

definition parseRunResultMap :: "json option \<Rightarrow> (string \<times> json) list option" where
  "parseRunResultMap r =
     (case r of
        None \<Rightarrow> Some []
      | Some JNull \<Rightarrow> Some []
      | Some (JObj kvs) \<Rightarrow> Some kvs
      | Some _ \<Rightarrow> None)"

text \<open>A missing row scans to an empty result.\<close>

definition loadRunResultMap :: "string \<Rightarrow> job_store \<Rightarrow> (string \<times> json) list option" where
  "loadRunResultMap runID s =
     parseRunResultMap (case find_job s runID of None \<Rightarrow> None | Some j \<Rightarrow> job_result j)"

definition saveRunResultMap :: "bool \<Rightarrow> string \<Rightarrow> (string \<times> json) list \<Rightarrow> job_store \<Rightarrow> job_store" where
  "saveRunResultMap ok runID kvs s =
     (if ok then set_job runID (\<lambda>j. j\<lparr>job_result := Some (JObj kvs)\<rparr>) s else s)"

text \<open>\<open>snapshot\<close> is the encoded events, pod status and time.\<close>

definition persistK8sSnapshot ::
    "bool \<Rightarrow> string \<Rightarrow> k8s_event list \<Rightarrow> pod_status option \<Rightarrow> json \<Rightarrow> job_store \<Rightarrow> job_store" where
  "persistK8sSnapshot ok runID events pod snapshot s =
     (if events = [] \<and> pod = None then s
      else if \<not> ok then s
      else case loadRunResultMap runID s of
        None \<Rightarrow> s
      | Some kvs \<Rightarrow>
          saveRunResultMap ok runID ((''k8s'', snapshot) # filter (\<lambda>(k, v). k \<noteq> ''k8s'') kvs) s)"

text \<open>\<open>decode\<close> is \<open>json.Unmarshal\<close> into a \<open>k8sSnapshot\<close>.\<close>

definition loadPersistedK8sSnapshot ::
    "(json \<Rightarrow> (k8s_event list \<times> pod_status option) option) \<Rightarrow> string \<Rightarrow> job_store
       \<Rightarrow> (k8s_event list \<times> pod_status option) option" where
  "loadPersistedK8sSnapshot decode runID s =
     (case loadRunResultMap runID s of
        None \<Rightarrow> None
      | Some kvs \<Rightarrow>
          (case map_of kvs ''k8s'' of
             None \<Rightarrow> None
           | Some raw \<Rightarrow>
               (case decode raw of
                  None \<Rightarrow> None
                | Some (events, pod) \<Rightarrow>
                    if events = [] \<and> pod = None then None else Some (events, pod))))"

text \<open>\<open>RunGetHandler\<close> up to its response.\<close>

definition RunGet ::
    "bool \<Rightarrow> bool \<Rightarrow> go_time \<Rightarrow> (json \<Rightarrow> (k8s_event list \<times> pod_status option) option) \<Rightarrow> string \<Rightarrow> job_store
       \<Rightarrow> nat \<times> job_store" where
  "RunGet authorised ok now decode runID s =
     (if \<not> authorised then (403, s)
      else if runID = [] then (400, s)
      else if \<not> ok then (500, s)
      else case find (\<lambda>j. job_id j = runID \<and> job_type j \<in> {JobTypeCreateRun, JobTypeImageScan}) s of
        None \<Rightarrow> (404, s)
      | Some j \<Rightarrow>
          if job_type j = JobTypeImageScan then (200, s)
          else if status j \<in> {Succeeded, Running, Queued} then
            (case loadPersistedK8sSnapshot decode runID s of
               None \<Rightarrow> (200, s)
             | Some (events, pod) \<Rightarrow>
                 (case inferK8sFailure events pod of
                    None \<Rightarrow> (200, s)
                  | Some message \<Rightarrow> (200, ignore_error (fail_run ok now runID message s) s)))
          else (200, s))"

section \<open>Uploaded results\<close>

text \<open>
  A payload that does not decode is only logged: the fields that have the right type keep
  their values.
\<close>

definition lenient_create_run :: "json \<Rightarrow> create_run_payload" where
  "lenient_create_run v =
     (let f = (\<lambda>k. case string_field v k of None \<Rightarrow> [] | Some x \<Rightarrow> x) in
      \<lparr>crp_repo_id = f ''repo_id'', crp_provider_id = f ''provider_id'', crp_provider = f ''provider'',
       crp_clone_url = f ''clone_url'', crp_ref = f ''ref'', crp_commit_sha = f ''commit_sha'',
       crp_repo_disabled = (bool_field v ''repo_disabled'' = Some True)\<rparr>)"

definition save_commit_hash :: "bool \<Rightarrow> go_time \<Rightarrow> string \<Rightarrow> string \<Rightarrow> job_store \<Rightarrow> job_err + job_store" where
  "save_commit_hash ok now runID sha s =
     (if ok then db_update runID (\<lambda>j. j\<lparr>commit_hash := Some sha, updated_at := now\<rparr>) s
      else Inl DBUnavailable)"

text \<open>
  \<open>handleResults\<close> as far as it concerns \<open>jobs\<close>; the files of the upload go to other
  tables. \<open>claims\<close> is the run of the bearer token, \<open>None\<close> without a valid one.
\<close>

definition handleResults ::
    "ws_env \<Rightarrow> string option \<Rightarrow> (string \<times> string) option \<Rightarrow> job_store \<Rightarrow> nat \<times> job_store" where
  "handleResults env claims form s =
     (case claims of
        None \<Rightarrow> (401, s)
      | Some tokenRun \<Rightarrow>
          (case form of
             None \<Rightarrow> (400, s)
           | Some (runID, reported) \<Rightarrow>
               if runID \<noteq> tokenRun then (403, s)
               else if \<not> we_ok env then (404, s)
               else (case find_job s runID of
                  None \<Rightarrow> (404, s)
                | Some run \<Rightarrow>
                    (let p = (case payload run of None \<Rightarrow> zero_payload | Some v \<Rightarrow> lenient_create_run v) in
                     case verifyAndPersistRunCommit (we_upsert env) p reported of
                       Inl e \<Rightarrow> (409, s)
                     | Inr sha \<Rightarrow>
                         (200, if sha \<noteq> []
                               then ignore_error (save_commit_hash (we_ok env) (we_now env) runID sha s) s
                               else s)))))"

section \<open>Deleting a provider\<close>

definition run_ids_of :: "string list \<Rightarrow> job_store \<Rightarrow> string list" where
  "run_ids_of repoIDs s =
     map job_id (filter (\<lambda>j. json_text (payload j) ''repo_id'' \<in> Some ` set repoIDs) s)"

definition delete_runs :: "string list \<Rightarrow> job_store \<Rightarrow> job_store" where
  "delete_runs ids s = filter (\<lambda>j. job_id j \<notin> set ids) s"

text \<open>The part of \<open>Store.Delete\<close> on \<open>jobs\<close>; \<open>commits\<close> is false when any
  statement of the transaction fails.\<close>

definition delete_provider_runs :: "bool \<Rightarrow> string list \<Rightarrow> job_store \<Rightarrow> job_store" where
  "delete_provider_runs commits repoIDs s =
     (if commits then delete_runs (run_ids_of repoIDs s) s else s)"

section \<open>Lemmas\<close>

lemma decode_encode_create_run: "decode_create_run (encode_create_run p) = Some p"
  by (cases p) (simp add: decode_create_run_def encode_create_run_def omit_empty_def)

lemma insert_run_inv [inv_intros]:
  "insert_run ok now uuid p s = Inr s' \<Longrightarrow> store_inv s \<Longrightarrow> store_inv s'"
  by (auto simp: insert_run_def run_row_def row_ok_new split: if_splits elim: db_insert_inv)

lemma insert_run_or_skip_inv [inv_intros]:
  "insert_run_or_skip ok now uuid p s = Inr (n, s') \<Longrightarrow> store_inv s \<Longrightarrow> store_inv s'"
  by (auto simp: insert_run_or_skip_def run_row_def row_ok_new split: if_splits sum.splits
      elim: db_insert_inv)

lemma fail_run_inv [inv_intros]: "fail_run ok now i m s = Inr s' \<Longrightarrow> store_inv s \<Longrightarrow> store_inv s'"
  by (auto simp: fail_run_def row_ok_def split: if_splits elim!: db_update_inv)

lemma save_commit_hash_inv [inv_intros]:
  "save_commit_hash ok now i sha s = Inr s' \<Longrightarrow> store_inv s \<Longrightarrow> store_inv s'"
  by (auto simp: save_commit_hash_def row_ok_def split: if_splits elim!: db_update_inv)

lemma saveRunResultMap_inv [inv_intros]:
  assumes "store_inv s"
  shows "store_inv (saveRunResultMap ok i kvs s)"
proof -
  let ?f = "\<lambda>j. j\<lparr>job_result := Some (JObj kvs)\<rparr>"
  have "index_keys (update_where (\<lambda>j. job_id j = i) ?f s) = index_keys s"
    by (rule index_keys_same, rule index_key_cong) simp_all
  moreover have "list_all row_ok (update_where (\<lambda>j. job_id j = i) ?f s)"
    using assms by (auto simp: store_inv_def row_ok_def intro!: list_all_update_where)
  ultimately show ?thesis
    using assms
    by (simp add: saveRunResultMap_def set_job_def store_inv_def index_ok_def map_update_where)
qed

lemma delete_runs_inv [inv_intros]: "store_inv s \<Longrightarrow> store_inv (delete_runs ids s)"
  by (simp add: delete_runs_def filter_inv)

end
