(* ===== verification/Jobs_System.thy ===== *)
theory Jobs_System
  imports Worker Run_Api
begin

text \<open>
  Every write of the program to \<open>jobs\<close> as one step relation. A step is a single SQL
  statement, or one transaction whose rows are locked while it runs; its parameters are free.
  Between two statements of a handler any other step may happen, and what the handler writes next
  may rest on rows it read long before: both are covered, since a step does not ask where its
  parameters come from. The lemmas after the relation show that the handlers, alone, are
  sequences of such steps, so that no write of theirs is missing from it.
  Code outside the model that creates jobs (\<open>uiapi/admin_*.go\<close>, \<open>assets/image.go\<close>,
  \<open>imagescan/reconciler.go\<close>) does so through \<open>CreateJob\<close> or \<open>CreateJobTx\<close>, which is the
  first step of \<open>queue_step\<close>.
\<close>

named_theorems path_intros \<open>a handler as a sequence of steps\<close>

section \<open>The step relation\<close>

text \<open>
  \<open>queue\<close>: the package \<open>jobs\<close> (creating, claiming, finishing, sweeping, heartbeat,
  taking an attempt back). \<open>status_write\<close>: \<open>UpdateJobStatus\<close> reads the row without
  locking it and writes back the time of the last attempt it read. \<open>progress\<close>: a handler's
  progress report. \<open>start\<close>: the Kubernetes job of a run. \<open>requeue\<close> to \<open>touch\<close>:
  the reconciler. \<open>run_status\<close>, \<open>commit\<close>: the runner's messages and results.
  \<open>reset\<close>, \<open>reset_failed\<close>, \<open>delete_failed\<close>: the administrator. \<open>insert\<close>,
  \<open>insert_or_skip\<close>: runs queued by hand, in bulk and by the poll. \<open>correct\<close>,
  \<open>snapshot\<close>: what Kubernetes said about a run. \<open>delete_provider\<close>: a provider's runs.
\<close>

inductive system_step :: "job_store \<Rightarrow> job_store \<Rightarrow> bool" where
  queue: "queue_step s s' \<Longrightarrow> system_step s s'"
| status_write: "db_update i (\<lambda>j. (status_updates now st res err nx j)\<lparr>last_attempted_at := la\<rparr>) s = Inr s' \<Longrightarrow>
    system_step s s'"
| progress: "system_step s (write_progress env i [v] s)"
| start: "system_step s (snd (ExecuteRun ee i p s))"
| requeue: "system_step s (ro_store (requeueRun re run s))"
| succeed: "system_step s (ro_store (markRunSucceeded re run s))"
| fail: "system_step s (ro_store (markRunFailed re run msg s))"
| touch: "system_step s (ro_store (touch_run re run s))"
| run_status: "updateRunStatus ok now i st s = Inr s' \<Longrightarrow> st \<in> {Running, Succeeded, Failed} \<Longrightarrow> system_step s s'"
| commit: "save_commit_hash ok now i sha s = Inr s' \<Longrightarrow> system_step s s'"
| reset: "db_update i (reset_run now) s = Inr s' \<Longrightarrow> system_step s s'"
| reset_failed: "bulk_update (reschedulable ty key s) (reset_run now) s = Inr (n, s') \<Longrightarrow> system_step s s'"
| delete_failed: "RunsDeleteFailed admin ok s = (c, n, s') \<Longrightarrow> system_step s s'"
| insert: "insert_run ok now uuid p s = Inr s' \<Longrightarrow> system_step s s'"
| insert_or_skip: "insert_run_or_skip ok now uuid p s = Inr (n, s') \<Longrightarrow> system_step s s'"
| correct: "fail_run ok now i msg s = Inr s' \<Longrightarrow> system_step s s'"
| snapshot: "system_step s (saveRunResultMap ok i kvs s)"
| delete_provider: "system_step s (delete_runs ids s)"

inductive system_reachable :: "job_store \<Rightarrow> bool" where
  init: "system_reachable []"
| step: "system_reachable s \<Longrightarrow> system_step s s' \<Longrightarrow> system_reachable s'"

section \<open>Every step keeps the invariant\<close>

lemma status_write_inv:
  assumes "db_update i (\<lambda>j. (status_updates now st res err nx j)\<lparr>last_attempted_at := la\<rparr>) s = Inr s'"
    and "store_inv s"
  shows "store_inv s'"
  using assms
proof (rule db_update_inv)
  show "job_id ((status_updates now st res err nx j)\<lparr>last_attempted_at := la\<rparr>) = job_id j" for j by simp
  show "row_ok ((status_updates now st res err nx j)\<lparr>last_attempted_at := la\<rparr>)" if "row_ok j" for j
    using row_ok_status [OF that, of now st res err nx] by (simp add: row_ok_def)
qed

lemma run_status_inv:
  assumes "updateRunStatus ok now i st s = Inr s'" and "st \<in> {Running, Succeeded, Failed}" and "store_inv s"
  shows "store_inv s'"
  using updateRunStatus_inv [OF assms(3), of st ok now i] assms by (auto simp: ignore_error_def)

lemma reset_inv: "db_update i (reset_run now) s = Inr s' \<Longrightarrow> store_inv s \<Longrightarrow> store_inv s'"
  by (erule db_update_inv) (simp_all add: row_ok_reset)

lemma reset_failed_inv: "bulk_update p (reset_run now) s = Inr (n, s') \<Longrightarrow> store_inv s \<Longrightarrow> store_inv s'"
  by (erule bulk_update_inv) (simp_all add: row_ok_reset)

lemma system_step_inv: "system_step s s' \<Longrightarrow> store_inv s \<Longrightarrow> store_inv s'"
  by (induction rule: system_step.induct)
    (blast intro: queue_step_inv status_write_inv write_progress_inv ExecuteRun_inv reconcile_writes_inv
      run_status_inv save_commit_hash_inv reset_inv reset_failed_inv RunsDeleteFailed_inv insert_run_inv
      insert_run_or_skip_inv fail_run_inv saveRunResultMap_inv delete_runs_inv)+

lemma system_reachable_inv: "system_reachable s \<Longrightarrow> store_inv s"
proof (induction rule: system_reachable.induct)
  case init
  show ?case by (simp add: store_inv_def index_ok_def)
next
  case (step s s')
  then show ?case by (blast intro: system_step_inv)
qed

section \<open>Handlers are sequences of steps\<close>

definition path :: "job_store \<Rightarrow> job_store \<Rightarrow> bool" where
  "path s s' \<longleftrightarrow> system_step\<^sup>*\<^sup>* s s'"

lemma path_refl [simp, intro]: "path s s"
  by (simp add: path_def)

lemma path_step: "path s s1 \<Longrightarrow> system_step s1 s2 \<Longrightarrow> path s s2"
  by (simp add: path_def)

lemma path_reachable: "path s s' \<Longrightarrow> system_reachable s \<Longrightarrow> system_reachable s'"
  unfolding path_def by (induction rule: rtranclp_induct) (auto intro: system_reachable.step)

lemma path_create [path_intros]: "path s t \<Longrightarrow> path s (create_ignoring ok now uuid inp t)"
  by (auto simp: create_ignoring_def split: sum.split intro: path_step system_step.queue queue_step.create)

lemma path_update [path_intros]: "path s t \<Longrightarrow> path s (update_ignoring ok now i st res err nx t)"
  by (auto simp: update_ignoring_def split: sum.split intro: path_step system_step.queue queue_step.update)

lemma path_rollback [path_intros]: "path s t \<Longrightarrow> path s (rollback_attempt ok i now t)"
  by (blast intro: path_step system_step.queue queue_step.rollback)

lemma path_progress [path_intros]: "path s t \<Longrightarrow> path s (write_progress env i vs t)"
proof (induction vs arbitrary: t)
  case (Cons v vs)
  have "write_progress env i (v # vs) t = write_progress env i vs (write_progress env i [v] t)"
    by (simp add: write_progress_def)
  with Cons.IH [OF path_step [OF Cons.prems system_step.progress]] show ?case by simp
qed (simp add: write_progress_def)

lemma path_start [path_intros]: "path s t \<Longrightarrow> path s (snd (ExecuteRun ee i p t))"
  by (blast intro: path_step system_step.start)

lemma path_enqueue_each [path_intros]: "path s t \<Longrightarrow> path s (enqueue_each ok now vus t)"
  by (induction ok now vus t rule: enqueue_each.induct) (simp_all add: path_create)

lemma path_EnqueueMissing [path_intros]:
  "path s t \<Longrightarrow> path s (EnqueueMissingVulnMeta ok now uuids cv iv hm t)"
  by (simp add: EnqueueMissingVulnMeta_def EnqueueVulnMetaFetches_def Let_def path_enqueue_each)

lemma path_reschedule [path_intros]: "path s t \<Longrightarrow> path s (reschedule env ty t)"
  by (simp add: reschedule_def scheduleNextFeedRefresh_def path_create)

lemma path_ensure_feeds: "path s t \<Longrightarrow> path s (ensure_feeds at5 ok now tus t)"
  by (induction at5 ok now tus t rule: ensure_feeds.induct)
    (simp_all add: ensure_feed_def Let_def path_create)

lemma path_ProcessJob [path_intros]:
  assumes "path s t" and "\<And>ex. env_executor env = Some ex \<Longrightarrow> execute_run ex = ExecuteRun ee"
  shows "path s (out_store (ProcessJob env j t))"
proof -
  have "path s (out_store (processCreateRun env j t))"
    using assms path_start [OF assms(1), of ee "job_id j"]
    by (auto simp: processCreateRun_def split: option.split prod.split) (metis snd_conv)+
  moreover have "path s (out_store (processOSVScan env j t))"
    "path s (out_store (processSBOMAdhocScan env j t))"
    "path s (out_store (processProbeSecrets env j t))"
    "path s (out_store (processVulnMetaFetch env j t))"
    "path s (out_store (processFetchKEV env t))"
    "path s (out_store (processFetchEPSS env j t))"
    "path s (out_store (processFetchDepHealth env j t))"
    "path s (out_store (processDBMaintenance env j t))"
    "path s (out_store (processAdvisoryBackfill env j t))"
    using assms(1)
    by (simp_all add: handler_defs Let_def path_intros
        split: option.split sum.split prod.split enrich_outcome.split)
  ultimately show ?thesis using assms(1) by (simp add: ProcessJob_def)
qed

lemma path_finish_error [path_intros]: "path s t \<Longrightarrow> path s (finish_error env j e t)"
  by (auto simp: finish_error_def Let_def split: prod.split sum.split
      intro: path_update path_rollback path_step [OF _ system_step.queue [OF queue_step.update]])

lemma processJob_path:
  assumes "\<And>ex. env_executor (wk_proc env) = Some ex \<Longrightarrow> execute_run ex = ExecuteRun ee"
  shows "path (ws_store st) (ws_store (processJob env j st))"
proof -
  have "path (ws_store st) (out_store (ProcessJob (wk_proc env) j (ws_store st)))"
    by (rule path_ProcessJob [OF path_refl]) (rule assms)
  then show ?thesis
    by (simp add: processJob_def Let_def path_intros split: sum.split)
qed

lemma EnsureFeedRefreshScheduled_path: "path s (EnsureFeedRefreshScheduled at5 ok now uuids s)"
  by (simp add: EnsureFeedRefreshScheduled_def path_ensure_feeds)

lemma path_reconcileRun: "path s t \<Longrightarrow> path s (ro_store (reconcileRun env run t))"
  by (auto simp: reconcileRun_def Let_def split: sum.split option.split prod.split
      intro: path_step system_step.intros)

lemma path_reconcile_each:
  assumes "\<And>r t. path s t \<Longrightarrow> path s (ro_store (f r t))" and "path s t"
    and "reconcile_each f rs n t = (m, t', ds)"
  shows "path s t'"
  using assms(2,3)
proof (induction rs arbitrary: n t m t' ds)
  case (Cons r rs)
  from Cons.prems(2) obtain ds' where
    "reconcile_each f rs (if ro_err (f r t) then n else n + 1) (ro_store (f r t)) = (m, t', ds')"
    by (auto simp: Let_def split: prod.splits)
  from Cons.IH [OF assms(1) [OF Cons.prems(1)] this] show ?case .
qed simp

lemma ReconcileRunningJobs_path: "path s (fst (snd (ReconcileRunningJobs env age s)))"
proof -
  let ?c = "re_now env - age"
  obtain n1 s1 d1 where 1: "reconcile_each (reconcileRun env) (due_runs env ?c s) 0 s = (n1, s1, d1)"
    by (metis prod_cases3)
  obtain n2 s2 d2 where 2: "reconcile_each (requeueRun env) (orphan_runs env ?c s1) n1 s1 = (n2, s2, d2)"
    by (metis prod_cases3)
  have "path s s1" by (rule path_reconcile_each [OF path_reconcileRun _ 1]) simp_all
  moreover have "path s (ro_store (requeueRun env r t))" if "path s t" for r t
    using that by (blast intro: path_step system_step.requeue)
  ultimately have "path s s2" using path_reconcile_each [OF _ _ 2] by blast
  with 1 2 show ?thesis by (simp add: ReconcileRunningJobs_def Let_def)
qed

lemma path_run_status [path_intros]:
  "path s t \<Longrightarrow> st \<in> {Running, Succeeded, Failed} \<Longrightarrow> path s (ignore_error (updateRunStatus ok now i st t) t)"
  by (auto simp: ignore_error_def split: sum.split intro: path_step system_step.run_status)

lemma path_commit [path_intros]:
  "path s t \<Longrightarrow> path s (ignore_error (save_commit_hash ok now i sha t) t)"
  by (auto simp: ignore_error_def split: sum.split intro: path_step system_step.commit)

lemma path_ws_commit_hash [path_intros]: "path s t \<Longrightarrow> path s (ws_commit_hash env i h t)"
  using path_commit [of s t True "we_now env" i]
  by (simp add: ws_commit_hash_def save_commit_hash_def split: option.split sum.split)

lemma path_ws_loop: "path s (ws_jobs st) \<Longrightarrow> path s (ws_jobs (ws_loop i ms st))"
proof (induction i ms st rule: ws_loop.induct)
  case (2 i env m ms st)
  have "path s (ws_jobs (snd (ws_handle env i m st)))"
    using "2.prems" by (cases m) (simp_all add: ws_handle_def path_intros)
  with 2 show ?case by (auto split: prod.split)
qed simp

lemma handleWebSocket_path: "path (ws_jobs st) (ws_jobs (handleWebSocket env i ms st))"
  by (simp add: handleWebSocket_def path_ws_loop path_run_status)

lemma handleImageScanNext_path:
  "handleImageScanNext ok skip h now mint pol url s = (c, r, s') \<Longrightarrow> path s s'"
  by (auto simp: handleImageScanNext_def Let_def split: sum.splits prod.splits option.splits
      intro: path_step [OF path_step [OF path_refl]] path_step [OF path_refl]
        system_step.queue queue_step.claim_type queue_step.update)

lemma handleImageScanComplete_path:
  "handleImageScanComplete ok now us cv iv hm i body runs s = (c, rs, s') \<Longrightarrow> path s s'"
  by (auto simp: handleImageScanComplete_def split: sum.splits prod.splits option.splits if_splits
      intro: path_EnqueueMissing path_step [OF path_refl system_step.queue [OF queue_step.update]])

lemma RunsRescheduleFailed_path: "RunsRescheduleFailed admin now s = (c, n, k, s') \<Longrightarrow> path s s'"
  by (auto simp: RunsRescheduleFailed_def Let_def split: if_splits sum.splits prod.splits
      intro: path_step [OF path_step [OF path_refl]] path_step [OF path_refl] system_step.reset_failed)

lemma RunRetry_path: "RunRetry a ok now i s = (c, s') \<Longrightarrow> path s s'"
  by (auto simp: RunRetry_def split: if_splits option.splits sum.splits
      intro: path_step [OF path_refl system_step.reset])

lemma path_fail [path_intros]: "path s t \<Longrightarrow> path s (ignore_error (fail_run ok now i m t) t)"
  by (auto simp: ignore_error_def split: sum.split intro: path_step system_step.correct)

lemma RunsCreate_path: "path s (snd (RunsCreate env body s))"
  by (auto simp: RunsCreate_def Let_def split: option.split prod.split sum.split
      intro: path_step [OF path_refl system_step.insert])

lemma path_queue_repo: "path s t \<Longrightarrow> path s (snd (queue_repo env pr b pid new r t))"
  by (auto simp: queue_repo_def Let_def split: option.split prod.split sum.split
      intro: path_step system_step.insert)

lemma queueRepos_path: "path s t \<Longrightarrow> path s (snd (queueRepos pr b pid new rs t))"
proof (induction rs arbitrary: t)
  case (Cons er rs)
  obtain env r where er: "er = (env, r)" by (cases er)
  have "path s (snd (queue_repo env pr b pid new r t))" by (rule path_queue_repo [OF Cons.prems])
  from Cons.IH [OF this] show ?case by (auto simp: er split: prod.split)
qed simp

lemma path_poll_repo: "path s (snd cs) \<Longrightarrow> path s (snd (poll_repo env l ty pid b r cs))"
  by (auto simp: poll_repo_def Let_def split: prod.split sum.split
      intro: path_step system_step.insert_or_skip)

lemma poll_repos_path: "path s (snd (poll_repos ty pid b rs s))"
proof -
  have "path s (snd (fold (\<lambda>(env, l, r). poll_repo env l ty pid b r) rs cs))" if "path s (snd cs)" for cs
    using that
  proof (induction rs arbitrary: cs)
    case (Cons x rs)
    then show ?case by (cases x) (simp add: path_poll_repo)
  qed simp
  then show ?thesis by (simp add: poll_repos_def)
qed

lemma RunGet_path: "path s (snd (RunGet a ok now dec i s))"
  by (simp add: RunGet_def path_fail split: option.split prod.split)

lemma correctRunStatusFromSnapshot_path:
  "path s (snd (snd (correctRunStatusFromSnapshot ok now i st evs pod s)))"
  by (auto simp: correctRunStatusFromSnapshot_def split: option.split sum.split
      intro: path_step [OF path_refl system_step.correct])

lemma persistK8sSnapshot_path: "path s (persistK8sSnapshot ok i evs pod snap s)"
  by (auto simp: persistK8sSnapshot_def split: option.split
      intro: path_step [OF path_refl system_step.snapshot])

lemma handleResults_path: "path s (snd (handleResults env claims form s))"
  by (auto simp: handleResults_def Let_def path_commit split: option.split prod.split sum.split)

lemma delete_provider_runs_path: "path s (delete_provider_runs commits repos s)"
  by (auto simp: delete_provider_runs_def intro: path_step [OF path_refl system_step.delete_provider])

end
