(* ===== verification/Asset_Risk.thy ===== *)
theory Asset_Risk
  imports Complex_Main Go_Prelude
begin

text \<open>
  The risk model of the package \<open>internal/assetrisk\<close>: the per-asset signals, the
  threat and trust scores, the tiers and the fingerprint of \<open>score.go\<close>, and the
  reasons of \<open>reasons.go\<close>.

  A \<open>float32\<close> column is the rational it denotes (no column holds a NaN or an
  infinity). A constant compared with one is first rounded to \<open>float32\<close>, as Go
  does: \<open>0.5\<close> is exact, \<open>0.1\<close> is the nearest \<open>float32\<close>. The product
  \<open>k*math.Log10(float64(n)+1)\<close> is the argument \<open>lg k n\<close>: its last bit differs
  between platforms, and the code depends on its integer part only. SHA-256 is the argument
  \<open>sha\<close>.
\<close>

section \<open>Signals\<close>

type_synonym float32 = rat

record signals =
  AssetType :: string
  AssetID :: string
  AssetSlug :: string
  ImageDigest :: string
  CriticalCount :: int
  HighCount :: int
  KEVCount :: int
  EPSSMax :: float32
  HasFixForCritical :: bool
  ActiveSecretCount :: int
  InternetExposed :: bool
  SignedCommitsPct :: float32
  ImageSigned :: bool
  ScanAgeDays :: int
  LastScanAt :: "go_time option"
  HasSBOM :: bool
  WorstDepHealthScore :: float32
  ArchivedDepCount :: int
  DeprecatedDepCount :: int
  MaxMajorBehind :: int
  MajorBehindDepCount :: int
  MediumCount :: int
  LowCount :: int
  HasFixForHigh :: bool
  KEVFixableCount :: int
  KEVRansomwareCount :: int
  KEVDuePassed :: bool
  KEVEPSSMax :: float32
  ExposedKEVCount :: int
  ExposedCriticalCount :: int
  ExposedEPSSMax :: float32
  ClusterCount :: int
  ExposedClusterCount :: int

definition EPSSVeryHigh :: float32 where "EPSSVeryHigh = 1 / 2"

text \<open>The \<open>float32\<close> nearest to one tenth.\<close>

definition EPSSElevated :: float32 where "EPSSElevated = 13421773 / 134217728"

definition clamp :: "int \<Rightarrow> int \<Rightarrow> int \<Rightarrow> int" where
  "clamp v lo hi = (if v < lo then lo else if v > hi then hi else v)"

section \<open>Scores\<close>

text \<open>The conversion \<open>int(x)\<close> drops the fraction.\<close>

definition trunc :: "rat \<Rightarrow> int" where
  "trunc x = (if x < 0 then \<lceil>x\<rceil> else \<lfloor>x\<rfloor>)"

definition kev_points :: "signals \<Rightarrow> int" where
  "kev_points s =
     (if ExposedKEVCount s > 0 then 30 else if KEVCount s > 0 then 20 else 0)"

definition epss_points :: "signals \<Rightarrow> int" where
  "epss_points s =
     (if EPSSMax s \<ge> EPSSVeryHigh then 15 else if EPSSMax s \<ge> EPSSElevated then 8 else 0)"

text \<open>
  \<open>lg k n\<close> stands for the floating-point value of \<open>k*math.Log10(float64(n)+1)\<close>; the
  score uses it at \<open>k\<close> = 5 and \<open>k\<close> = 3.
\<close>

definition volume_points :: "(rat \<Rightarrow> int \<Rightarrow> rat) \<Rightarrow> rat \<Rightarrow> rat \<Rightarrow> int \<Rightarrow> int" where
  "volume_points lg cap k n = (if n > 0 then trunc (min cap (lg k n)) else 0)"

definition ThreatScore :: "(rat \<Rightarrow> int \<Rightarrow> rat) \<Rightarrow> signals \<Rightarrow> int" where
  "ThreatScore lg s =
     (let score = (if ActiveSecretCount s > 0 then 35 else 0);
          score = score + kev_points s;
          score = score + epss_points s;
          score = (if InternetExposed s \<and> KEVCount s = 0 then score + 10 else score);
          score = score + volume_points lg 15 5 (CriticalCount s);
          score = score + volume_points lg 8 3 (HighCount s)
      in clamp score 0 100)"

text \<open>\<open>penalty := int(n) * weight\<close>, at most \<open>cap\<close>, when \<open>n > 0\<close>.\<close>

definition penalty :: "int \<Rightarrow> int \<Rightarrow> int \<Rightarrow> int" where
  "penalty cap weight n =
     (if n > 0 then (let p = i64 (n * weight) in if p > cap then cap else p) else 0)"

definition TrustScore :: "signals \<Rightarrow> int" where
  "TrustScore s =
     (let score = 100;
          score = (if \<not> HasSBOM s then score - 25 else score);
          score = (if ScanAgeDays s > 30 then score - 25
                   else if ScanAgeDays s > 14 then score - 15 else score);
          score = (if AssetType s = ''repo''
                   then (if SignedCommitsPct s < 30 then score - 15
                         else if SignedCommitsPct s < 70 then score - 8 else score)
                   else score);
          score = (if AssetType s = ''image'' \<and> \<not> ImageSigned s then score - 20 else score);
          score = i64 (score - penalty 30 10 (ArchivedDepCount s));
          score = i64 (score - penalty 25 8 (DeprecatedDepCount s));
          score = (if WorstDepHealthScore s > 0 \<and> WorstDepHealthScore s < 40
                   then i64 (score - 15) else score);
          score = i64 (score - penalty 15 3 (MajorBehindDepCount s))
      in clamp score 0 100)"

definition TrustGrade :: "int \<Rightarrow> string" where
  "TrustGrade score =
     (if score \<ge> 95 then ''A''
      else if score \<ge> 90 then ''A-''
      else if score \<ge> 85 then ''B+''
      else if score \<ge> 75 then ''B''
      else if score \<ge> 70 then ''B-''
      else if score \<ge> 60 then ''C''
      else if score \<ge> 40 then ''D''
      else ''F'')"

section \<open>Tiers\<close>

definition TierFixNow :: string where "TierFixNow = ''fix_now''"
definition TierThisWeek :: string where "TierThisWeek = ''this_week''"
definition TierWatch :: string where "TierWatch = ''watch''"
definition TierDeprioritized :: string where "TierDeprioritized = ''deprioritized''"
definition TierSkip :: string where "TierSkip = ''skip''"

lemmas tier_names = TierFixNow_def TierThisWeek_def TierWatch_def TierDeprioritized_def
  TierSkip_def

definition Tier :: "signals \<Rightarrow> string" where
  "Tier s =
     (if ActiveSecretCount s > 0 then TierFixNow
      else if ExposedKEVCount s > 0 then TierFixNow
      else if KEVRansomwareCount s > 0 \<and> KEVFixableCount s > 0 then TierFixNow
      else if ExposedCriticalCount s > 0 \<and> ExposedEPSSMax s \<ge> EPSSVeryHigh then TierFixNow
      else if KEVFixableCount s > 0 then TierThisWeek
      else if KEVCount s > 0 \<and> KEVDuePassed s then TierThisWeek
      else if EPSSMax s \<ge> EPSSVeryHigh \<and> (CriticalCount s > 0 \<or> HighCount s > 0) then TierThisWeek
      else if ExposedCriticalCount s > 0 \<and> ExposedEPSSMax s \<ge> EPSSElevated then TierThisWeek
      else if KEVCount s > 0 then TierWatch
      else if EPSSMax s \<ge> EPSSElevated \<and> (CriticalCount s > 0 \<or> HighCount s > 0) then TierWatch
      else if EPSSMax s \<ge> EPSSVeryHigh then TierWatch
      else if CriticalCount s > 0 \<and> HasFixForCritical s then TierWatch
      else if InternetExposed s \<and> (CriticalCount s > 0 \<or> HighCount s > 0) then TierWatch
      else if CriticalCount s > 0 \<or> HighCount s > 0 \<or> MediumCount s > 0 \<or> LowCount s > 0
        then TierDeprioritized
      else if \<not> HasSBOM s \<or> LastScanAt s = None then TierDeprioritized
      else TierSkip)"

section \<open>The fingerprint\<close>

definition digit :: "nat \<Rightarrow> char" where
  "digit n = char_of (48 + n)"

fun decimal :: "nat \<Rightarrow> string" where
  "decimal n = (if n < 10 then [digit n] else decimal (n div 10) @ [digit (n mod 10)])"

declare decimal.simps [simp del]

text \<open>The verbs \<open>%d\<close>, \<open>%t\<close> and \<open>%.4f\<close> of \<open>fmt.Sprintf\<close>.\<close>

definition fmt_d :: "int \<Rightarrow> string" where
  "fmt_d n = (if n < 0 then ''-'' else []) @ decimal (nat \<bar>n\<bar>)"

definition fmt_t :: "bool \<Rightarrow> string" where
  "fmt_t b = (if b then ''true'' else ''false'')"

definition round_half_even :: "rat \<Rightarrow> int" where
  "round_half_even x =
     (let f = \<lfloor>x\<rfloor>; d = x - of_int f
      in if d < 1 / 2 \<or> d = 1 / 2 \<and> even f then f else f + 1)"

definition fmt_f4 :: "rat \<Rightarrow> string" where
  "fmt_f4 x =
     (let q = nat (round_half_even (\<bar>x\<bar> * 10000)); r = q mod 10000
      in (if x < 0 then ''-'' else []) @ decimal (q div 10000) @ ''.''
         @ map digit [r div 1000, r div 100 mod 10, r div 10 mod 10, r mod 10])"

definition signals_key :: "signals \<Rightarrow> string" where
  "signals_key s = join ''|''
     [''v1'', AssetType s, AssetID s,
      fmt_d (CriticalCount s), fmt_d (HighCount s), fmt_d (MediumCount s), fmt_d (LowCount s),
      fmt_d (KEVCount s), fmt_d (KEVFixableCount s), fmt_d (KEVRansomwareCount s),
      fmt_t (KEVDuePassed s), fmt_t (HasFixForCritical s), fmt_t (HasFixForHigh s),
      fmt_f4 (EPSSMax s), fmt_f4 (KEVEPSSMax s), fmt_f4 (ExposedEPSSMax s),
      fmt_d (ExposedKEVCount s), fmt_t (InternetExposed s),
      fmt_d (ClusterCount s), fmt_d (ExposedClusterCount s)]"

text \<open>\<open>sha\<close> is the hexadecimal text of the first eight bytes of SHA-256.\<close>

definition SignalsHash :: "(string \<Rightarrow> string) \<Rightarrow> signals \<Rightarrow> string" where
  "SignalsHash sha s = sha (signals_key s)"

section \<open>Reasons\<close>

text \<open>A \<open>map[string]any\<close> of counts and \<open>float32\<close> values.\<close>

datatype field_value = FInt int | FFloat float32

record reason =
  r_ID :: string
  r_Fields :: "(string \<times> field_value) list"

abbreviation reason :: "string \<Rightarrow> (string \<times> field_value) list \<Rightarrow> reason" where
  "reason i fs \<equiv> \<lparr>r_ID = i, r_Fields = fs\<rparr>"

text \<open>\<open>if c { out = append(out, r) }\<close>.\<close>

definition add_if :: "bool \<Rightarrow> 'a \<Rightarrow> 'a list \<Rightarrow> 'a list" where
  "add_if c r out' = (if c then out' @ [r] else out')"

definition kevSpecific :: "signals \<Rightarrow> bool" where
  "kevSpecific s \<longleftrightarrow> ExposedKEVCount s > 0 \<or> KEVRansomwareCount s > 0
     \<or> KEVCount s > 0 \<and> KEVDuePassed s \<or> KEVFixableCount s > 0"

definition kev_reasons :: "signals \<Rightarrow> reason list \<Rightarrow> reason list" where
  "kev_reasons s rs =
     (let rs = add_if (ExposedKEVCount s > 0)
            (reason ''kev_and_exposed'' [(''exposed_kev_count'', FInt (ExposedKEVCount s))]) rs;
          rs = add_if (KEVRansomwareCount s > 0)
            (reason ''kev_ransomware'' [(''count'', FInt (KEVRansomwareCount s))]) rs;
          rs = add_if (KEVCount s > 0 \<and> KEVDuePassed s) (reason ''kev_overdue'' []) rs;
          rs = add_if (KEVFixableCount s > 0)
            (reason ''kev_fixable'' [(''count'', FInt (KEVFixableCount s))]) rs
      in add_if (KEVCount s > 0 \<and> \<not> kevSpecific s)
            (reason ''kev_present'' [(''kev_count'', FInt (KEVCount s))]) rs)"

definition dep_reason :: "signals \<Rightarrow> reason" where
  "dep_reason s =
     (if CriticalCount s > 0 \<and> \<not> HasFixForCritical s \<or> HighCount s > 0 \<and> \<not> HasFixForHigh s
      then reason ''no_fix_available''
             [(''critical'', FInt (CriticalCount s)), (''high'', FInt (HighCount s))]
      else if CriticalCount s > 0 \<or> HighCount s > 0
      then reason ''low_epss_not_exposed''
             [(''epss_max'', FFloat (EPSSMax s)), (''critical'', FInt (CriticalCount s)),
              (''high'', FInt (HighCount s))]
      else if MediumCount s > 0 \<or> LowCount s > 0
      then reason ''low_severity_only''
             [(''medium'', FInt (MediumCount s)), (''low'', FInt (LowCount s))]
      else reason ''no_scan_data'' [(''scan_age_days'', FInt (ScanAgeDays s))])"

definition TierReasons :: "signals \<Rightarrow> string \<Rightarrow> reason list" where
  "TierReasons s tier =
     (let rs = add_if (ActiveSecretCount s > 0)
            (reason ''active_secret_leak'' [(''count'', FInt (ActiveSecretCount s))]) [];
          rs = kev_reasons s rs;
          rs = (if EPSSMax s \<ge> EPSSVeryHigh
                then rs @ [reason ''epss_very_high'' [(''epss_max'', FFloat (EPSSMax s))]]
                else if EPSSMax s \<ge> EPSSElevated
                then rs @ [reason ''epss_elevated'' [(''epss_max'', FFloat (EPSSMax s))]]
                else rs);
          rs = add_if (ExposedCriticalCount s > 0)
            (reason ''exposed_critical'' [(''critical'', FInt (ExposedCriticalCount s))]) rs;
          rs = add_if (CriticalCount s > 0 \<and> HasFixForCritical s)
            (reason ''critical_fixable'' [(''critical'', FInt (CriticalCount s))]) rs
      in if tier = TierDeprioritized then dep_reason s # rs else rs)"

definition ContextReasons :: "signals \<Rightarrow> reason list" where
  "ContextReasons s =
     (let rs = add_if (ScanAgeDays s > 30)
            (reason ''scan_stale'' [(''days'', FInt (ScanAgeDays s))]) [];
          rs = add_if (AssetType s = ''repo'' \<and> SignedCommitsPct s < 50)
            (reason ''low_commit_signing'' [(''signed_pct'', FFloat (SignedCommitsPct s))]) rs;
          rs = add_if (AssetType s = ''image'' \<and> \<not> ImageSigned s)
            (reason ''image_unsigned'' []) rs;
          rs = add_if (\<not> HasSBOM s) (reason ''no_sbom'' []) rs;
          rs = add_if (ArchivedDepCount s > 0)
            (reason ''archived_deps'' [(''count'', FInt (ArchivedDepCount s))]) rs;
          rs = add_if (DeprecatedDepCount s > 0)
            (reason ''deprecated_deps'' [(''count'', FInt (DeprecatedDepCount s))]) rs;
          rs = add_if (WorstDepHealthScore s > 0 \<and> WorstDepHealthScore s < 40)
            (reason ''low_dep_health'' [(''worst_score'', FFloat (WorstDepHealthScore s))]) rs
      in add_if (MajorBehindDepCount s > 0)
            (reason ''major_behind'' [(''count'', FInt (MajorBehindDepCount s)),
               (''max_major'', FInt (MaxMajorBehind s))]) rs)"

section \<open>The bands of the tier rules\<close>

text \<open>The rules of each tier as one condition; the tiers in order of urgency.\<close>

definition exploited_reachable :: "signals \<Rightarrow> bool" where
  "exploited_reachable s \<longleftrightarrow> ActiveSecretCount s > 0 \<or> ExposedKEVCount s > 0
     \<or> KEVRansomwareCount s > 0 \<and> KEVFixableCount s > 0
     \<or> ExposedCriticalCount s > 0 \<and> ExposedEPSSMax s \<ge> EPSSVeryHigh"

definition severe :: "signals \<Rightarrow> bool" where
  "severe s \<longleftrightarrow> CriticalCount s > 0 \<or> HighCount s > 0"

definition likely_exploited :: "signals \<Rightarrow> bool" where
  "likely_exploited s \<longleftrightarrow> KEVFixableCount s > 0 \<or> KEVCount s > 0 \<and> KEVDuePassed s
     \<or> EPSSMax s \<ge> EPSSVeryHigh \<and> severe s
     \<or> ExposedCriticalCount s > 0 \<and> ExposedEPSSMax s \<ge> EPSSElevated"

definition real_risk :: "signals \<Rightarrow> bool" where
  "real_risk s \<longleftrightarrow> KEVCount s > 0 \<or> EPSSMax s \<ge> EPSSElevated \<and> severe s
     \<or> EPSSMax s \<ge> EPSSVeryHigh \<or> CriticalCount s > 0 \<and> HasFixForCritical s
     \<or> InternetExposed s \<and> severe s"

definition has_findings :: "signals \<Rightarrow> bool" where
  "has_findings s \<longleftrightarrow> severe s \<or> MediumCount s > 0 \<or> LowCount s > 0"

definition unscanned :: "signals \<Rightarrow> bool" where
  "unscanned s \<longleftrightarrow> \<not> HasSBOM s \<or> LastScanAt s = None"

lemmas band_defs = exploited_reachable_def likely_exploited_def real_risk_def has_findings_def
  severe_def unscanned_def

definition urgency :: "string \<Rightarrow> nat" where
  "urgency t = (if t = TierFixNow then 4 else if t = TierThisWeek then 3
     else if t = TierWatch then 2 else if t = TierDeprioritized then 1 else 0)"

lemma tiers_distinct [simp]:
  "TierFixNow \<noteq> TierThisWeek" "TierFixNow \<noteq> TierWatch" "TierFixNow \<noteq> TierDeprioritized"
  "TierFixNow \<noteq> TierSkip" "TierThisWeek \<noteq> TierFixNow" "TierThisWeek \<noteq> TierWatch"
  "TierThisWeek \<noteq> TierDeprioritized" "TierThisWeek \<noteq> TierSkip" "TierWatch \<noteq> TierFixNow"
  "TierWatch \<noteq> TierThisWeek" "TierWatch \<noteq> TierDeprioritized" "TierWatch \<noteq> TierSkip"
  "TierDeprioritized \<noteq> TierFixNow" "TierDeprioritized \<noteq> TierThisWeek"
  "TierDeprioritized \<noteq> TierWatch" "TierDeprioritized \<noteq> TierSkip"
  "TierSkip \<noteq> TierFixNow" "TierSkip \<noteq> TierThisWeek" "TierSkip \<noteq> TierWatch"
  "TierSkip \<noteq> TierDeprioritized"
  by (simp_all add: tier_names)

lemma Tier_bands:
  "Tier s = (if exploited_reachable s then TierFixNow
     else if likely_exploited s then TierThisWeek
     else if real_risk s then TierWatch
     else if has_findings s \<or> unscanned s then TierDeprioritized else TierSkip)"
proof -
  consider (fix_now) "exploited_reachable s" | (week) "\<not> exploited_reachable s" "likely_exploited s"
    | (watch) "\<not> exploited_reachable s" "\<not> likely_exploited s" "real_risk s"
    | (rest) "\<not> exploited_reachable s" "\<not> likely_exploited s" "\<not> real_risk s"
    by blast
  then show ?thesis by cases (simp add: Tier_def band_defs; auto)+
qed

lemma urgency_Tier:
  "urgency (Tier s) = (if exploited_reachable s then 4 else if likely_exploited s then 3
     else if real_risk s then 2 else if has_findings s \<or> unscanned s then 1 else 0)"
  by (simp add: Tier_bands urgency_def)

section \<open>More risk never lowers a tier\<close>

text \<open>
  \<open>riskier s t\<close>: every vulnerability signal of \<open>t\<close> is at least that of \<open>s\<close>,
  and \<open>t\<close> is not better scanned. The posture fields are free.
\<close>

definition riskier :: "signals \<Rightarrow> signals \<Rightarrow> bool" where
  "riskier s t \<longleftrightarrow>
     ActiveSecretCount s \<le> ActiveSecretCount t \<and> ExposedKEVCount s \<le> ExposedKEVCount t
     \<and> KEVRansomwareCount s \<le> KEVRansomwareCount t \<and> KEVFixableCount s \<le> KEVFixableCount t
     \<and> ExposedCriticalCount s \<le> ExposedCriticalCount t \<and> ExposedEPSSMax s \<le> ExposedEPSSMax t
     \<and> KEVCount s \<le> KEVCount t \<and> KEVDuePassed s \<le> KEVDuePassed t \<and> EPSSMax s \<le> EPSSMax t
     \<and> CriticalCount s \<le> CriticalCount t \<and> HighCount s \<le> HighCount t
     \<and> HasFixForCritical s \<le> HasFixForCritical t \<and> InternetExposed s \<le> InternetExposed t
     \<and> MediumCount s \<le> MediumCount t \<and> LowCount s \<le> LowCount t
     \<and> unscanned s \<le> unscanned t"

lemma severe_mono: "riskier s t \<Longrightarrow> severe s \<Longrightarrow> severe t"
  unfolding severe_def riskier_def by linarith

lemma exploited_reachable_mono:
  "riskier s t \<Longrightarrow> exploited_reachable s \<Longrightarrow> exploited_reachable t"
  unfolding exploited_reachable_def riskier_def by auto

lemma likely_exploited_mono:
  assumes "riskier s t" "likely_exploited s"
  shows "likely_exploited t"
  using assms severe_mono [OF assms(1)] unfolding likely_exploited_def riskier_def
  by auto

lemma real_risk_mono:
  assumes "riskier s t" "real_risk s"
  shows "real_risk t"
  using assms severe_mono [OF assms(1)] unfolding real_risk_def riskier_def
  by auto

lemma findings_mono:
  assumes "riskier s t" "has_findings s \<or> unscanned s"
  shows "has_findings t \<or> unscanned t"
proof -
  have "unscanned s \<Longrightarrow> unscanned t" using assms(1) by (simp add: riskier_def)
  moreover have "has_findings s \<Longrightarrow> has_findings t"
    using assms(1) severe_mono [OF assms(1)] unfolding has_findings_def riskier_def by linarith
  ultimately show ?thesis using assms(2) by blast
qed

lemma Tier_mono:
  assumes "riskier s t"
  shows "urgency (Tier s) \<le> urgency (Tier t)"
  unfolding urgency_Tier
  using exploited_reachable_mono [OF assms] likely_exploited_mono [OF assms]
    real_risk_mono [OF assms] findings_mono [OF assms] by auto

lemma trunc_mono: "x \<le> y \<Longrightarrow> trunc x \<le> trunc y"
proof -
  assume "x \<le> y"
  moreover have "x < 0 \<Longrightarrow> 0 \<le> y \<Longrightarrow> \<lceil>x\<rceil> \<le> \<lfloor>y\<rfloor>"
  proof -
    assume "x < 0" "0 \<le> y"
    then have "\<lceil>x\<rceil> \<le> 0" "0 \<le> \<lfloor>y\<rfloor>" by (simp_all add: ceiling_le_iff)
    then show ?thesis by linarith
  qed
  ultimately show ?thesis by (simp add: trunc_def floor_mono ceiling_mono)
qed

lemma volume_points_mono:
  assumes "m \<le> n" "0 \<le> cap" "\<And>a b. 0 < a \<Longrightarrow> a \<le> b \<Longrightarrow> 0 \<le> lg k a \<and> lg k a \<le> lg k b"
  shows "volume_points lg cap k m \<le> volume_points lg cap k n"
proof (cases "m > 0")
  case True
  then have "min cap (lg k m) \<le> min cap (lg k n)"
    using assms(1) assms(3) [of m n] by (intro min.mono) simp_all
  then show ?thesis using True assms(1) by (simp add: volume_points_def trunc_mono)
next
  case False
  have "0 \<le> trunc (min cap (lg k n))" if "n > 0"
    using trunc_mono [of 0 "min cap (lg k n)"] assms(2) assms(3) [of n n] that
    by (simp add: trunc_def)
  then show ?thesis using False by (simp add: volume_points_def)
qed

lemma clamp_mono: "v \<le> w \<Longrightarrow> clamp v lo hi \<le> clamp w lo hi" if "lo \<le> hi"
  using that by (simp add: clamp_def)

lemma clamp_bounds: "lo \<le> hi \<Longrightarrow> lo \<le> clamp v lo hi \<and> clamp v lo hi \<le> hi"
  by (simp add: clamp_def)

lemma exposure_points_mono:
  assumes "riskier s t" "ExposedKEVCount s \<le> KEVCount s" "0 \<le> KEVCount s"
  shows "kev_points s + (if InternetExposed s \<and> KEVCount s = 0 then 10 else 0)
     \<le> kev_points t + (if InternetExposed t \<and> KEVCount t = 0 then 10 else 0)"
  using assms by (auto simp: riskier_def kev_points_def)

lemma epss_points_mono: "riskier s t \<Longrightarrow> epss_points s \<le> epss_points t"
  by (auto simp: riskier_def epss_points_def)

lemma ThreatScore_sum:
  "ThreatScore lg s = clamp ((if ActiveSecretCount s > 0 then 35 else 0)
     + (kev_points s + (if InternetExposed s \<and> KEVCount s = 0 then 10 else 0))
     + epss_points s + volume_points lg 15 5 (CriticalCount s)
     + volume_points lg 8 3 (HighCount s)) 0 100"
  by (simp add: ThreatScore_def Let_def algebra_simps)

lemma ThreatScore_mono:
  assumes r: "riskier s t" and k: "ExposedKEVCount s \<le> KEVCount s" "0 \<le> KEVCount s"
    and lg: "\<And>k a b. k = 3 \<or> k = 5 \<Longrightarrow> 0 < a \<Longrightarrow> a \<le> b \<Longrightarrow> 0 \<le> lg k a \<and> lg k a \<le> lg k b"
  shows "ThreatScore lg s \<le> ThreatScore lg t"
proof -
  have "(if ActiveSecretCount s > 0 then 35 else 0) \<le> (if ActiveSecretCount t > 0 then 35 else (0::int))"
    using r by (simp add: riskier_def)
  moreover have "CriticalCount s \<le> CriticalCount t" "HighCount s \<le> HighCount t"
    using r by (simp_all add: riskier_def)
  then have "volume_points lg 15 5 (CriticalCount s) \<le> volume_points lg 15 5 (CriticalCount t)"
    "volume_points lg 8 3 (HighCount s) \<le> volume_points lg 8 3 (HighCount t)"
    using lg [of 5] lg [of 3] by (simp_all add: volume_points_mono)
  ultimately show ?thesis
    unfolding ThreatScore_sum using exposure_points_mono [OF r k] epss_points_mono [OF r]
    by (intro clamp_mono) linarith+
qed

text \<open>C31. More risk never lowers an asset in the triage. When every vulnerability signal of one
  asset is at least that of another and it is not better scanned, its tier is at least as urgent
  and its threat score at least as high, whatever the posture of the two; a threat score is
  between 0 and 100. The two multiples of the logarithm that the score uses, by 3 and by 5, are
  assumed non-negative and increasing on positive counts; an asset has no more exposed KEV
  findings than KEV findings.\<close>

theorem risk_monotone:
  assumes "riskier s t" "ExposedKEVCount s \<le> KEVCount s" "0 \<le> KEVCount s"
    and "\<And>k a b. k = 3 \<or> k = 5 \<Longrightarrow> 0 < a \<Longrightarrow> a \<le> b \<Longrightarrow> 0 \<le> lg k a \<and> lg k a \<le> lg k b"
  shows "urgency (Tier s) \<le> urgency (Tier t)
    \<and> 0 \<le> ThreatScore lg s \<and> ThreatScore lg s \<le> ThreatScore lg t \<and> ThreatScore lg t \<le> 100"
  using Tier_mono [OF assms(1)] ThreatScore_mono [OF assms]
    clamp_bounds [of 0 100] unfolding ThreatScore_sum by auto

text \<open>A baseline row: a scanned image without findings.\<close>

definition scanned :: signals where
  "scanned = \<lparr>AssetType = ''image'', AssetID = ''7'', AssetSlug = ''app'', ImageDigest = ''sha256:1'',
     CriticalCount = 0, HighCount = 0, KEVCount = 0, EPSSMax = 0, HasFixForCritical = False,
     ActiveSecretCount = 0, InternetExposed = False, SignedCommitsPct = 0, ImageSigned = False,
     ScanAgeDays = 0, LastScanAt = Some 0, HasSBOM = True, WorstDepHealthScore = 0,
     ArchivedDepCount = 0, DeprecatedDepCount = 0, MaxMajorBehind = 0, MajorBehindDepCount = 0,
     MediumCount = 0, LowCount = 0, HasFixForHigh = False, KEVFixableCount = 0,
     KEVRansomwareCount = 0, KEVDuePassed = False, KEVEPSSMax = 0, ExposedKEVCount = 0,
     ExposedCriticalCount = 0, ExposedEPSSMax = 0, ClusterCount = 0, ExposedClusterCount = 0\<rparr>"

lemmas tier_eval = scanned_def Tier_def EPSSVeryHigh_def EPSSElevated_def

theorem risk_monotone_witness:
  "\<exists>s t. riskier s t \<and> urgency (Tier s) = 1 \<and> urgency (Tier s) \<le> urgency (Tier t)
     \<and> ThreatScore (\<lambda>k n. k * of_int n) s \<le> ThreatScore (\<lambda>k n. k * of_int n) t"
proof -
  let ?s = "scanned\<lparr>HighCount := 1\<rparr>" and ?t = "scanned\<lparr>HighCount := 2, KEVCount := 1\<rparr>"
  have r: "riskier ?s ?t" by (simp add: scanned_def riskier_def unscanned_def)
  have lg: "0 \<le> k * rat_of_int a \<and> k * rat_of_int a \<le> k * rat_of_int b"
    if "k = 3 \<or> k = 5" "0 < a" "a \<le> b" for k a b
    using that by auto
  have "urgency (Tier ?s) = 1" by (simp add: tier_eval urgency_def)
  moreover have "ExposedKEVCount ?s \<le> KEVCount ?s" "0 \<le> KEVCount ?s" by (simp_all add: scanned_def)
  ultimately show ?thesis
    using r risk_monotone [of ?s ?t "\<lambda>k n. k * of_int n"] lg by blast
qed

section \<open>Posture\<close>

text \<open>Two assets with the same vulnerability signals.\<close>

definition same_risk :: "signals \<Rightarrow> signals \<Rightarrow> bool" where
  "same_risk s t \<longleftrightarrow>
     ActiveSecretCount s = ActiveSecretCount t \<and> ExposedKEVCount s = ExposedKEVCount t
     \<and> KEVRansomwareCount s = KEVRansomwareCount t \<and> KEVFixableCount s = KEVFixableCount t
     \<and> ExposedCriticalCount s = ExposedCriticalCount t \<and> ExposedEPSSMax s = ExposedEPSSMax t
     \<and> KEVCount s = KEVCount t \<and> KEVDuePassed s = KEVDuePassed t \<and> EPSSMax s = EPSSMax t
     \<and> CriticalCount s = CriticalCount t \<and> HighCount s = HighCount t
     \<and> HasFixForCritical s = HasFixForCritical t \<and> InternetExposed s = InternetExposed t
     \<and> MediumCount s = MediumCount t \<and> LowCount s = LowCount t"

lemma same_risk_bands:
  assumes "same_risk s t"
  shows "exploited_reachable s = exploited_reachable t" "likely_exploited s = likely_exploited t"
    "real_risk s = real_risk t" "has_findings s = has_findings t"
  using assms by (simp_all add: same_risk_def band_defs)

lemma same_risk_threat: "same_risk s t \<Longrightarrow> ThreatScore lg s = ThreatScore lg t"
  by (simp add: same_risk_def ThreatScore_sum kev_points_def epss_points_def)

text \<open>C32. Posture never makes an asset urgent. Two assets with the same vulnerability signals
  have the same threat score, and the same tier unless exactly one of them lacks an SBOM or a
  scan and neither has findings: then one is deprioritized and the other skipped.\<close>

theorem posture_moves_only_skip:
  assumes "same_risk s t"
  shows "ThreatScore lg s = ThreatScore lg t
    \<and> (Tier s = Tier t
       \<or> unscanned s \<noteq> unscanned t \<and> {Tier s, Tier t} = {TierDeprioritized, TierSkip})"
  using same_risk_threat [OF assms] same_risk_bands [OF assms]
  by (auto simp: Tier_bands)

theorem posture_moves_only_skip_witness:
  "\<exists>s t. same_risk s t \<and> Tier s = TierSkip \<and> Tier t = TierDeprioritized
     \<and> ThreatScore (\<lambda>k n. k) s = ThreatScore (\<lambda>k n. k) t"
proof -
  let ?t = "scanned\<lparr>HasSBOM := False\<rparr>"
  have "same_risk scanned ?t" "Tier scanned = TierSkip" "Tier ?t = TierDeprioritized"
    by (simp_all add: tier_eval same_risk_def)
  then show ?thesis using posture_moves_only_skip by blast
qed

section \<open>Which rows have reasons\<close>

lemma add_if_append: "add_if c r rs = rs @ (if c then [r] else [])"
  by (simp add: add_if_def)

lemma kev_reasons_empty:
  "kev_reasons s rs = [] \<longleftrightarrow> rs = [] \<and> \<not> kevSpecific s \<and> \<not> KEVCount s > 0"
  by (auto simp: kev_reasons_def kevSpecific_def Let_def add_if_def)

lemma TierReasons_empty:
  "TierReasons s tier = [] \<longleftrightarrow>
     tier \<noteq> TierDeprioritized \<and> \<not> ActiveSecretCount s > 0 \<and> \<not> kevSpecific s \<and> \<not> KEVCount s > 0
     \<and> EPSSMax s < EPSSElevated \<and> EPSSMax s < EPSSVeryHigh \<and> \<not> ExposedCriticalCount s > 0
     \<and> \<not> (CriticalCount s > 0 \<and> HasFixForCritical s)"
  by (auto simp: TierReasons_def Let_def add_if_append kev_reasons_empty not_le)

text \<open>The one rule whose condition is not among the reasons: severe findings on an exposed asset.\<close>

definition exposed_severe_only :: "signals \<Rightarrow> bool" where
  "exposed_severe_only s \<longleftrightarrow> InternetExposed s \<and> severe s \<and> \<not> ActiveSecretCount s > 0
     \<and> \<not> kevSpecific s \<and> \<not> KEVCount s > 0 \<and> EPSSMax s < EPSSElevated
     \<and> \<not> ExposedCriticalCount s > 0 \<and> \<not> (CriticalCount s > 0 \<and> HasFixForCritical s)"

lemma elevated_le_very_high: "EPSSElevated \<le> EPSSVeryHigh"
  by (simp add: EPSSElevated_def EPSSVeryHigh_def)

lemma exposed_severe_only_watch: "exposed_severe_only s \<Longrightarrow> Tier s = TierWatch"
  using elevated_le_very_high
  by (auto simp: Tier_bands exposed_severe_only_def exploited_reachable_def likely_exploited_def
      real_risk_def kevSpecific_def)

text \<open>C33. Which rows of the triage carry a reason. A row outside the skipped tier has an empty
  list of reasons exactly when it is watched only because severe findings sit on an exposed
  asset; every fix-now, this-week and deprioritized row has one, and the first reason of a
  deprioritized row is the decision that parked it.\<close>

theorem TierReasons_empty_iff:
  assumes "Tier s \<noteq> TierSkip"
  shows "(TierReasons s (Tier s) = [] \<longleftrightarrow> exposed_severe_only s)
    \<and> (exposed_severe_only s \<longrightarrow> Tier s = TierWatch)
    \<and> (Tier s = TierDeprioritized \<longrightarrow> hd (TierReasons s (Tier s)) = dep_reason s)"
proof (intro conjI impI iffI)
  assume empty: "TierReasons s (Tier s) = []"
  then have "\<not> exploited_reachable s" "\<not> likely_exploited s"
    using elevated_le_very_high
    by (auto simp: TierReasons_empty exploited_reachable_def likely_exploited_def kevSpecific_def)
  then have "real_risk s"
    using assms empty by (auto simp: Tier_bands TierReasons_empty split: if_splits)
  then show "exposed_severe_only s"
    using empty by (auto simp: TierReasons_empty real_risk_def exposed_severe_only_def)
next
  assume e: "exposed_severe_only s"
  show w: "Tier s = TierWatch" by (rule exposed_severe_only_watch [OF e])
  show "TierReasons s (Tier s) = []"
    using e elevated_le_very_high unfolding w by (auto simp: TierReasons_empty exposed_severe_only_def)
next
  assume "Tier s = TierDeprioritized"
  then show "hd (TierReasons s (Tier s)) = dep_reason s" by (simp add: TierReasons_def Let_def)
qed

theorem TierReasons_empty_iff_witness:
  "Tier (scanned\<lparr>HighCount := 1, InternetExposed := True\<rparr>) \<noteq> TierSkip
   \<and> TierReasons (scanned\<lparr>HighCount := 1, InternetExposed := True\<rparr>) TierWatch = []"
proof -
  let ?s = "scanned\<lparr>HighCount := 1, InternetExposed := True\<rparr>"
  have t: "Tier ?s = TierWatch" by (simp add: tier_eval)
  have "exposed_severe_only ?s"
    by (simp add: scanned_def exposed_severe_only_def severe_def kevSpecific_def EPSSElevated_def)
  then show ?thesis using TierReasons_empty_iff [of ?s] unfolding t by simp
qed

section \<open>The fingerprint misses signals\<close>

text \<open>C34. The fingerprint of an asset does not determine its tier: a leaked live credential
  moves a clean asset from skipped to fix-now, and a critical finding becoming reachable moves
  one from this-week to fix-now, both with the fingerprint unchanged.\<close>

theorem SignalsHash_misses_tier:
  "(\<exists>s t. SignalsHash sha s = SignalsHash sha t \<and> Tier s = TierSkip \<and> Tier t = TierFixNow
      \<and> t = s\<lparr>ActiveSecretCount := 1\<rparr>)
   \<and> (\<exists>s t. SignalsHash sha s = SignalsHash sha t \<and> Tier s = TierThisWeek \<and> Tier t = TierFixNow
      \<and> t = s\<lparr>ExposedCriticalCount := 1\<rparr>)"
proof (intro conjI exI)
  let ?s = "scanned\<lparr>CriticalCount := 1, EPSSMax := 1 / 2, ExposedEPSSMax := 1 / 2\<rparr>"
  show "SignalsHash sha scanned = SignalsHash sha (scanned\<lparr>ActiveSecretCount := 1\<rparr>)"
    "SignalsHash sha ?s = SignalsHash sha (?s\<lparr>ExposedCriticalCount := 1\<rparr>)"
    by (simp_all add: SignalsHash_def signals_key_def)
  show "Tier scanned = TierSkip" "Tier (scanned\<lparr>ActiveSecretCount := 1\<rparr>) = TierFixNow"
    "Tier ?s = TierThisWeek" "Tier (?s\<lparr>ExposedCriticalCount := 1\<rparr>) = TierFixNow"
    by (simp_all add: tier_eval)
qed (rule refl)+

end
