(* ===== verification/ACL_Grants.thy ===== *)
theory ACL_Grants
  imports Go_Prelude
begin

text \<open>
  Grants of the package \<open>internal/acl\<close>: scope patterns and subjects
  (\<open>models.go\<close>, \<open>subject.go\<close>), the provider interface with its local, ROR and
  chained implementations (\<open>provider.go\<close>, \<open>ror_provider.go\<close>), the default
  grants of a newly ingested repository (\<open>ingest.go\<close>), and the administrator's
  creation and deletion of grants (\<open>uiapi/admin_acl.go\<close>).

  A provider is a function from a subject and a scope type to an error or the patterns
  granted. The locale \<open>acl_provider\<close> states what the rest of the code relies on.
\<close>

section \<open>Patterns and subjects\<close>

record scope_pattern =
  sp_provider :: string
  sp_instance :: string
  sp_owner :: string
  sp_slug :: string
  sp_cluster :: string
  sp_registry :: string
  sp_repository :: string
  sp_digest :: string

definition wildcard :: scope_pattern where
  "wildcard = \<lparr>sp_provider = [], sp_instance = [], sp_owner = [], sp_slug = [], sp_cluster = [],
     sp_registry = [], sp_repository = [], sp_digest = []\<rparr>"

definition IsWildcard :: "scope_pattern \<Rightarrow> bool" where
  "IsWildcard p \<longleftrightarrow> p = wildcard"

text \<open>\<open>json.Unmarshal\<close> into a pattern: keys it does not know are ignored.\<close>

definition decode_pattern :: "json \<Rightarrow> scope_pattern option" where
  "decode_pattern v =
     (case (string_field v ''provider'', string_field v ''provider_instance_id'', string_field v ''owner'',
            string_field v ''slug'', string_field v ''cluster_id'', string_field v ''registry'',
            string_field v ''repository'', string_field v ''digest'') of
        (Some a, Some b, Some c, Some d, Some e, Some f, Some g, Some h) \<Rightarrow>
          Some \<lparr>sp_provider = a, sp_instance = b, sp_owner = c, sp_slug = d, sp_cluster = e,
                sp_registry = f, sp_repository = g, sp_digest = h\<rparr>
      | _ \<Rightarrow> None)"

text \<open>\<open>json.Marshal\<close>: every field is \<open>omitempty\<close>.\<close>

definition nonempty_field :: "string \<Rightarrow> string \<Rightarrow> (string \<times> json) list" where
  "nonempty_field k v = (if v = [] then [] else [(k, JStr v)])"

definition encode_pattern :: "scope_pattern \<Rightarrow> json" where
  "encode_pattern p =
     JObj (nonempty_field ''provider'' (sp_provider p) @
           nonempty_field ''provider_instance_id'' (sp_instance p) @
           nonempty_field ''owner'' (sp_owner p) @ nonempty_field ''slug'' (sp_slug p) @
           nonempty_field ''cluster_id'' (sp_cluster p) @ nonempty_field ''registry'' (sp_registry p) @
           nonempty_field ''repository'' (sp_repository p) @ nonempty_field ''digest'' (sp_digest p))"

record subject =
  su_user :: string
  su_groups :: "string list"
  su_admin :: bool
  su_global :: bool

text \<open>The subject of a request no middleware has seen.\<close>

definition zero_subject :: subject where
  "zero_subject = \<lparr>su_user = [], su_groups = [], su_admin = False, su_global = False\<rparr>"

definition SubjectUser :: string where "SubjectUser = ''user''"
definition SubjectGroup :: string where "SubjectGroup = ''group''"
definition ScopeRepo :: string where "ScopeRepo = ''repo''"
definition ScopeCluster :: string where "ScopeCluster = ''cluster''"
definition ScopeImage :: string where "ScopeImage = ''image''"
definition ActionRead :: string where "ActionRead = ''read''"
definition SourceExplicit :: string where "SourceExplicit = ''explicit''"
definition SourceIngestDefault :: string where "SourceIngestDefault = ''ingest_default''"

lemmas acl_const_defs = SubjectUser_def SubjectGroup_def ScopeRepo_def ScopeCluster_def ScopeImage_def
  ActionRead_def SourceExplicit_def SourceIngestDefault_def

section \<open>The grants table and its provider\<close>

text \<open>A row of \<open>acl_grants\<close>; \<open>None\<close> stands for an empty pattern column.\<close>

record grant =
  g_id :: string
  g_subject_type :: string
  g_subject_id :: string
  g_scope_type :: string
  g_pattern :: "json option"
  g_action :: string
  g_source :: string
  g_created_at :: go_time
  g_created_by :: string

datatype acl_err = ACLUnavailable

type_synonym provider = "subject \<Rightarrow> string \<Rightarrow> acl_err + scope_pattern list"

definition grant_applies :: "subject \<Rightarrow> string \<Rightarrow> grant \<Rightarrow> bool" where
  "grant_applies subj scopeType g \<longleftrightarrow>
     g_scope_type g = scopeType \<and> g_action g = ActionRead \<and>
     (if su_user subj \<noteq> [] \<and> su_groups subj \<noteq> [] then
        (g_subject_type g = SubjectUser \<and> g_subject_id g = su_user subj) \<or>
        (g_subject_type g = SubjectGroup \<and> g_subject_id g \<in> set (su_groups subj))
      else if su_user subj \<noteq> [] then
        g_subject_type g = SubjectUser \<and> g_subject_id g = su_user subj
      else g_subject_type g = SubjectGroup \<and> g_subject_id g \<in> set (su_groups subj))"

definition grant_pattern :: "grant \<Rightarrow> scope_pattern option" where
  "grant_pattern g = (case g_pattern g of None \<Rightarrow> Some wildcard | Some v \<Rightarrow> decode_pattern v)"

definition local_Grants :: "bool \<Rightarrow> grant list \<Rightarrow> provider" where
  "local_Grants ok table subj scopeType =
     (if su_user subj = [] \<and> su_groups subj = [] then Inr []
      else if \<not> ok then Inl ACLUnavailable
      else Inr (List.map_filter grant_pattern (filter (grant_applies subj scopeType) table)))"

fun chain_Grants :: "provider list \<Rightarrow> provider" where
  "chain_Grants [] subj scopeType = Inr []"
| "chain_Grants (p # ps) subj scopeType =
     (case p subj scopeType of
        Inl e \<Rightarrow> Inl e
      | Inr gs \<Rightarrow>
          (case chain_Grants ps subj scopeType of Inl e \<Rightarrow> Inl e | Inr hs \<Rightarrow> Inr (gs @ hs)))"

section \<open>The ROR provider\<close>

record lookup_access =
  la_read :: bool
  la_create :: bool
  la_update :: bool
  la_delete :: bool
  la_owner :: bool
  la_kuberneteslogon :: bool

text \<open>A \<open>LookupResponse\<close>: \<open>None\<close> for a nil map. Go walks maps in no fixed order; the
  lists stand for one such order.\<close>

type_synonym lookup = "(string \<times> (string \<times> lookup_access) list) list option"

definition GlobalScopeSubject :: string where "GlobalScopeSubject = ''globalscope''"

definition cluster_pattern :: "string \<Rightarrow> scope_pattern" where
  "cluster_pattern i = wildcard\<lparr>sp_cluster := i\<rparr>"

definition patternsFromLookup :: "lookup \<Rightarrow> scope_pattern list" where
  "patternsFromLookup l =
     (case l of
        None \<Rightarrow> []
      | Some scopes \<Rightarrow>
          if (case map_of scopes ''ror'' of
                None \<Rightarrow> False
              | Some subjects \<Rightarrow>
                  (case map_of subjects GlobalScopeSubject of None \<Rightarrow> False | Some a \<Rightarrow> la_read a))
          then [wildcard]
          else (case map_of scopes ''cluster'' of
                  None \<Rightarrow> []
                | Some subjects \<Rightarrow>
                    map cluster_pattern
                      (filter (\<lambda>i. i \<noteq> [])
                        (map (\<lambda>(i, a). trim_space i) (filter (\<lambda>(i, a). la_read a) subjects)))))"

definition RORProviderTTL :: duration where "RORProviderTTL = 2 * minute"

definition rorCacheKey :: "string \<Rightarrow> string" where
  "rorCacheKey userID = ''acl:ror:lookup:'' @ userID"

text \<open>
  \<open>fetch\<close>: \<open>get\<close> is the cache, \<open>None\<close> on a miss or a cache error;
  \<open>call\<close> the ROR client. The result comes with the cache entry it writes.
\<close>

definition ror_fetch ::
    "(string \<Rightarrow> lookup option) \<Rightarrow> (string \<Rightarrow> acl_err + lookup) \<Rightarrow> string \<Rightarrow> string
       \<Rightarrow> lookup option \<times> (string \<times> lookup \<times> duration) option" where
  "ror_fetch get call userID token =
     (let key = rorCacheKey userID in
      case get key of
        Some hit \<Rightarrow> (Some hit, None)
      | None \<Rightarrow>
          (case call token of
             Inl e \<Rightarrow> (None, Some (key, None, RORProviderTTL))
           | Inr l \<Rightarrow> (Some l, Some (key, l, RORProviderTTL))))"

definition ror_Grants ::
    "(string \<Rightarrow> lookup option) \<Rightarrow> (string \<Rightarrow> acl_err + lookup) \<Rightarrow> string \<Rightarrow> provider" where
  "ror_Grants get call token subj scopeType =
     (if scopeType \<noteq> ScopeCluster \<or> token = [] \<or> su_user subj = [] then Inr []
      else (case fst (ror_fetch get call (su_user subj) token) of
              None \<Rightarrow> Inr []
            | Some l \<Rightarrow> Inr (patternsFromLookup l)))"

section \<open>Writing grants\<close>

text \<open>The unique index \<open>ux_acl_grant_identity\<close>.\<close>

definition same_identity :: "grant \<Rightarrow> grant \<Rightarrow> bool" where
  "same_identity g h \<longleftrightarrow>
     g_subject_type g = g_subject_type h \<and> g_subject_id g = g_subject_id h \<and>
     g_scope_type g = g_scope_type h \<and> g_pattern g = g_pattern h \<and> g_action g = g_action h"

text \<open>An insert can clash with the primary key or with that index.\<close>

datatype insert_clash = PrimaryKeyClash | IdentityClash

definition insert_grant :: "grant \<Rightarrow> grant list \<Rightarrow> insert_clash + grant list" where
  "insert_grant g table =
     (if list_ex (\<lambda>h. g_id h = g_id g) table then Inl PrimaryKeyClash
      else if list_ex (same_identity g) table then Inl IdentityClash
      else Inr (table @ [g]))"

record repo_identity =
  ri_provider :: string
  ri_instance :: string
  ri_owner :: string
  ri_slug :: string

definition repo_pattern :: "repo_identity \<Rightarrow> scope_pattern" where
  "repo_pattern r =
     wildcard\<lparr>sp_provider := ri_provider r, sp_instance := ri_instance r, sp_owner := ri_owner r,
              sp_slug := ri_slug r\<rparr>"

definition ingest_grant :: "go_time \<Rightarrow> string \<Rightarrow> repo_identity \<Rightarrow> string \<times> string \<Rightarrow> grant" where
  "ingest_grant now uuid repo entry =
     \<lparr>g_id = uuid, g_subject_type = fst entry, g_subject_id = snd entry, g_scope_type = ScopeRepo,
      g_pattern = Some (encode_pattern (repo_pattern repo)), g_action = ActionRead,
      g_source = SourceIngestDefault, g_created_at = now, g_created_by = []\<rparr>"

fun ingest_each ::
    "go_time \<Rightarrow> repo_identity \<Rightarrow> ((string \<times> string) \<times> string) list \<Rightarrow> grant list \<Rightarrow> grant list" where
  "ingest_each now repo [] table = table"
| "ingest_each now repo ((entry, uuid) # rest) table =
     ingest_each now repo rest
       (if fst entry = [] \<or> snd entry = [] then table
        else if fst entry \<noteq> SubjectUser \<and> fst entry \<noteq> SubjectGroup then table
        else (case insert_grant (ingest_grant now uuid repo entry) table of
                Inl e \<Rightarrow> table | Inr t \<Rightarrow> t))"

text \<open>\<open>defaults\<close> is the decoded \<open>default_grants\<close> of the provider instance,
  \<open>None\<close> when it cannot be read or decoded.\<close>

definition ApplyIngestDefaults ::
    "(string \<Rightarrow> (string \<times> string) list option) \<Rightarrow> go_time \<Rightarrow> string list \<Rightarrow> string \<Rightarrow> repo_identity
       \<Rightarrow> grant list \<Rightarrow> grant list" where
  "ApplyIngestDefaults defaults now uuids instanceID repo table =
     (if instanceID = [] then table
      else (case defaults instanceID of
              None \<Rightarrow> table
            | Some entries \<Rightarrow> ingest_each now repo (zip entries uuids) table))"

text \<open>A decoded create request; the pattern is \<open>None\<close> when the field is missing.\<close>

record create_grant_request =
  cg_subject_type :: string
  cg_subject_id :: string
  cg_scope_type :: string
  cg_pattern :: "scope_pattern option"
  cg_action :: string

datatype grant_err = BadSubjectType | SubjectRequired | BadScopeType | PatternRequired | BadAction

definition buildGrantFromRequest ::
    "go_time \<Rightarrow> string \<Rightarrow> create_grant_request \<Rightarrow> string \<Rightarrow> grant_err + grant" where
  "buildGrantFromRequest now uuid req createdBy =
     (let subjectType = trim_space (cg_subject_type req); subjectID = trim_space (cg_subject_id req);
          scopeType = trim_space (cg_scope_type req); action0 = trim_space (cg_action req);
          action = (if action0 = [] then ActionRead else action0)
      in if subjectType \<noteq> SubjectUser \<and> subjectType \<noteq> SubjectGroup
         then Inl BadSubjectType
         else if subjectID = [] then Inl SubjectRequired
         else if scopeType \<noteq> ScopeRepo \<and> scopeType \<noteq> ScopeCluster \<and> scopeType \<noteq> ScopeImage
         then Inl BadScopeType
         else case cg_pattern req of
           None \<Rightarrow> Inl PatternRequired
         | Some p \<Rightarrow>
             if action \<noteq> ActionRead then Inl BadAction
             else Inr \<lparr>g_id = uuid, g_subject_type = subjectType, g_subject_id = subjectID,
                       g_scope_type = scopeType, g_pattern = Some (encode_pattern p), g_action = action,
                       g_source = SourceExplicit, g_created_at = now, g_created_by = createdBy\<rparr>)"

text \<open>Decoding the body of a create request, a JSON object.\<close>

definition decode_create_grant :: "json \<Rightarrow> create_grant_request option" where
  "decode_create_grant v =
     (case (string_field v ''subject_type'', string_field v ''subject_id'', string_field v ''scope_type'',
            string_field v ''action'',
            (case json_field (Some v) ''scope_pattern'' of
               None \<Rightarrow> Some None
             | Some JNull \<Rightarrow> Some None
             | Some pv \<Rightarrow> map_option Some (decode_pattern pv))) of
        (Some a, Some b, Some c, Some d, Some p) \<Rightarrow>
          Some \<lparr>cg_subject_type = a, cg_subject_id = b, cg_scope_type = c, cg_pattern = p, cg_action = d\<rparr>
      | _ \<Rightarrow> None)"

definition AdminACLGrantsCreate ::
    "string option \<Rightarrow> bool \<Rightarrow> go_time \<Rightarrow> string \<Rightarrow> json option \<Rightarrow> grant list \<Rightarrow> nat \<times> grant list" where
  "AdminACLGrantsCreate admin ok now uuid body table =
     (case admin of
        None \<Rightarrow> (403, table)
      | Some adminID \<Rightarrow>
          (case (case body of None \<Rightarrow> None | Some v \<Rightarrow> decode_create_grant v) of
             None \<Rightarrow> (400, table)
           | Some req \<Rightarrow>
               (case buildGrantFromRequest now uuid req adminID of
                  Inl e \<Rightarrow> (400, table)
                | Inr g \<Rightarrow>
                    if \<not> ok then (500, table)
                    else (case insert_grant g table of
                            Inl IdentityClash \<Rightarrow> (409, table)
                          | Inl PrimaryKeyClash \<Rightarrow> (500, table)
                          | Inr t \<Rightarrow> (201, t)))))"

definition AdminACLGrantsDelete :: "bool \<Rightarrow> bool \<Rightarrow> string \<Rightarrow> grant list \<Rightarrow> nat \<times> grant list" where
  "AdminACLGrantsDelete admin ok i table =
     (if \<not> admin then (403, table)
      else if i = [] then (400, table)
      else if \<not> ok then (500, table)
      else if i \<notin> g_id ` set table then (404, table)
      else (204, filter (\<lambda>g. g_id g \<noteq> i) table))"

section \<open>The provider contract\<close>

text \<open>Without an identity a provider grants nothing.\<close>

locale acl_provider =
  fixes grants :: provider
  assumes no_identity: "su_user subj = [] \<Longrightarrow> su_groups subj = [] \<Longrightarrow> grants subj scopeType = Inr []"
begin

lemma zero_subject_grants [simp]: "grants zero_subject scopeType = Inr []"
  by (rule no_identity) (simp_all add: zero_subject_def)

end

interpretation local_provider: acl_provider "local_Grants ok table" for ok table
  by unfold_locales (simp add: local_Grants_def)

interpretation ror_provider: acl_provider "ror_Grants get call token" for get call token
  by unfold_locales (simp add: ror_Grants_def)

interpretation chain_provider:
  acl_provider "chain_Grants [local_Grants ok table, ror_Grants get call token]" for ok table get call token
  by unfold_locales (simp add: local_provider.no_identity ror_provider.no_identity)

section \<open>Lemmas\<close>

lemma string_field_absent: "k \<notin> fst ` set kvs \<Longrightarrow> string_field (JObj kvs) k = Some []"
  by (simp add: map_of_eq_None_iff [THEN iffD2])

lemma string_field_other:
  "k \<noteq> k' \<Longrightarrow> string_field (JObj (nonempty_field k v @ rest)) k' = string_field (JObj rest) k'"
  by (simp add: nonempty_field_def)

lemma string_field_here:
  "k \<notin> fst ` set rest \<Longrightarrow> string_field (JObj (nonempty_field k v @ rest)) k = Some v"
  using string_field_absent [of k rest] by (simp add: nonempty_field_def)

lemma keys_nonempty_field: "k \<notin> fst ` set (nonempty_field k' v) \<longleftrightarrow> k \<noteq> k' \<or> v = []"
  by (simp add: nonempty_field_def)

lemma string_field_last: "string_field (JObj (nonempty_field k v)) k = Some v"
  by (simp add: nonempty_field_def)

lemma decode_encode_pattern: "decode_pattern (encode_pattern p) = Some p"
  unfolding encode_pattern_def decode_pattern_def
  by (simp add: string_field_other string_field_here string_field_last keys_nonempty_field image_Un
      del: string_field.simps)

text \<open>The keys a pattern has; Go compares them up to letter case.\<close>

definition pattern_keys :: "string list" where
  "pattern_keys = [''provider'', ''provider_instance_id'', ''owner'', ''slug'', ''cluster_id'', ''registry'',
     ''repository'', ''digest'']"

lemma pattern_keys_lower: "k \<in> set pattern_keys \<Longrightarrow> to_lower k = k"
  by (auto simp: pattern_keys_def lower_eval)

lemma decode_unknown_keys:
  assumes "\<forall>kv \<in> set kvs. to_lower (fst kv) \<notin> set pattern_keys"
  shows "decode_pattern (JObj kvs) = Some wildcard"
proof -
  have "k \<notin> fst ` set kvs" if "k \<in> set pattern_keys" for k
    using assms that pattern_keys_lower [OF that] by force
  then have "string_field (JObj kvs) k = Some []" if "k \<in> set pattern_keys" for k
    using that by (blast intro: string_field_absent)
  then show ?thesis
    by (simp add: decode_pattern_def wildcard_def pattern_keys_def del: string_field.simps)
qed

lemma chain_Grants_member:
  "chain_Grants ps subj ty = Inr gs \<Longrightarrow>
     x \<in> set gs \<longleftrightarrow> (\<exists>p \<in> set ps. \<exists>hs. p subj ty = Inr hs \<and> x \<in> set hs)"
  by (induction ps arbitrary: gs) (auto split: sum.splits)

end
