(* ===== verification/Hidden_Namespaces.thy ===== *)
theory Hidden_Namespaces
  imports Go_Prelude
begin

text \<open>
  The admin-curated namespace patterns of \<open>internal/hiddenns\<close>: validation, the
  table and its 30-second cache, the compilation of patterns to SQL, and the in-memory
  matcher. \<open>path_match\<close> is \<open>path.Match\<close> for patterns of literal characters and
  \<open>*\<close> (the only ones \<open>ValidatePattern\<close> admits), \<open>like\<close> is PostgreSQL's
  \<open>LIKE\<close> with its default escape character.
\<close>

section \<open>Patterns\<close>

abbreviation star :: char where "star \<equiv> CHR ''*''"

definition pattern_char :: "char \<Rightarrow> bool" where
  "pattern_char c \<longleftrightarrow>
     (let n = of_char c :: nat in 97 \<le> n \<and> n \<le> 122 \<or> 48 \<le> n \<and> n \<le> 57) \<or> c = star"

definition pattern_re :: "string \<Rightarrow> bool" where
  "pattern_re p \<longleftrightarrow>
     p \<noteq> [] \<and> pattern_char (hd p) \<and> pattern_char (last p) \<and>
     list_all (\<lambda>c. pattern_char c \<or> c = CHR ''-'') p"

datatype pattern_err = PatternEmpty | PatternTooLong | PatternShape | PatternHidesAll

definition ValidatePattern :: "string \<Rightarrow> pattern_err option" where
  "ValidatePattern p =
     (if p = [] then Some PatternEmpty
      else if length p > 63 then Some PatternTooLong
      else if \<not> pattern_re p then Some PatternShape
      else if trim_char star p = [] then Some PatternHidesAll
      else None)"

fun path_match :: "string \<Rightarrow> string \<Rightarrow> bool" where
  "path_match [] s = (s = [])"
| "path_match (x # p) s =
     (if x = star then
        path_match p s \<or>
        (case s of [] \<Rightarrow> False | c # cs \<Rightarrow> c \<noteq> CHR ''/'' \<and> path_match (x # p) cs)
      else (case s of [] \<Rightarrow> False | c # cs \<Rightarrow> x = c \<and> path_match p cs))"

fun like :: "string \<Rightarrow> string \<Rightarrow> bool" where
  "like [] s = (s = [])"
| "like (x # p) s =
     (if x = CHR ''%'' then
        like p s \<or> (case s of [] \<Rightarrow> False | c # cs \<Rightarrow> like (x # p) cs)
      else if x = CHR 0x5C then
        (case p of
           [] \<Rightarrow> False
         | y # q \<Rightarrow> (case s of [] \<Rightarrow> False | c # cs \<Rightarrow> y = c \<and> like q cs))
      else if x = CHR ''_'' then (case s of [] \<Rightarrow> False | c # cs \<Rightarrow> like p cs)
      else (case s of [] \<Rightarrow> False | c # cs \<Rightarrow> x = c \<and> like p cs))"

fun globToLike :: "string \<Rightarrow> string" where
  "globToLike [] = []"
| "globToLike (r # p) =
     (if r = star then CHR ''%'' # globToLike p
      else if r = CHR ''%'' \<or> r = CHR ''_'' \<or> r = CHR 0x5C then CHR 0x5C # r # globToLike p
      else r # globToLike p)"

section \<open>The SQL fragment\<close>

datatype ns_cond = NotIn "string list" | NotLike string

definition exclusion_conds :: "string list \<Rightarrow> ns_cond list" where
  "exclusion_conds patterns =
     (let ps = filter (\<lambda>p. p \<noteq> []) patterns;
          exact = filter (\<lambda>p. star \<notin> set p) ps;
          likes = map globToLike (filter (\<lambda>p. star \<in> set p) ps)
      in (if exact = [] then [] else [NotIn exact]) @ map NotLike likes)"

fun cond_text :: "string \<Rightarrow> ns_cond \<Rightarrow> string" where
  "cond_text col (NotIn xs) = col @ '' NOT IN ('' @ join '','' (map (\<lambda>_. ''?'') xs) @ '')''"
| "cond_text col (NotLike l) = col @ '' NOT LIKE ?''"

fun cond_args :: "ns_cond \<Rightarrow> string list" where
  "cond_args (NotIn xs) = xs"
| "cond_args (NotLike l) = [l]"

definition ExclusionSQL :: "string \<Rightarrow> string list \<Rightarrow> string \<times> string list" where
  "ExclusionSQL col patterns =
     (join '' AND '' (map (cond_text col) (exclusion_conds patterns)),
      concat (map cond_args (exclusion_conds patterns)))"

text \<open>What the database makes of the fragment on a row's namespace.\<close>

fun cond_holds :: "string \<Rightarrow> ns_cond \<Rightarrow> bool" where
  "cond_holds ns (NotIn xs) = (ns \<notin> set xs)"
| "cond_holds ns (NotLike l) = (\<not> like l ns)"

definition ns_shown :: "string list \<Rightarrow> string \<Rightarrow> bool" where
  "ns_shown patterns ns = list_all (cond_holds ns) (exclusion_conds patterns)"

definition MatcherFor :: "string list \<Rightarrow> string \<Rightarrow> bool" where
  "MatcherFor patterns ns = list_ex (\<lambda>p. path_match p ns) patterns"

section \<open>The table and its cache\<close>

record hidden_row =
  hn_id :: nat
  hn_pattern :: string
  hn_note :: string
  hn_created_by :: string

record ns_state =
  nst_rows :: "hidden_row list"
  nst_cached :: "string list"
  nst_cached_at :: "go_time option"

definition patternsTTL :: duration where "patternsTTL = 30 * second"

definition Invalidate :: "ns_state \<Rightarrow> ns_state" where
  "Invalidate st = st\<lparr>nst_cached := [], nst_cached_at := None\<rparr>"

definition row_patterns :: "ns_state \<Rightarrow> string list" where
  "row_patterns st = sort (map hn_pattern (nst_rows st))"

text \<open>
  \<open>Patterns\<close> holds the mutex for its look at the cache and again for the assignment, but
  not in between: \<open>pa_before\<close> is what other goroutines do between the look and the query,
  \<open>pa_between\<close> what they do between the query and the assignment. The clock is read at
  the look and at the assignment.
\<close>

record patterns_env =
  pa_look :: go_time
  pa_before :: "ns_state \<Rightarrow> ns_state"
  pa_ok :: bool
  pa_between :: "ns_state \<Rightarrow> ns_state"
  pa_store :: go_time

definition cache_fresh :: "go_time \<Rightarrow> ns_state \<Rightarrow> bool" where
  "cache_fresh now st = (case nst_cached_at st of None \<Rightarrow> False | Some t \<Rightarrow> now - t < patternsTTL)"

definition Patterns :: "patterns_env \<Rightarrow> ns_state \<Rightarrow> string list \<times> ns_state" where
  "Patterns env st =
     (if cache_fresh (pa_look env) st then (nst_cached st, st)
      else
        (let st1 = pa_before env st in
         if \<not> pa_ok env then ([], st1)
         else
           (let rows = row_patterns st1; st2 = pa_between env st1
            in (rows, st2\<lparr>nst_cached := rows, nst_cached_at := Some (pa_store env)\<rparr>))))"

text \<open>A read with nothing beside it.\<close>

definition quiet :: "go_time \<Rightarrow> patterns_env" where
  "quiet now = \<lparr>pa_look = now, pa_before = (\<lambda>st. st), pa_ok = True, pa_between = (\<lambda>st. st), pa_store = now\<rparr>"

definition ns_List :: "ns_state \<Rightarrow> hidden_row list" where
  "ns_List st = sort_key hn_pattern (nst_rows st)"

text \<open>\<open>Create\<close>: \<open>None\<close> when the pattern is taken or the database fails.\<close>

definition ns_Create ::
    "bool \<Rightarrow> nat \<Rightarrow> string \<Rightarrow> string \<Rightarrow> string \<Rightarrow> ns_state \<Rightarrow> hidden_row option \<times> ns_state" where
  "ns_Create ok i pattern n by st =
     (if \<not> ok \<or> pattern \<in> hn_pattern ` set (nst_rows st) \<or> i \<in> hn_id ` set (nst_rows st) then (None, st)
      else (let r = \<lparr>hn_id = i, hn_pattern = pattern, hn_note = n, hn_created_by = by\<rparr>
            in (Some r, Invalidate (st\<lparr>nst_rows := nst_rows st @ [r]\<rparr>))))"

datatype ns_delete = NsDeleted | NsNotFound | NsError

definition ns_Delete :: "bool \<Rightarrow> nat \<Rightarrow> ns_state \<Rightarrow> ns_delete \<times> ns_state" where
  "ns_Delete ok i st =
     (if \<not> ok then (NsError, st)
      else if i \<notin> hn_id ` set (nst_rows st) then (NsNotFound, st)
      else (NsDeleted, Invalidate (st\<lparr>nst_rows := filter (\<lambda>r. hn_id r \<noteq> i) (nst_rows st)\<rparr>)))"

section \<open>Lemmas\<close>

lemma path_match_simps [simp]:
  "path_match (star # p) [] = path_match p []"
  "path_match (star # p) (c # cs) =
     (path_match p (c # cs) \<or> c \<noteq> CHR ''/'' \<and> path_match (star # p) cs)"
  "x \<noteq> star \<Longrightarrow> path_match (x # p) [] = False"
  "x \<noteq> star \<Longrightarrow> path_match (x # p) (c # cs) = (x = c \<and> path_match p cs)"
  by simp_all

lemma like_simps [simp]:
  "like (CHR ''%'' # p) [] = like p []"
  "like (CHR ''%'' # p) (c # cs) = (like p (c # cs) \<or> like (CHR ''%'' # p) cs)"
  "like (CHR 0x5C # y # q) [] = False"
  "like (CHR 0x5C # y # q) (c # cs) = (y = c \<and> like q cs)"
  "x \<noteq> CHR ''%'' \<Longrightarrow> x \<noteq> CHR 0x5C \<Longrightarrow> x \<noteq> CHR ''_'' \<Longrightarrow> like (x # p) [] = False"
  "x \<noteq> CHR ''%'' \<Longrightarrow> x \<noteq> CHR 0x5C \<Longrightarrow> x \<noteq> CHR ''_'' \<Longrightarrow>
     like (x # p) (c # cs) = (x = c \<and> like p cs)"
  by simp_all

declare path_match.simps(2) [simp del] like.simps(2) [simp del]

lemma like_globToLike: "CHR ''/'' \<notin> set s \<Longrightarrow> like (globToLike p) s = path_match p s"
proof (induction p arbitrary: s)
  case Nil
  then show ?case by simp
next
  case (Cons x p)
  show ?case
  proof (cases "x = star")
    case True
    from Cons.prems show ?thesis
      by (induction s) (auto simp: True Cons.IH)
  next
    case False
    with Cons show ?thesis by (cases s) auto
  qed
qed

lemma path_match_exact: "star \<notin> set p \<Longrightarrow> path_match p s \<longleftrightarrow> s = p"
proof (induction p arbitrary: s)
  case (Cons x p)
  then have "x \<noteq> star" and "star \<notin> set p" by auto
  then show ?case by (cases s) (simp_all add: Cons.IH eq_commute [of x])
qed simp

lemma ns_shown_iff:
  assumes "[] \<notin> set ps" and "CHR ''/'' \<notin> set ns"
  shows "ns_shown ps ns \<longleftrightarrow> \<not> MatcherFor ps ns"
proof -
  have ps: "filter (\<lambda>p. p \<noteq> []) ps = ps" using assms(1) by (intro filter_True) auto
  have e: "(ns \<in> set ps \<and> star \<notin> set ns) = (\<exists>p \<in> set ps. star \<notin> set p \<and> path_match p ns)"
    using path_match_exact by auto
  have "ns_shown ps ns \<longleftrightarrow> \<not> (ns \<in> set ps \<and> star \<notin> set ns) \<and>
      (\<forall>p \<in> set ps. star \<in> set p \<longrightarrow> \<not> path_match p ns)"
    unfolding ns_shown_def exclusion_conds_def ps Let_def
    by (auto simp: list_all_iff filter_empty_conv like_globToLike [OF assms(2)])
  then show ?thesis unfolding e by (auto simp: MatcherFor_def list_ex_iff)
qed

lemma ValidatePattern_ne: "ValidatePattern p = None \<Longrightarrow> p \<noteq> []"
  by (auto simp: ValidatePattern_def split: if_splits)

text \<open>Placeholders and arguments of the fragment agree in number.\<close>

lemma count_list_join:
  "count_list (join sep xs) c = sum_list (map (\<lambda>x. count_list x c) xs) + (length xs - 1) * count_list sep c"
  by (induction sep xs rule: join.induct) (simp_all add: count_list_append)

lemma cond_placeholders:
  "CHR ''?'' \<notin> set col \<Longrightarrow> count_list (cond_text col c) (CHR ''?'') = length (cond_args c)"
  by (cases c) (simp_all add: count_list_join comp_def sum_list_triv)

section \<open>Properties\<close>

text \<open>C21. The two ways of hiding namespaces agree: for patterns that pass validation and a
  namespace without a slash, a row survives the SQL fragment exactly when the in-memory
  matcher does not match its namespace; and the fragment has as many placeholders as
  arguments.\<close>

theorem ExclusionSQL_agrees_with_matcher:
  assumes "\<forall>p \<in> set ps. ValidatePattern p = None" and "CHR ''/'' \<notin> set ns" and "CHR ''?'' \<notin> set col"
  shows "(ns_shown ps ns \<longleftrightarrow> \<not> MatcherFor ps ns) \<and>
    count_list (fst (ExclusionSQL col ps)) (CHR ''?'') = length (snd (ExclusionSQL col ps))"
proof
  have "[] \<notin> set ps" using assms(1) ValidatePattern_ne by blast
  then show "ns_shown ps ns \<longleftrightarrow> \<not> MatcherFor ps ns" using assms(2) by (rule ns_shown_iff)
  show "count_list (fst (ExclusionSQL col ps)) (CHR ''?'') = length (snd (ExclusionSQL col ps))"
    using cond_placeholders [OF assms(3)]
    by (simp add: ExclusionSQL_def count_list_join length_concat comp_def)
qed

theorem ExclusionSQL_agrees_with_matcher_witness:
  "MatcherFor [''nhn-*''] ''nhn-ror'' \<and> \<not> ns_shown [''nhn-*''] ''nhn-ror''"
proof -
  have v: "\<forall>p \<in> set [''nhn-*'']. ValidatePattern p = None"
    by (simp add: ValidatePattern_def pattern_re_def pattern_char_def trim_eval)
  have m: "MatcherFor [''nhn-*''] ''nhn-ror''" by (simp add: MatcherFor_def)
  with ExclusionSQL_agrees_with_matcher [OF v, of "''nhn-ror''" "''namespace''"] show ?thesis by simp
qed

text \<open>C22. A local change of the patterns is seen at once, unless a read is under way: after
  \<open>Create\<close> or \<open>Delete\<close> has succeeded, a read that starts then returns the table's
  patterns, whatever the cache held. But when the change falls between the query and the
  assignment of a read that had missed the cache, that read puts the old patterns back after
  they were dropped: for thirty seconds from its assignment every read returns the patterns from
  before the change, and only then the table's.\<close>

theorem Patterns_invalidate_race:
  assumes change: "(\<exists>i p n by r. ns_Create True i p n by st = (Some r, st')) \<or>
      (\<exists>i. ns_Delete True i st = (NsDeleted, st'))"
    and miss: "\<not> cache_fresh (pa_look env) st" "pa_ok env"
    and gap: "pa_before env st = st" "pa_between env st = st'"
  shows "fst (Patterns (quiet now) st') = row_patterns st' \<and>
    row_patterns st \<noteq> row_patterns st' \<and> nst_rows (snd (Patterns env st)) = nst_rows st' \<and>
    fst (Patterns (quiet later) (snd (Patterns env st))) =
      (if later < pa_store env + 30 * second then row_patterns st else row_patterns st')"
proof -
  have inv: "nst_cached_at st' = None"
    using change by (auto simp: ns_Create_def ns_Delete_def Invalidate_def Let_def split: if_splits)
  have "length (nst_rows st') \<noteq> length (nst_rows st)"
    using change
  proof (elim disjE exE)
    fix i p n "by" r assume "ns_Create True i p n by st = (Some r, st')"
    then show ?thesis by (auto simp: ns_Create_def Invalidate_def Let_def split: if_splits)
  next
    fix i assume "ns_Delete True i st = (NsDeleted, st')"
    then have "nst_rows st' = filter (\<lambda>r. hn_id r \<noteq> i) (nst_rows st)" and "i \<in> hn_id ` set (nst_rows st)"
      by (auto simp: ns_Delete_def Invalidate_def split: if_splits)
    then show ?thesis by (auto intro!: less_imp_neq length_filter_less)
  qed
  then have "length (row_patterns st) \<noteq> length (row_patterns st')" by (simp add: row_patterns_def)
  then have "row_patterns st \<noteq> row_patterns st'" by auto
  then show ?thesis
    using inv miss gap
    by (auto simp: Patterns_def quiet_def cache_fresh_def patternsTTL_def row_patterns_def Let_def)
qed

theorem Patterns_invalidate_race_witness:
  "\<exists>st st' r. ns_Create True 2 ''tmp-*'' [] [] st = (Some r, st') \<and>
     fst (Patterns (quiet 9) (snd (Patterns ((quiet 5)\<lparr>pa_between := (\<lambda>_. st')\<rparr>) st))) = [''kube-*'']"
proof -
  let ?r = "\<lparr>hn_id = 1, hn_pattern = ''kube-*'', hn_note = [], hn_created_by = []\<rparr>"
  let ?n = "\<lparr>hn_id = 2, hn_pattern = ''tmp-*'', hn_note = [], hn_created_by = []\<rparr>"
  let ?st = "\<lparr>nst_rows = [?r], nst_cached = [], nst_cached_at = None\<rparr>"
  let ?st' = "\<lparr>nst_rows = [?r, ?n], nst_cached = [], nst_cached_at = None\<rparr>"
  have c: "ns_Create True 2 ''tmp-*'' [] [] ?st = (Some ?n, ?st')"
    by (simp add: ns_Create_def Invalidate_def Let_def)
  then have "(\<exists>i p n by r. ns_Create True i p n by ?st = (Some r, ?st')) \<or>
      (\<exists>i. ns_Delete True i ?st = (NsDeleted, ?st'))" by blast
  from Patterns_invalidate_race [OF this, of "(quiet 5)\<lparr>pa_between := (\<lambda>_. ?st')\<rparr>" 9 9] c
  show ?thesis
    by (intro exI [of _ ?st] exI [of _ ?st'] exI [of _ ?n])
      (simp add: cache_fresh_def quiet_def duration_defs row_patterns_def)
qed

end
