(* ===== verification/ACL_Scope.thy ===== *)
theory ACL_Scope
  imports ACL_Grants Hidden_Namespaces
begin

text \<open>
  Compiling grants to row filters (\<open>internal/acl/scope.go\<close>), and the checks of single
  resources built on them (\<open>internal/scam/acl.go\<close>, \<open>internal/uiapi/acl_helpers.go\<close>).

  A clause is kept as the tree of its conditions. \<open>render\<close> and \<open>bind_args\<close> give
  the text and the arguments the Go code hands to the database, \<open>repo_sat\<close> and
  \<open>image_sat\<close> say which rows of given tables the database then returns. Columns that
  may be \<open>NULL\<close> are empty strings: the clauses compare them only with non-empty
  arguments or for being non-empty.
\<close>

section \<open>The tables the clauses read\<close>

record repo_row =
  rr_id :: string
  rr_provider :: string
  rr_instance :: string
  rr_org :: string
  rr_slug :: string
  rr_private :: bool

record image_row =
  im_id :: string
  im_registry :: string
  im_repository :: string
  im_digest :: string
  im_verified :: bool
  im_source_repo :: string

record inventory_row =
  iv_registry :: "string option"
  iv_image :: "string option"
  iv_digest :: string
  iv_cluster :: string
  iv_namespace :: "string option"

record cluster_row =
  cl_id :: string
  cl_ror_slug :: string
  cl_ror_uid :: string

record tables =
  tb_repos :: "repo_row list"
  tb_images :: "image_row list"
  tb_inventory :: "inventory_row list"
  tb_clusters :: "cluster_row list"

section \<open>Clauses\<close>

datatype sql =
    ColEq string string
  | RepoPublic
  | RepoBridge "string list option"
  | ImageVerifiedAny
  | ImageVerifiedIn sql
  | ImageInventory "string list option" "string list"
  | SAnd "sql list"
  | SOr "sql list"
  | Par sql
  | SFalse

datatype sql_arg = AStr string | AStrs "string list"

definition quote_empty :: string where "quote_empty = [CHR 0x27, CHR 0x27]"

definition clusterGrantResolveSQL :: string where
  "clusterGrantResolveSQL =
     ''SELECT cluster_id FROM clusters WHERE cluster_id IN ? OR (TRIM(ror_slug) <> '' @ quote_empty @
     '' AND TRIM(ror_slug) IN ?) OR (ror_cluster_uid <> '' @ quote_empty @ '' AND ror_cluster_uid IN ?)''"

definition inventory_join :: string where
  "inventory_join =
     ''JOIN cluster_image_inventory cii ON cii.raw_registry = d.registry '' @
     ''AND cii.image = d.repository AND cii.digest = d.digest''"

definition ns_where :: "string list \<Rightarrow> string" where
  "ns_where hidden =
     (let t = fst (ExclusionSQL ''namespace'' hidden) in if t = [] then [] else '' AND '' @ t)"

fun render :: "string \<Rightarrow> sql \<Rightarrow> string" where
  "render a (ColEq c v) = a @ ''.'' @ c @ '' = ?''"
| "render a RepoPublic = a @ ''.is_private = false''"
| "render a (RepoBridge ids) =
     a @ ''.id IN (SELECT DISTINCT d.source_repo_id FROM image_digests d '' @ inventory_join @
     '' WHERE d.verified_source = true AND d.source_repo_id <> '' @ quote_empty @
     (case ids of None \<Rightarrow> '')''
      | Some _ \<Rightarrow> '' AND cii.cluster_id IN ('' @ clusterGrantResolveSQL @ ''))'')"
| "render a ImageVerifiedAny =
     ''('' @ a @ ''.verified_source = true AND '' @ a @ ''.source_repo_id <> '' @ quote_empty @ '')''"
| "render a (ImageVerifiedIn e) =
     ''('' @ a @ ''.verified_source = true AND '' @ a @
     ''.source_repo_id IN (SELECT r.id FROM repos r WHERE '' @ render ''r'' e @ ''))''"
| "render a (ImageInventory ids hidden) =
     ''(('' @ a @ ''.registry, '' @ a @ ''.repository, '' @ a @
     ''.digest) IN (SELECT raw_registry, image, digest FROM cluster_image_inventory WHERE '' @
     (case ids of None \<Rightarrow> ''TRUE'' | Some _ \<Rightarrow> ''cluster_id IN ('' @ clusterGrantResolveSQL @ '')'') @
     ns_where hidden @ ''))''"
| "render a (SAnd es) = join '' AND '' (map (render a) es)"
| "render a (SOr es) = join '' OR '' (map (render a) es)"
| "render a (Par e) = ''('' @ render a e @ '')''"
| "render a SFalse = ''1 = 0''"

fun bind_args :: "sql \<Rightarrow> sql_arg list" where
  "bind_args (ColEq c v) = [AStr v]"
| "bind_args RepoPublic = []"
| "bind_args (RepoBridge ids) = (case ids of None \<Rightarrow> [] | Some is \<Rightarrow> [AStrs is, AStrs is, AStrs is])"
| "bind_args ImageVerifiedAny = []"
| "bind_args (ImageVerifiedIn e) = bind_args e"
| "bind_args (ImageInventory ids hidden) =
     (case ids of None \<Rightarrow> [] | Some is \<Rightarrow> [AStrs is, AStrs is, AStrs is]) @
     map AStr (snd (ExclusionSQL ''namespace'' hidden))"
| "bind_args (SAnd es) = concat (map bind_args es)"
| "bind_args (SOr es) = concat (map bind_args es)"
| "bind_args (Par e) = bind_args e"
| "bind_args SFalse = []"

text \<open>The subquery that resolves grant ids in the three identifier domains.\<close>

definition resolve_clusters :: "tables \<Rightarrow> string list \<Rightarrow> string list" where
  "resolve_clusters db ids =
     map cl_id (filter (\<lambda>c. cl_id c \<in> set ids \<or>
       (trim_char (CHR '' '') (cl_ror_slug c) \<noteq> [] \<and> trim_char (CHR '' '') (cl_ror_slug c) \<in> set ids) \<or>
       (cl_ror_uid c \<noteq> [] \<and> cl_ror_uid c \<in> set ids)) (tb_clusters db))"

definition in_cluster :: "tables \<Rightarrow> string list option \<Rightarrow> inventory_row \<Rightarrow> bool" where
  "in_cluster db ids i =
     (case ids of None \<Rightarrow> True | Some is \<Rightarrow> iv_cluster i \<in> set (resolve_clusters db is))"

definition runs_image :: "inventory_row \<Rightarrow> image_row \<Rightarrow> bool" where
  "runs_image i d \<longleftrightarrow>
     iv_registry i = Some (im_registry d) \<and> iv_image i = Some (im_repository d) \<and>
     iv_digest i = im_digest d"

text \<open>What the namespace conditions make of a \<open>NULL\<close>: any of them drops the row.\<close>

definition ns_kept :: "string list \<Rightarrow> string option \<Rightarrow> bool" where
  "ns_kept hidden ns =
     (case ns of None \<Rightarrow> exclusion_conds hidden = [] | Some n \<Rightarrow> ns_shown hidden n)"

definition repo_col :: "string \<Rightarrow> repo_row \<Rightarrow> string" where
  "repo_col c r =
     (if c = ''provider'' then rr_provider r else if c = ''provider_instance_id'' then rr_instance r
      else if c = ''org'' then rr_org r else if c = ''slug'' then rr_slug r else [])"

definition image_col :: "string \<Rightarrow> image_row \<Rightarrow> string" where
  "image_col c d =
     (if c = ''registry'' then im_registry d else if c = ''repository'' then im_repository d
      else if c = ''digest'' then im_digest d else [])"

fun repo_sat :: "tables \<Rightarrow> sql \<Rightarrow> repo_row \<Rightarrow> bool" where
  "repo_sat db (ColEq c v) r = (repo_col c r = v)"
| "repo_sat db RepoPublic r = (\<not> rr_private r)"
| "repo_sat db (RepoBridge ids) r =
     list_ex (\<lambda>d. im_verified d \<and> im_source_repo d \<noteq> [] \<and> im_source_repo d = rr_id r \<and>
       list_ex (\<lambda>i. runs_image i d \<and> in_cluster db ids i) (tb_inventory db)) (tb_images db)"
| "repo_sat db (SAnd es) r = list_all (\<lambda>e. repo_sat db e r) es"
| "repo_sat db (SOr es) r = list_ex (\<lambda>e. repo_sat db e r) es"
| "repo_sat db (Par e) r = repo_sat db e r"
| "repo_sat db e r = False"

fun image_sat :: "tables \<Rightarrow> sql \<Rightarrow> image_row \<Rightarrow> bool" where
  "image_sat db (ColEq c v) d = (image_col c d = v)"
| "image_sat db ImageVerifiedAny d = (im_verified d \<and> im_source_repo d \<noteq> [])"
| "image_sat db (ImageVerifiedIn e) d =
     (im_verified d \<and> list_ex (\<lambda>r. rr_id r = im_source_repo d \<and> repo_sat db e r) (tb_repos db))"
| "image_sat db (ImageInventory ids hidden) d =
     list_ex (\<lambda>i. runs_image i d \<and> in_cluster db ids i \<and> ns_kept hidden (iv_namespace i)) (tb_inventory db)"
| "image_sat db (SAnd es) d = list_all (\<lambda>e. image_sat db e d) es"
| "image_sat db (SOr es) d = list_ex (\<lambda>e. image_sat db e d) es"
| "image_sat db (Par e) d = image_sat db e d"
| "image_sat db e d = False"

section \<open>Compiling patterns\<close>

definition col_cond :: "string \<Rightarrow> string \<Rightarrow> sql list" where
  "col_cond c v = (if v = [] then [] else [ColEq c v])"

definition compile_patterns :: "(scope_pattern \<Rightarrow> sql list) \<Rightarrow> scope_pattern list \<Rightarrow> sql option \<times> bool" where
  "compile_patterns conds ps =
     (if list_ex IsWildcard ps then (None, True)
      else (let parts = map (\<lambda>p. Par (SAnd (conds p))) (filter (\<lambda>p. conds p \<noteq> []) ps)
            in (if parts = [] then None else Some (SOr parts), False)))"

definition repo_conds :: "scope_pattern \<Rightarrow> sql list" where
  "repo_conds p =
     col_cond ''provider'' (sp_provider p) @ col_cond ''provider_instance_id'' (sp_instance p) @
     col_cond ''org'' (sp_owner p) @ col_cond ''slug'' (sp_slug p)"

definition compileRepoPatterns :: "scope_pattern list \<Rightarrow> sql option \<times> bool" where
  "compileRepoPatterns ps = compile_patterns repo_conds ps"

definition image_conds :: "scope_pattern \<Rightarrow> sql list" where
  "image_conds p =
     col_cond ''registry'' (sp_registry p) @ col_cond ''repository'' (sp_repository p) @
     col_cond ''digest'' (sp_digest p)"

definition compileImagePatterns :: "scope_pattern list \<Rightarrow> sql option \<times> bool" where
  "compileImagePatterns ps = compile_patterns image_conds ps"

definition compileClusterPatterns :: "scope_pattern list \<Rightarrow> sql option \<times> bool" where
  "compileClusterPatterns ps =
     (if list_ex IsWildcard ps then (None, True)
      else (let parts = map (\<lambda>p. ColEq ''cluster_id'' (sp_cluster p)) (filter (\<lambda>p. sp_cluster p \<noteq> []) ps)
            in (if parts = [] then None else Some (SOr parts), False)))"

definition cluster_ids :: "scope_pattern list \<Rightarrow> string list" where
  "cluster_ids ps = map sp_cluster (filter (\<lambda>p. sp_cluster p \<noteq> []) ps)"

definition compileClusterRepoBridge :: "scope_pattern list \<Rightarrow> sql option" where
  "compileClusterRepoBridge ps =
     (if ps = [] then None
      else if list_ex IsWildcard ps then Some (RepoBridge None)
      else if cluster_ids ps = [] then None
      else Some (RepoBridge (Some (cluster_ids ps))))"

definition compileClusterImageInheritance :: "scope_pattern list \<Rightarrow> string list \<Rightarrow> sql option" where
  "compileClusterImageInheritance ps hidden =
     (if ps = [] then None
      else if list_ex IsWildcard ps then Some (ImageInventory None hidden)
      else if cluster_ids ps = [] then None
      else Some (ImageInventory (Some (cluster_ids ps)) hidden))"

section \<open>The readable clauses\<close>

datatype clause = Unrestricted | Restrict sql

definition Deny :: "clause \<Rightarrow> bool" where
  "Deny c \<longleftrightarrow> c = Restrict SFalse"

definition bypass :: "subject \<Rightarrow> bool" where
  "bypass subj \<longleftrightarrow> su_admin subj \<or> su_global subj"

definition grantsFor :: "provider option \<Rightarrow> provider" where
  "grantsFor p subj scopeType = (case p of None \<Rightarrow> Inr [] | Some f \<Rightarrow> f subj scopeType)"

text \<open>Grant condition and bridge condition; \<open>None\<close> when a wildcard repo grant makes the
  subject unrestricted.\<close>

definition repoClauseParts ::
    "provider option \<Rightarrow> subject \<Rightarrow> acl_err + (sql option \<times> sql option) option" where
  "repoClauseParts p subj =
     (case grantsFor p subj ScopeRepo of
        Inl e \<Rightarrow> Inl e
      | Inr ps \<Rightarrow>
          (case compileRepoPatterns ps of
             (g, True) \<Rightarrow> Inr None
           | (g, False) \<Rightarrow>
               (case grantsFor p subj ScopeCluster of
                  Inl e \<Rightarrow> Inl e
                | Inr cps \<Rightarrow> Inr (Some (g, compileClusterRepoBridge cps)))))"

definition opt_part :: "sql option \<Rightarrow> sql list" where
  "opt_part e = (case e of None \<Rightarrow> [] | Some x \<Rightarrow> [Par x])"

definition ReadableRepoClause :: "provider option \<Rightarrow> subject \<Rightarrow> acl_err + clause" where
  "ReadableRepoClause p subj =
     (if bypass subj then Inr Unrestricted
      else (case repoClauseParts p subj of
              Inl e \<Rightarrow> Inl e
            | Inr None \<Rightarrow> Inr Unrestricted
            | Inr (Some (g, b)) \<Rightarrow>
                (let parts = [RepoPublic] @ opt_part g @ opt_part b
                 in Inr (Restrict (if length parts = 1 then RepoPublic else Par (SOr parts))))))"

definition ReadableRepoClauseStrict :: "provider option \<Rightarrow> subject \<Rightarrow> acl_err + clause" where
  "ReadableRepoClauseStrict p subj =
     (if bypass subj then Inr Unrestricted
      else (case repoClauseParts p subj of
              Inl e \<Rightarrow> Inl e
            | Inr None \<Rightarrow> Inr Unrestricted
            | Inr (Some (g, b)) \<Rightarrow>
                (let parts = opt_part g @ opt_part b
                 in Inr (Restrict (if parts = [] then SFalse else SOr parts)))))"

definition ReadableClusterClause :: "provider option \<Rightarrow> subject \<Rightarrow> acl_err + clause" where
  "ReadableClusterClause p subj =
     (if bypass subj then Inr Unrestricted
      else (case grantsFor p subj ScopeCluster of
              Inl e \<Rightarrow> Inl e
            | Inr ps \<Rightarrow>
                (case compileClusterPatterns ps of
                   (c, True) \<Rightarrow> Inr Unrestricted
                 | (None, False) \<Rightarrow> Inr (Restrict SFalse)
                 | (Some e, False) \<Rightarrow> Inr (Restrict e))))"

definition repo_inherited :: "clause \<Rightarrow> sql list" where
  "repo_inherited c =
     (case c of
        Unrestricted \<Rightarrow> [ImageVerifiedAny]
      | Restrict e \<Rightarrow> if e = SFalse then [] else [ImageVerifiedIn e])"

definition ReadableImageClause :: "provider option \<Rightarrow> string list \<Rightarrow> subject \<Rightarrow> acl_err + clause" where
  "ReadableImageClause p hidden subj =
     (if bypass subj then Inr Unrestricted
      else (case grantsFor p subj ScopeImage of
              Inl e \<Rightarrow> Inl e
            | Inr ips \<Rightarrow>
                (case compileImagePatterns ips of
                   (g, True) \<Rightarrow> Inr Unrestricted
                 | (g, False) \<Rightarrow>
                     (case ReadableRepoClause p subj of
                        Inl e \<Rightarrow> Inl e
                      | Inr rc \<Rightarrow>
                          (case grantsFor p subj ScopeCluster of
                             Inl e \<Rightarrow> Inl e
                           | Inr cps \<Rightarrow>
                               (let parts = repo_inherited rc @ opt_part g @
                                      (case compileClusterImageInheritance cps hidden of
                                         None \<Rightarrow> [] | Some x \<Rightarrow> [x])
                                in Inr (Restrict (if parts = [] then SFalse else SOr parts))))))))"

definition repo_selected :: "tables \<Rightarrow> clause \<Rightarrow> repo_row \<Rightarrow> bool" where
  "repo_selected db c r = (case c of Unrestricted \<Rightarrow> True | Restrict e \<Rightarrow> repo_sat db e r)"

definition image_selected :: "tables \<Rightarrow> clause \<Rightarrow> image_row \<Rightarrow> bool" where
  "image_selected db c d = (case c of Unrestricted \<Rightarrow> True | Restrict e \<Rightarrow> image_sat db e d)"

section \<open>Single resources\<close>

definition repoPatternMatches :: "scope_pattern \<Rightarrow> scope_pattern \<Rightarrow> bool" where
  "repoPatternMatches p a \<longleftrightarrow>
     IsWildcard p \<or>
     ((sp_provider p = [] \<or> sp_provider p = sp_provider a) \<and>
      (sp_instance p = [] \<or> sp_instance p = sp_instance a) \<and>
      (sp_owner p = [] \<or> sp_owner p = sp_owner a) \<and>
      (sp_slug p = [] \<or> sp_slug p = sp_slug a) \<and>
      (sp_provider p \<noteq> [] \<or> sp_instance p \<noteq> [] \<or> sp_owner p \<noteq> [] \<or> sp_slug p \<noteq> []))"

definition CanReadRepo :: "provider option \<Rightarrow> subject \<Rightarrow> bool \<Rightarrow> scope_pattern \<Rightarrow> acl_err + bool" where
  "CanReadRepo p subj isPrivate attrs =
     (if su_admin subj then Inr True
      else if \<not> isPrivate then Inr True
      else (case grantsFor p subj ScopeRepo of
              Inl e \<Rightarrow> Inl e
            | Inr ps \<Rightarrow> Inr (list_ex (\<lambda>q. repoPatternMatches q attrs) ps)))"

definition cluster_match :: "string \<Rightarrow> scope_pattern \<Rightarrow> bool" where
  "cluster_match i q \<longleftrightarrow> IsWildcard q \<or> (sp_cluster q \<noteq> [] \<and> sp_cluster q = i)"

definition CanReadCluster :: "provider option \<Rightarrow> subject \<Rightarrow> string \<Rightarrow> acl_err + bool" where
  "CanReadCluster p subj clusterID =
     (if su_admin subj then Inr True
      else (case grantsFor p subj ScopeCluster of
              Inl e \<Rightarrow> Inl e
            | Inr ps \<Rightarrow> Inr (list_ex (cluster_match clusterID) ps)))"

definition repo_attrs :: "repo_row \<Rightarrow> scope_pattern" where
  "repo_attrs r = wildcard\<lparr>sp_provider := rr_provider r, sp_instance := rr_instance r,
     sp_owner := rr_org r, sp_slug := rr_slug r\<rparr>"

definition canReadRepoByID :: "provider option \<Rightarrow> subject \<Rightarrow> tables \<Rightarrow> string \<Rightarrow> acl_err + bool" where
  "canReadRepoByID p subj db repoID =
     (if repoID = [] then Inr False
      else (case find (\<lambda>r. rr_id r = repoID) (tb_repos db) of
              None \<Rightarrow> Inr False
            | Some r \<Rightarrow>
                if rr_provider r = [] \<and> rr_slug r = [] \<and> rr_org r = [] then Inr False
                else CanReadRepo p subj (rr_private r) (repo_attrs r)))"

text \<open>\<open>scam.clusterACLFilterCol\<close>: \<open>None\<close> to deny, otherwise the filter on a cluster id,
  in which the inner \<open>None\<close> stands for \<open>TRUE\<close>.\<close>

definition clusterACLFilterCol :: "provider option \<Rightarrow> subject \<Rightarrow> string list option option" where
  "clusterACLFilterCol p subj =
     (if bypass subj then Some None
      else (case p of
              None \<Rightarrow> None
            | Some f \<Rightarrow>
                (case f subj ScopeCluster of
                   Inl e \<Rightarrow> None
                 | Inr ps \<Rightarrow>
                     if list_ex IsWildcard ps then Some None
                     else if cluster_ids ps = [] then None else Some (Some (cluster_ids ps)))))"

definition cluster_filter_selects :: "tables \<Rightarrow> string list option option \<Rightarrow> string \<Rightarrow> bool" where
  "cluster_filter_selects db f i =
     (case f of
        None \<Rightarrow> False
      | Some None \<Rightarrow> True
      | Some (Some ids) \<Rightarrow> i \<in> set (resolve_clusters db ids))"

text \<open>\<open>uiapi.readableClusterIDSet\<close>: \<open>None\<close> when unrestricted.\<close>

definition readableClusterIDSet ::
    "provider option \<Rightarrow> subject \<Rightarrow> tables \<Rightarrow> acl_err + string list option" where
  "readableClusterIDSet p subj db =
     (if bypass subj then Inr None
      else (case p of
              None \<Rightarrow> Inr (Some [])
            | Some f \<Rightarrow>
                (case f subj ScopeCluster of
                   Inl e \<Rightarrow> Inl e
                 | Inr ps \<Rightarrow>
                     if list_ex IsWildcard ps then Inr None
                     else if cluster_ids ps = [] then Inr (Some [])
                     else Inr (Some (resolve_clusters db (cluster_ids ps))))))"

fun first_readable :: "provider option \<Rightarrow> subject \<Rightarrow> string list \<Rightarrow> acl_err + bool" where
  "first_readable p subj [] = Inr False"
| "first_readable p subj (i # is) =
     (if i = [] then first_readable p subj is
      else (case CanReadCluster p subj i of
              Inl e \<Rightarrow> Inl e
            | Inr True \<Rightarrow> Inr True
            | Inr False \<Rightarrow> first_readable p subj is))"

definition canReadCluster :: "provider option \<Rightarrow> subject \<Rightarrow> tables \<Rightarrow> string \<Rightarrow> acl_err + bool" where
  "canReadCluster p subj db clusterID =
     (if bypass subj then Inr True
      else (case CanReadCluster p subj clusterID of
              Inl e \<Rightarrow> Inl e
            | Inr True \<Rightarrow> Inr True
            | Inr False \<Rightarrow>
                (case find (\<lambda>c. cl_id c = clusterID) (tb_clusters db) of
                   None \<Rightarrow> Inr False
                 | Some c \<Rightarrow>
                     first_readable p subj [trim_char (CHR '' '') (cl_ror_slug c), cl_ror_uid c])))"

definition hasUnrestrictedRepos :: "provider option \<Rightarrow> subject \<Rightarrow> bool" where
  "hasUnrestrictedRepos p subj =
     (if bypass subj then True
      else (case p of
              None \<Rightarrow> False
            | Some f \<Rightarrow>
                (case f subj ScopeRepo of Inl e \<Rightarrow> False | Inr ps \<Rightarrow> list_ex IsWildcard ps)))"

definition repoIDSetWith ::
    "bool \<Rightarrow> provider option \<Rightarrow> subject \<Rightarrow> tables \<Rightarrow> acl_err + string list option" where
  "repoIDSetWith strict p subj db =
     (case (if strict then ReadableRepoClauseStrict p subj else ReadableRepoClause p subj) of
        Inl e \<Rightarrow> Inl e
      | Inr Unrestricted \<Rightarrow> Inr None
      | Inr (Restrict e) \<Rightarrow>
          if e = SFalse then Inr (Some [])
          else Inr (Some (map rr_id (filter (repo_sat db e) (tb_repos db)))))"

definition canReadImageByID ::
    "provider option \<Rightarrow> string list \<Rightarrow> subject \<Rightarrow> tables \<Rightarrow> string \<Rightarrow> acl_err + bool" where
  "canReadImageByID p hidden subj db imageID =
     (if imageID = [] then Inr False
      else if bypass subj then Inr True
      else (case ReadableImageClause p hidden subj of
              Inl e \<Rightarrow> Inl e
            | Inr Unrestricted \<Rightarrow> Inr True
            | Inr (Restrict e) \<Rightarrow>
                if e = SFalse then Inr False
                else Inr (list_ex (\<lambda>d. im_id d = imageID \<and> image_sat db e d) (tb_images db))))"

definition aclWhereFragment :: "string \<Rightarrow> clause \<Rightarrow> string \<times> sql_arg list" where
  "aclWhereFragment a c =
     (case c of
        Unrestricted \<Rightarrow> (''TRUE'', [])
      | Restrict e \<Rightarrow> if e = SFalse then (''FALSE'', []) else (''('' @ render a e @ '')'', bind_args e))"

section \<open>What access means\<close>

text \<open>
  The access rules, stated on the rows: a repository is readable when it is public, when
  a grant matches it, or when a verified image built from it runs in a granted cluster.
\<close>

definition cluster_names :: "cluster_row \<Rightarrow> string set" where
  "cluster_names c = {cl_id c, trim_char (CHR '' '') (cl_ror_slug c), cl_ror_uid c}"

definition grant_covers_cluster :: "tables \<Rightarrow> scope_pattern \<Rightarrow> string \<Rightarrow> bool" where
  "grant_covers_cluster db q i \<longleftrightarrow>
     IsWildcard q \<or>
     (sp_cluster q \<noteq> [] \<and>
      (\<exists>c \<in> set (tb_clusters db). cl_id c = i \<and> sp_cluster q \<in> cluster_names c))"

definition repo_bridged :: "tables \<Rightarrow> scope_pattern list \<Rightarrow> repo_row \<Rightarrow> bool" where
  "repo_bridged db cps r \<longleftrightarrow>
     (\<exists>d \<in> set (tb_images db). \<exists>i \<in> set (tb_inventory db). \<exists>q \<in> set cps.
        im_verified d \<and> im_source_repo d \<noteq> [] \<and> im_source_repo d = rr_id r \<and> runs_image i d \<and>
        grant_covers_cluster db q (iv_cluster i))"

definition repo_granted :: "scope_pattern list \<Rightarrow> repo_row \<Rightarrow> bool" where
  "repo_granted ps r \<longleftrightarrow> (\<exists>q \<in> set ps. repoPatternMatches q (repo_attrs r))"

definition image_pattern_matches :: "scope_pattern \<Rightarrow> image_row \<Rightarrow> bool" where
  "image_pattern_matches q d \<longleftrightarrow>
     IsWildcard q \<or>
     ((sp_registry q = [] \<or> sp_registry q = im_registry d) \<and>
      (sp_repository q = [] \<or> sp_repository q = im_repository d) \<and>
      (sp_digest q = [] \<or> sp_digest q = im_digest d) \<and>
      (sp_registry q \<noteq> [] \<or> sp_repository q \<noteq> [] \<or> sp_digest q \<noteq> []))"

definition image_readable ::
    "tables \<Rightarrow> string list \<Rightarrow> scope_pattern list \<Rightarrow> scope_pattern list \<Rightarrow> scope_pattern list \<Rightarrow> image_row \<Rightarrow> bool" where
  "image_readable db hidden ips ps cps d \<longleftrightarrow>
     (\<exists>q \<in> set ips. image_pattern_matches q d) \<or>
     im_verified d \<and>
       (if list_ex IsWildcard ps then im_source_repo d \<noteq> []
        else \<exists>r \<in> set (tb_repos db). rr_id r = im_source_repo d \<and>
               (\<not> rr_private r \<or> repo_granted ps r \<or> repo_bridged db cps r)) \<or>
     (\<exists>i \<in> set (tb_inventory db). \<exists>q \<in> set cps. runs_image i d \<and> ns_kept hidden (iv_namespace i) \<and>
        grant_covers_cluster db q (iv_cluster i))"

section \<open>The compiled conditions mean the rules\<close>

lemma resolve_clusters_iff:
  assumes "[] \<notin> set ids"
  shows "i \<in> set (resolve_clusters db ids) \<longleftrightarrow>
    (\<exists>c \<in> set (tb_clusters db). cl_id c = i \<and>
       (\<exists>g \<in> set ids. g \<in> cluster_names c))"
  using assms by (auto simp: resolve_clusters_def cluster_names_def)

lemma cluster_ids_ne: "[] \<notin> set (cluster_ids ps)"
  by (auto simp: cluster_ids_def)

lemma cluster_ids_iff: "g \<in> set (cluster_ids ps) \<longleftrightarrow> g \<noteq> [] \<and> (\<exists>q \<in> set ps. sp_cluster q = g)"
  by (auto simp: cluster_ids_def)

lemma resolve_grants:
  assumes "\<not> list_ex IsWildcard ps"
  shows "i \<in> set (resolve_clusters db (cluster_ids ps)) \<longleftrightarrow> (\<exists>q \<in> set ps. grant_covers_cluster db q i)"
proof -
  have nw: "\<not> IsWildcard q" if "q \<in> set ps" for q using assms that by (auto simp: list_ex_iff)
  have "(\<exists>q \<in> set ps. grant_covers_cluster db q i) \<longleftrightarrow>
      (\<exists>q \<in> set ps. sp_cluster q \<noteq> [] \<and>
         (\<exists>c \<in> set (tb_clusters db). cl_id c = i \<and> sp_cluster q \<in> cluster_names c))"
    using nw by (simp add: grant_covers_cluster_def cong: bex_cong)
  also have "\<dots> \<longleftrightarrow> (\<exists>c \<in> set (tb_clusters db). cl_id c = i \<and>
      (\<exists>g \<in> set (cluster_ids ps). g \<in> cluster_names c))"
    by (auto simp: cluster_ids_def)
  finally show ?thesis by (simp only: resolve_clusters_iff [OF cluster_ids_ne])
qed

lemma no_cluster_ids:
  "\<not> list_ex IsWildcard ps \<Longrightarrow> cluster_ids ps = [] \<Longrightarrow> q \<in> set ps \<Longrightarrow> \<not> grant_covers_cluster db q i"
  by (auto simp: grant_covers_cluster_def list_ex_iff cluster_ids_def filter_empty_conv)

lemma in_cluster_None [simp]: "in_cluster db None i" by (simp add: in_cluster_def)

lemma covers_wildcard:
  "list_ex IsWildcard ps \<Longrightarrow> \<exists>q \<in> set ps. grant_covers_cluster db q i"
  by (auto simp: list_ex_iff grant_covers_cluster_def)

lemma bridge_correct:
  "(case compileClusterRepoBridge cps of None \<Rightarrow> False | Some e \<Rightarrow> repo_sat db e r) \<longleftrightarrow> repo_bridged db cps r"
proof (cases "list_ex IsWildcard cps")
  case True
  then have "cps \<noteq> []" by auto
  with True show ?thesis
    using covers_wildcard [OF True, of db]
    by (auto simp: compileClusterRepoBridge_def repo_bridged_def list_ex_iff)
next
  case False
  show ?thesis
  proof (cases "cluster_ids cps = []")
    case True
    with False no_cluster_ids [OF False True] show ?thesis
      by (auto simp: compileClusterRepoBridge_def repo_bridged_def)
  next
    case ne: False
    then have "cps \<noteq> []" by (auto simp: cluster_ids_def)
    with False ne resolve_grants [OF False, of _ db] show ?thesis
      by (auto simp: compileClusterRepoBridge_def repo_bridged_def list_ex_iff in_cluster_def)
  qed
qed

lemma repo_conds_sat:
  assumes "\<not> IsWildcard q"
  shows "repo_conds q \<noteq> [] \<and> list_all (\<lambda>e. repo_sat db e r) (repo_conds q) \<longleftrightarrow>
    repoPatternMatches q (repo_attrs r)"
  using assms
  by (auto simp: repo_conds_def col_cond_def repoPatternMatches_def repo_attrs_def repo_col_def)

lemma image_conds_sat:
  assumes "\<not> IsWildcard q"
  shows "image_conds q \<noteq> [] \<and> list_all (\<lambda>e. image_sat db e d) (image_conds q) \<longleftrightarrow>
    image_pattern_matches q d"
  using assms
  by (auto simp: image_conds_def col_cond_def image_pattern_matches_def image_col_def)

lemma compileRepoPatterns_correct:
  assumes "compileRepoPatterns ps = (g, False)"
  shows "\<not> list_ex IsWildcard ps \<and>
    ((case g of None \<Rightarrow> False | Some e \<Rightarrow> repo_sat db e r) \<longleftrightarrow> repo_granted ps r)"
proof -
  have nw: "\<not> list_ex IsWildcard ps"
    using assms by (auto simp: compileRepoPatterns_def compile_patterns_def split: if_splits)
  have "(case g of None \<Rightarrow> False | Some e \<Rightarrow> repo_sat db e r) \<longleftrightarrow>
      (\<exists>q \<in> set ps. repo_conds q \<noteq> [] \<and> list_all (\<lambda>e. repo_sat db e r) (repo_conds q))"
    using assms nw
    by (auto simp: compileRepoPatterns_def compile_patterns_def Let_def list_ex_iff filter_empty_conv
        split: if_splits)
  with nw repo_conds_sat show ?thesis by (auto simp: repo_granted_def list_ex_iff)
qed

lemma compileImagePatterns_correct:
  assumes "compileImagePatterns ps = (g, False)"
  shows "\<not> list_ex IsWildcard ps \<and>
    ((case g of None \<Rightarrow> False | Some e \<Rightarrow> image_sat db e d) \<longleftrightarrow> (\<exists>q \<in> set ps. image_pattern_matches q d))"
proof -
  have nw: "\<not> list_ex IsWildcard ps"
    using assms by (auto simp: compileImagePatterns_def compile_patterns_def split: if_splits)
  have "(case g of None \<Rightarrow> False | Some e \<Rightarrow> image_sat db e d) \<longleftrightarrow>
      (\<exists>q \<in> set ps. image_conds q \<noteq> [] \<and> list_all (\<lambda>e. image_sat db e d) (image_conds q))"
    using assms nw
    by (auto simp: compileImagePatterns_def compile_patterns_def Let_def list_ex_iff filter_empty_conv
        split: if_splits)
  with nw image_conds_sat show ?thesis by (auto simp: list_ex_iff)
qed

lemma compile_wildcard:
  "compile_patterns conds ps = (g, True) \<Longrightarrow> list_ex IsWildcard ps"
  by (auto simp: compile_patterns_def Let_def split: if_splits)

lemma wildcard_grants: "list_ex IsWildcard ps \<Longrightarrow> repo_granted ps r"
  by (auto simp: repo_granted_def repoPatternMatches_def list_ex_iff)

lemma opt_part_sat:
  "list_ex (\<lambda>e. repo_sat db e r) (opt_part g) \<longleftrightarrow> (case g of None \<Rightarrow> False | Some e \<Rightarrow> repo_sat db e r)"
  by (simp add: opt_part_def split: option.split)

lemma opt_part_sat_image:
  "list_ex (\<lambda>e. image_sat db e d) (opt_part g) \<longleftrightarrow> (case g of None \<Rightarrow> False | Some e \<Rightarrow> image_sat db e d)"
  by (simp add: opt_part_def split: option.split)

lemma repoClauseParts_cases:
  assumes "grantsFor p subj ScopeRepo = Inr ps" and "grantsFor p subj ScopeCluster = Inr cps"
  shows "(repoClauseParts p subj = Inr None \<and> list_ex IsWildcard ps) \<or>
    (\<exists>g. repoClauseParts p subj = Inr (Some (g, compileClusterRepoBridge cps)) \<and> compileRepoPatterns ps = (g, False))"
  using assms compile_wildcard [of repo_conds ps]
  by (cases "compileRepoPatterns ps") (auto simp: repoClauseParts_def compileRepoPatterns_def split: bool.splits)

lemma ReadableRepoClause_correct:
  assumes nb: "\<not> bypass subj" and ps: "grantsFor p subj ScopeRepo = Inr ps"
    and cps: "grantsFor p subj ScopeCluster = Inr cps"
  shows "\<exists>c. ReadableRepoClause p subj = Inr c \<and>
    (\<forall>db r. repo_selected db c r \<longleftrightarrow> \<not> rr_private r \<or> repo_granted ps r \<or> repo_bridged db cps r)"
  using repoClauseParts_cases [OF ps cps]
proof
  assume "repoClauseParts p subj = Inr None \<and> list_ex IsWildcard ps"
  with nb wildcard_grants show ?thesis by (auto simp: ReadableRepoClause_def repo_selected_def)
next
  assume "\<exists>g. repoClauseParts p subj = Inr (Some (g, compileClusterRepoBridge cps)) \<and>
      compileRepoPatterns ps = (g, False)"
  then obtain g where g: "repoClauseParts p subj = Inr (Some (g, compileClusterRepoBridge cps))"
    "compileRepoPatterns ps = (g, False)" by blast
  let ?parts = "[RepoPublic] @ opt_part g @ opt_part (compileClusterRepoBridge cps)"
  let ?e = "if length ?parts = 1 then RepoPublic else Par (SOr ?parts)"
  have c: "ReadableRepoClause p subj = Inr (Restrict ?e)"
    using nb g(1) by (simp add: ReadableRepoClause_def Let_def)
  have "repo_sat db ?e r \<longleftrightarrow> list_ex (\<lambda>e. repo_sat db e r) ?parts" for db r by (auto simp: opt_part_def split: option.splits)
  then have "repo_selected db (Restrict ?e) r \<longleftrightarrow>
      \<not> rr_private r \<or> repo_granted ps r \<or> repo_bridged db cps r" for db r
    using compileRepoPatterns_correct [OF g(2), of db r] bridge_correct [where cps = cps and db = db and r = r]
    by (simp add: repo_selected_def opt_part_sat)
  with c show ?thesis by blast
qed

lemma inventory_correct:
  "(case compileClusterImageInheritance cps hidden of None \<Rightarrow> False | Some e \<Rightarrow> image_sat db e d) \<longleftrightarrow>
    (\<exists>i \<in> set (tb_inventory db). \<exists>q \<in> set cps. runs_image i d \<and> ns_kept hidden (iv_namespace i) \<and>
       grant_covers_cluster db q (iv_cluster i))"
proof (cases "list_ex IsWildcard cps")
  case True
  then have "cps \<noteq> []" by auto
  with True covers_wildcard [OF True, of db] show ?thesis
    by (auto simp: compileClusterImageInheritance_def list_ex_iff)
next
  case False
  show ?thesis
  proof (cases "cluster_ids cps = []")
    case True
    with False no_cluster_ids [OF False True] show ?thesis
      by (auto simp: compileClusterImageInheritance_def)
  next
    case ne: False
    then have "cps \<noteq> []" by (auto simp: cluster_ids_def)
    with False ne resolve_grants [OF False, of _ db] show ?thesis
      by (auto simp: compileClusterImageInheritance_def list_ex_iff in_cluster_def)
  qed
qed

text \<open>The compiled repository clause never is the denying one, and it is unrestricted only
  through a wildcard grant.\<close>

lemma ReadableRepoClause_shape:
  assumes "\<not> bypass subj" and "grantsFor p subj ScopeRepo = Inr ps" and "ReadableRepoClause p subj = Inr c"
  shows "c \<noteq> Restrict SFalse \<and> (c = Unrestricted \<longleftrightarrow> list_ex IsWildcard ps)"
proof (cases "compileRepoPatterns ps")
  case (Pair g w)
  have w: "w \<longleftrightarrow> list_ex IsWildcard ps"
    using Pair by (auto simp: compileRepoPatterns_def compile_patterns_def Let_def split: if_splits)
  show ?thesis
  proof (cases w)
    case True
    with Pair w assms show ?thesis by (simp add: ReadableRepoClause_def repoClauseParts_def)
  next
    case False
    with Pair assms obtain b where "repoClauseParts p subj = Inr (Some (g, b))"
      by (cases "grantsFor p subj ScopeCluster") (auto simp: ReadableRepoClause_def repoClauseParts_def)
    with assms(1,3) have "\<exists>e. c = Restrict e \<and> e \<noteq> SFalse"
      by (auto simp: ReadableRepoClause_def Let_def split: if_splits)
    with False w show ?thesis by auto
  qed
qed

lemma ReadableImageClause_selects:
  assumes nb: "\<not> bypass subj" and ips: "grantsFor p subj ScopeImage = Inr ips"
    and ps: "grantsFor p subj ScopeRepo = Inr ps" and cps: "grantsFor p subj ScopeCluster = Inr cps"
  shows "\<exists>c. ReadableImageClause p hidden subj = Inr c \<and>
    (\<forall>db d. image_selected db c d \<longleftrightarrow> image_readable db hidden ips ps cps d)"
proof (cases "compileImagePatterns ips")
  case (Pair g w)
  show ?thesis
  proof (cases w)
    case True
    with Pair have "list_ex IsWildcard ips"
      using compile_wildcard by (auto simp: compileImagePatterns_def)
    then show ?thesis
      using Pair True nb ips
      by (auto simp: ReadableImageClause_def image_selected_def image_pattern_matches_def
          image_readable_def list_ex_iff)
  next
    case False
    obtain rc where rc: "ReadableRepoClause p subj = Inr rc"
      and rsel: "\<And>db r. repo_selected db rc r \<longleftrightarrow> \<not> rr_private r \<or> repo_granted ps r \<or> repo_bridged db cps r"
      using ReadableRepoClause_correct [OF nb ps cps] by blast
    note shape = ReadableRepoClause_shape [OF nb ps rc]
    let ?inv = "case compileClusterImageInheritance cps hidden of None \<Rightarrow> [] | Some x \<Rightarrow> [x]"
    let ?parts = "repo_inherited rc @ opt_part g @ ?inv"
    have c: "ReadableImageClause p hidden subj = Inr (Restrict (SOr ?parts))"
      using nb ips Pair False rc cps shape
      by (auto simp: ReadableImageClause_def Let_def repo_inherited_def split: clause.splits)
    have inh: "list_ex (\<lambda>e. image_sat db e d) (repo_inherited rc) \<longleftrightarrow> im_verified d \<and>
        (if list_ex IsWildcard ps then im_source_repo d \<noteq> []
         else \<exists>r \<in> set (tb_repos db). rr_id r = im_source_repo d \<and>
                (\<not> rr_private r \<or> repo_granted ps r \<or> repo_bridged db cps r))" for db d
      using shape rsel [of db]
      by (cases rc) (auto simp: repo_inherited_def list_ex_iff repo_selected_def)
    have inv: "list_ex (\<lambda>e. image_sat db e d) ?inv \<longleftrightarrow>
        (\<exists>i \<in> set (tb_inventory db). \<exists>q \<in> set cps. runs_image i d \<and> ns_kept hidden (iv_namespace i) \<and>
           grant_covers_cluster db q (iv_cluster i))" for db d
      using inventory_correct [where cps = cps and hidden = hidden and db = db and d = d]
      by (auto split: option.splits)
    have "compileImagePatterns ips = (g, False)" using Pair False by simp
    from compileImagePatterns_correct [OF this]
    have "image_selected db (Restrict (SOr ?parts)) d \<longleftrightarrow>
       (\<exists>q \<in> set ips. image_pattern_matches q d) \<or>
       im_verified d \<and>
         (if list_ex IsWildcard ps then im_source_repo d \<noteq> []
          else \<exists>r \<in> set (tb_repos db). rr_id r = im_source_repo d \<and>
                 (\<not> rr_private r \<or> repo_granted ps r \<or> repo_bridged db cps r)) \<or>
       (\<exists>i \<in> set (tb_inventory db). \<exists>q \<in> set cps. runs_image i d \<and> ns_kept hidden (iv_namespace i) \<and>
          grant_covers_cluster db q (iv_cluster i))" for db d
      by (simp add: image_selected_def opt_part_sat_image inh inv) blast
    with c show ?thesis unfolding image_readable_def by blast
  qed
qed

text \<open>C24. The image filter returns exactly the images a subject may read: those an image grant
  matches, verified images whose source repository is readable, and images that run in a
  granted cluster in a namespace that is not hidden. An unverified image is never readable
  through its repository.\<close>

theorem ReadableImageClause_correct:
  assumes nb: "\<not> bypass subj" and ips: "grantsFor p subj ScopeImage = Inr ips"
    and ps: "grantsFor p subj ScopeRepo = Inr ps" and cps: "grantsFor p subj ScopeCluster = Inr cps"
  shows "\<exists>c. ReadableImageClause p hidden subj = Inr c \<and>
    (\<forall>db d. image_selected db c d \<longleftrightarrow>
       (\<exists>q \<in> set ips. image_pattern_matches q d) \<or>
       im_verified d \<and>
         (if list_ex IsWildcard ps then im_source_repo d \<noteq> []
          else \<exists>r \<in> set (tb_repos db). rr_id r = im_source_repo d \<and>
                 (\<not> rr_private r \<or> repo_granted ps r \<or> repo_bridged db cps r)) \<or>
       (\<exists>i \<in> set (tb_inventory db). \<exists>q \<in> set cps. runs_image i d \<and> ns_kept hidden (iv_namespace i) \<and>
          grant_covers_cluster db q (iv_cluster i)))"
  using ReadableImageClause_selects [OF assms] unfolding image_readable_def .

section \<open>Subjects without an identity\<close>

context acl_provider
begin

lemma zero_subject_denied:
  "ReadableRepoClause (Some grants) zero_subject = Inr (Restrict RepoPublic) \<and>
   ReadableRepoClauseStrict (Some grants) zero_subject = Inr (Restrict SFalse) \<and>
   ReadableClusterClause (Some grants) zero_subject = Inr (Restrict SFalse) \<and>
   clusterACLFilterCol (Some grants) zero_subject = None"
proof -
  have nb: "\<not> bypass zero_subject" by (simp add: bypass_def zero_subject_def)
  have g: "grantsFor (Some grants) zero_subject ty = Inr []" for ty by (simp add: grantsFor_def)
  show ?thesis
    using nb
    by (simp add: ReadableRepoClause_def ReadableRepoClauseStrict_def ReadableClusterClause_def
        clusterACLFilterCol_def repoClauseParts_def g compileRepoPatterns_def compile_patterns_def
        compileClusterRepoBridge_def compileClusterPatterns_def opt_part_def cluster_ids_def)
qed

end

section \<open>Clusters\<close>

lemma CanReadCluster_grants:
  assumes "\<not> bypass subj" and "grantsFor p subj ScopeCluster = Inr ps"
  shows "CanReadCluster p subj i = Inr (\<exists>q \<in> set ps. cluster_match i q)"
  using assms by (simp add: CanReadCluster_def bypass_def list_ex_iff)

lemma first_readable_grants:
  assumes "\<not> bypass subj" and "grantsFor p subj ScopeCluster = Inr ps"
  shows "first_readable p subj is = Inr (\<exists>i \<in> set is. i \<noteq> [] \<and> (\<exists>q \<in> set ps. cluster_match i q))"
  by (induction "is") (simp_all add: CanReadCluster_grants [OF assms] split: bool.split)

lemma find_cluster:
  "distinct (map cl_id cs) \<Longrightarrow> c \<in> set cs \<Longrightarrow> find (\<lambda>x. cl_id x = cl_id c) cs = Some c"
  by (induction cs) (auto simp: image_iff)

lemma canReadCluster_grants:
  assumes nb: "\<not> bypass subj" and ps: "grantsFor p subj ScopeCluster = Inr ps"
    and d: "distinct (map cl_id (tb_clusters db))" and c: "c \<in> set (tb_clusters db)"
  shows "canReadCluster p subj db (cl_id c) = Inr (\<exists>q \<in> set ps. grant_covers_cluster db q (cl_id c))"
proof -
  have one: "(\<exists>x \<in> set (tb_clusters db). cl_id x = cl_id c \<and> P x) \<longleftrightarrow> P c" for P
    using d c by (auto dest: distinct_map_eqD)
  have "canReadCluster p subj db (cl_id c) = Inr (\<exists>q \<in> set ps. cluster_match (cl_id c) q \<or>
      (\<exists>i \<in> {trim_char (CHR '' '') (cl_ror_slug c), cl_ror_uid c}. i \<noteq> [] \<and> cluster_match i q))"
    using nb
    by (auto simp: canReadCluster_def CanReadCluster_grants [OF nb ps] first_readable_grants [OF nb ps]
        find_cluster [OF d c] split: bool.split)
  moreover have "(cluster_match (cl_id c) q \<or>
      (\<exists>i \<in> {trim_char (CHR '' '') (cl_ror_slug c), cl_ror_uid c}. i \<noteq> [] \<and> cluster_match i q)) \<longleftrightarrow>
      grant_covers_cluster db q (cl_id c)" for q
    unfolding grant_covers_cluster_def one by (auto simp: cluster_match_def cluster_names_def)
  ultimately show ?thesis by simp
qed

section \<open>Placeholders\<close>

fun plain_cols :: "sql \<Rightarrow> bool" where
  "plain_cols (ColEq c v) = (CHR ''?'' \<notin> set c)"
| "plain_cols (ImageVerifiedIn e) = plain_cols e"
| "plain_cols (SAnd es) = list_all plain_cols es"
| "plain_cols (SOr es) = list_all plain_cols es"
| "plain_cols (Par e) = plain_cols e"
| "plain_cols e = True"

lemma count_marks_text:
  "count_list clusterGrantResolveSQL (CHR ''?'') = 3" "count_list inventory_join (CHR ''?'') = 0"
  "count_list quote_empty (CHR ''?'') = 0"
  by (simp_all add: clusterGrantResolveSQL_def inventory_join_def quote_empty_def)

lemma count_ns_where:
  "count_list (ns_where hidden) (CHR ''?'') = length (snd (ExclusionSQL ''namespace'' hidden))"
proof -
  have "count_list (fst (ExclusionSQL ''namespace'' hidden)) (CHR ''?'') =
      length (snd (ExclusionSQL ''namespace'' hidden))"
    by (simp add: ExclusionSQL_def count_list_join length_concat comp_def cond_placeholders)
  then show ?thesis
    by (cases "fst (ExclusionSQL ''namespace'' hidden) = []") (simp_all add: ns_where_def Let_def)
qed

lemma sum_list_cong_all: "list_all (\<lambda>e. f e = g e) es \<Longrightarrow> sum_list (map f es) = sum_list (map g es)"
  by (induction es) auto

lemma placeholders_match:
  "CHR ''?'' \<notin> set a \<Longrightarrow> plain_cols e \<Longrightarrow> count_list (render a e) (CHR ''?'') = length (bind_args e)"
proof (induction a e rule: render.induct)
  case (7 a es)
  then have "list_all (\<lambda>e. count_list (render a e) (CHR ''?'') = length (bind_args e)) es"
    by (auto simp: list_all_iff)
  then show ?case by (simp add: count_list_join length_concat comp_def sum_list_cong_all)
next
  case (8 a es)
  then have "list_all (\<lambda>e. count_list (render a e) (CHR ''?'') = length (bind_args e)) es"
    by (auto simp: list_all_iff)
  then show ?case by (simp add: count_list_join length_concat comp_def sum_list_cong_all)
qed (simp_all add: count_marks_text count_ns_where split: option.split)

lemma plain_repo_patterns: "compileRepoPatterns ps = (Some e, w) \<Longrightarrow> plain_cols e"
  by (auto simp: compileRepoPatterns_def compile_patterns_def Let_def repo_conds_def col_cond_def list_all_iff
      split: if_splits)

lemma plain_bridge: "compileClusterRepoBridge cps = Some e \<Longrightarrow> plain_cols e"
  by (auto simp: compileClusterRepoBridge_def split: if_splits)

lemma plain_opt_part: "(\<And>e. g = Some e \<Longrightarrow> plain_cols e) \<Longrightarrow> list_all plain_cols (opt_part g)"
  by (simp add: opt_part_def split: option.split)

lemma ReadableRepoClause_plain:
  assumes "\<not> bypass subj" and "grantsFor p subj ScopeRepo = Inr ps" and "grantsFor p subj ScopeCluster = Inr cps"
    and "ReadableRepoClause p subj = Inr (Restrict e)"
  shows "plain_cols e"
  using repoClauseParts_cases [OF assms(2,3)]
proof
  assume "repoClauseParts p subj = Inr None \<and> list_ex IsWildcard ps"
  with assms show ?thesis by (simp add: ReadableRepoClause_def)
next
  assume "\<exists>g. repoClauseParts p subj = Inr (Some (g, compileClusterRepoBridge cps)) \<and>
      compileRepoPatterns ps = (g, False)"
  then obtain g where g: "repoClauseParts p subj = Inr (Some (g, compileClusterRepoBridge cps))"
    "compileRepoPatterns ps = (g, False)" by blast
  have "list_all plain_cols (opt_part g)" "list_all plain_cols (opt_part (compileClusterRepoBridge cps))"
    using g(2) plain_repo_patterns [of ps _ False] plain_bridge [of cps] by (auto intro!: plain_opt_part)
  with assms(1,4) g(1) show ?thesis
    by (auto simp: ReadableRepoClause_def Let_def split: if_splits)
qed

lemma ReadableRepoClauseStrict_correct:
  assumes nb: "\<not> bypass subj" and ps: "grantsFor p subj ScopeRepo = Inr ps"
    and cps: "grantsFor p subj ScopeCluster = Inr cps"
  shows "\<exists>c. ReadableRepoClauseStrict p subj = Inr c \<and>
    (\<forall>db r. repo_selected db c r \<longleftrightarrow> repo_granted ps r \<or> repo_bridged db cps r)"
  using repoClauseParts_cases [OF ps cps]
proof
  assume "repoClauseParts p subj = Inr None \<and> list_ex IsWildcard ps"
  with nb wildcard_grants show ?thesis by (auto simp: ReadableRepoClauseStrict_def repo_selected_def)
next
  assume "\<exists>g. repoClauseParts p subj = Inr (Some (g, compileClusterRepoBridge cps)) \<and>
      compileRepoPatterns ps = (g, False)"
  then obtain g where g: "repoClauseParts p subj = Inr (Some (g, compileClusterRepoBridge cps))"
    "compileRepoPatterns ps = (g, False)" by blast
  let ?parts = "opt_part g @ opt_part (compileClusterRepoBridge cps)"
  let ?e = "if ?parts = [] then SFalse else SOr ?parts"
  have c: "ReadableRepoClauseStrict p subj = Inr (Restrict ?e)"
    using nb g(1) by (simp add: ReadableRepoClauseStrict_def Let_def)
  have "repo_sat db ?e r \<longleftrightarrow> list_ex (\<lambda>e. repo_sat db e r) ?parts" for db r by auto
  then have "repo_selected db (Restrict ?e) r \<longleftrightarrow> repo_granted ps r \<or> repo_bridged db cps r" for db r
    using compileRepoPatterns_correct [OF g(2), of db r] bridge_correct [where cps = cps and db = db and r = r]
    by (simp add: repo_selected_def opt_part_sat)
  with c show ?thesis by blast
qed

section \<open>Properties\<close>

definition sample_subject :: subject where
  "sample_subject = \<lparr>su_user = ''u'', su_groups = [''dev''], su_admin = False, su_global = False\<rparr>"

definition sample_provider :: provider where
  "sample_provider subj ty =
     Inr (if ty = ScopeRepo then [wildcard\<lparr>sp_provider := ''github'', sp_owner := ''me''\<rparr>]
          else if ty = ScopeCluster then [cluster_pattern ''c1''] else [])"

lemma sample_grants:
  "\<not> bypass sample_subject"
  "grantsFor (Some sample_provider) sample_subject ScopeRepo = Inr [wildcard\<lparr>sp_provider := ''github'', sp_owner := ''me''\<rparr>]"
  "grantsFor (Some sample_provider) sample_subject ScopeCluster = Inr [cluster_pattern ''c1'']"
  "grantsFor (Some sample_provider) sample_subject ScopeImage = Inr []"
  by (simp_all add: bypass_def sample_subject_def sample_provider_def grantsFor_def acl_const_defs)

theorem ReadableImageClause_correct_witness:
  "\<exists>c. ReadableImageClause (Some sample_provider) [] sample_subject = Inr c \<and>
     \<not> image_selected \<lparr>tb_repos = [], tb_images = [], tb_inventory = [], tb_clusters = []\<rparr> c
        \<lparr>im_id = ''i'', im_registry = ''r'', im_repository = ''p'', im_digest = ''d'', im_verified = False,
         im_source_repo = ''x''\<rparr>"
  using ReadableImageClause_correct [OF sample_grants(1,4,2,3), of "[]"] by force

text \<open>C23. The repository filters return exactly the readable rows: the open one public rows,
  rows a grant matches and rows bridged from a granted cluster by a verified image, the
  strict one the latter two; and the text of the open filter has as many placeholders as
  arguments.\<close>

theorem repo_clauses_select_readable:
  assumes nb: "\<not> bypass subj" and ps: "grantsFor p subj ScopeRepo = Inr ps"
    and cps: "grantsFor p subj ScopeCluster = Inr cps" and a: "CHR ''?'' \<notin> set a"
  shows "\<exists>c cs. ReadableRepoClause p subj = Inr c \<and> ReadableRepoClauseStrict p subj = Inr cs \<and>
    (\<forall>db r. (repo_selected db c r \<longleftrightarrow> \<not> rr_private r \<or> repo_granted ps r \<or> repo_bridged db cps r) \<and>
            (repo_selected db cs r \<longleftrightarrow> repo_granted ps r \<or> repo_bridged db cps r)) \<and>
    count_list (fst (aclWhereFragment a c)) (CHR ''?'') = length (snd (aclWhereFragment a c))"
proof -
  obtain c where c: "ReadableRepoClause p subj = Inr c"
    "\<forall>db r. repo_selected db c r \<longleftrightarrow> \<not> rr_private r \<or> repo_granted ps r \<or> repo_bridged db cps r"
    using ReadableRepoClause_correct [OF nb ps cps] by blast
  obtain cs where cs: "ReadableRepoClauseStrict p subj = Inr cs"
    "\<forall>db r. repo_selected db cs r \<longleftrightarrow> repo_granted ps r \<or> repo_bridged db cps r"
    using ReadableRepoClauseStrict_correct [OF nb ps cps] by blast
  have "count_list (fst (aclWhereFragment a c)) (CHR ''?'') = length (snd (aclWhereFragment a c))"
  proof (cases c)
    case (Restrict e)
    with ReadableRepoClause_plain [OF nb ps cps] c(1) have "plain_cols e" by simp
    with placeholders_match [OF a] Restrict show ?thesis by (simp add: aclWhereFragment_def)
  qed (simp add: aclWhereFragment_def)
  with c cs show ?thesis by blast
qed

theorem repo_clauses_select_readable_witness:
  "\<exists>c. ReadableRepoClause (Some sample_provider) sample_subject = Inr c \<and>
     repo_selected \<lparr>tb_repos = [], tb_images = [], tb_inventory = [], tb_clusters = []\<rparr> c
       \<lparr>rr_id = ''1'', rr_provider = ''github'', rr_instance = [], rr_org = ''me'', rr_slug = ''s'', rr_private = True\<rparr>"
proof -
  have "repo_granted [wildcard\<lparr>sp_provider := ''github'', sp_owner := ''me''\<rparr>]
      \<lparr>rr_id = ''1'', rr_provider = ''github'', rr_instance = [], rr_org = ''me'', rr_slug = ''s'', rr_private = True\<rparr>"
    by (simp add: repo_granted_def repoPatternMatches_def repo_attrs_def wildcard_def)
  with repo_clauses_select_readable [OF sample_grants(1,2,3), of "''r''"] show ?thesis by force
qed

text \<open>C25. The check of a single cluster and the filter of cluster lists agree on every
  registered cluster, whichever of its three names a grant uses.\<close>

theorem canReadCluster_agrees_with_filter:
  assumes d: "distinct (map cl_id (tb_clusters db))" and c: "c \<in> set (tb_clusters db)"
    and ps: "prov subj ScopeCluster = Inr ps"
  shows "canReadCluster (Some prov) subj db (cl_id c) =
      Inr (cluster_filter_selects db (clusterACLFilterCol (Some prov) subj) (cl_id c)) \<and>
    (\<exists>ids. readableClusterIDSet (Some prov) subj db = Inr ids \<and>
       (cluster_filter_selects db (clusterACLFilterCol (Some prov) subj) (cl_id c) \<longleftrightarrow>
          ids = None \<or> cl_id c \<in> set (the ids)))"
proof (cases "bypass subj")
  case True
  then show ?thesis
    by (simp add: canReadCluster_def clusterACLFilterCol_def cluster_filter_selects_def readableClusterIDSet_def)
next
  case False
  have g: "grantsFor (Some prov) subj ScopeCluster = Inr ps" using ps by (simp add: grantsFor_def)
  have "cluster_filter_selects db (clusterACLFilterCol (Some prov) subj) (cl_id c) \<longleftrightarrow>
      (\<exists>q \<in> set ps. grant_covers_cluster db q (cl_id c))"
    using False ps covers_wildcard [of ps db "cl_id c"] resolve_grants [of ps "cl_id c" db]
      no_cluster_ids [of ps _ db "cl_id c"]
    by (auto simp: clusterACLFilterCol_def cluster_filter_selects_def)
  with canReadCluster_grants [OF False g d c] show ?thesis
    using False ps
    by (auto simp: readableClusterIDSet_def clusterACLFilterCol_def cluster_filter_selects_def)
qed

definition sample_clusters :: tables where
  "sample_clusters = \<lparr>tb_repos = [], tb_images = [], tb_inventory = [],
     tb_clusters = [\<lparr>cl_id = ''k1'', cl_ror_slug = ''c1 '', cl_ror_uid = []\<rparr>]\<rparr>"

theorem canReadCluster_agrees_with_filter_witness:
  "canReadCluster (Some sample_provider) sample_subject sample_clusters ''k1'' = Inr True"
proof -
  have "cluster_filter_selects sample_clusters (clusterACLFilterCol (Some sample_provider) sample_subject) ''k1''"
    using sample_grants(1)
    by (simp add: cluster_filter_selects_def clusterACLFilterCol_def sample_provider_def acl_const_defs
        IsWildcard_def cluster_pattern_def wildcard_def cluster_ids_def resolve_clusters_def sample_clusters_def
        trim_eval)
  with canReadCluster_agrees_with_filter [of sample_clusters "\<lparr>cl_id = ''k1'', cl_ror_slug = ''c1 '', cl_ror_uid = []\<rparr>"
      sample_provider sample_subject]
  show ?thesis by (simp add: sample_clusters_def sample_provider_def acl_const_defs)
qed

text \<open>C26. The check of a single repository never admits a row the list hides, and the two
  agree for subjects that are no global readers and hold no cluster grant.\<close>

theorem canReadRepoByID_within_list:
  assumes ps: "grantsFor p subj ScopeRepo = Inr ps" and cps: "grantsFor p subj ScopeCluster = Inr cps"
    and r: "find (\<lambda>r. rr_id r = i) (tb_repos db) = Some r"
  shows "\<exists>c. ReadableRepoClause p subj = Inr c \<and>
    (canReadRepoByID p subj db i = Inr True \<longrightarrow> repo_selected db c r) \<and>
    (\<not> su_global subj \<and> cps = [] \<and> i \<noteq> [] \<and> rr_slug r \<noteq> [] \<longrightarrow>
       canReadRepoByID p subj db i = Inr (repo_selected db c r))"
proof (cases "bypass subj")
  case True
  then show ?thesis
    using r by (auto simp: ReadableRepoClause_def repo_selected_def bypass_def canReadRepoByID_def CanReadRepo_def)
next
  case False
  then have na: "\<not> su_admin subj" by (simp add: bypass_def)
  have can: "CanReadRepo p subj (rr_private r) (repo_attrs r) = Inr (\<not> rr_private r \<or> repo_granted ps r)"
    using na ps by (simp add: CanReadRepo_def repo_granted_def list_ex_iff)
  obtain c where c: "ReadableRepoClause p subj = Inr c"
    "repo_selected db c r \<longleftrightarrow> \<not> rr_private r \<or> repo_granted ps r \<or> repo_bridged db cps r"
    using ReadableRepoClause_correct [OF False ps cps] by blast
  have "repo_bridged db [] r = False" by (simp add: repo_bridged_def)
  with c can r show ?thesis
    by (intro exI [of _ c]) (auto simp: canReadRepoByID_def split: if_splits)
qed

theorem canReadRepoByID_within_list_witness:
  "\<exists>c. ReadableRepoClause None sample_subject = Inr c \<and>
     canReadRepoByID None sample_subject (sample_clusters\<lparr>tb_repos := [\<lparr>rr_id = ''1'', rr_provider = ''github'',
       rr_instance = [], rr_org = ''me'', rr_slug = ''s'', rr_private = False\<rparr>]\<rparr>) ''1'' = Inr True"
proof -
  let ?r = "\<lparr>rr_id = ''1'', rr_provider = ''github'', rr_instance = [], rr_org = ''me'', rr_slug = ''s'',
    rr_private = False\<rparr>"
  have g: "grantsFor None sample_subject ty = Inr []" for ty by (simp add: grantsFor_def)
  have f: "find (\<lambda>r. rr_id r = ''1'') (tb_repos (sample_clusters\<lparr>tb_repos := [?r]\<rparr>)) = Some ?r" by simp
  have "canReadRepoByID None sample_subject (sample_clusters\<lparr>tb_repos := [?r]\<rparr>) ''1'' = Inr True"
    by (simp add: canReadRepoByID_def CanReadRepo_def)
  with canReadRepoByID_within_list [OF g g f] show ?thesis by blast
qed

text \<open>C27. A global reader sees every private repository in the lists, but the check of a
  single one denies it unless a grant matches; the same holds for a repository bridged
  from a granted cluster.\<close>

theorem CanReadRepo_denies_listed:
  assumes priv: "rr_private r" and na: "\<not> su_admin subj" and ps: "grantsFor p subj ScopeRepo = Inr ps"
    and cps: "grantsFor p subj ScopeCluster = Inr cps" and ng: "\<not> repo_granted ps r"
    and listed: "su_global subj \<or> repo_bridged db cps r"
  shows "CanReadRepo p subj (rr_private r) (repo_attrs r) = Inr False \<and>
    (\<exists>c. ReadableRepoClause p subj = Inr c \<and> repo_selected db c r)"
proof
  show "CanReadRepo p subj (rr_private r) (repo_attrs r) = Inr False"
    using priv na ps ng by (simp add: CanReadRepo_def repo_granted_def list_ex_iff)
  show "\<exists>c. ReadableRepoClause p subj = Inr c \<and> repo_selected db c r"
  proof (cases "bypass subj")
    case True
    then show ?thesis by (simp add: ReadableRepoClause_def repo_selected_def)
  next
    case False
    with listed ReadableRepoClause_correct [OF False ps cps] show ?thesis by (auto simp: bypass_def)
  qed
qed

theorem CanReadRepo_denies_listed_witness:
  "CanReadRepo None (sample_subject\<lparr>su_global := True\<rparr>) True
     (repo_attrs \<lparr>rr_id = ''1'', rr_provider = ''github'', rr_instance = [], rr_org = ''me'', rr_slug = ''s'',
        rr_private = True\<rparr>) = Inr False"
  using CanReadRepo_denies_listed [of "\<lparr>rr_id = ''1'', rr_provider = ''github'', rr_instance = [], rr_org = ''me'',
      rr_slug = ''s'', rr_private = True\<rparr>" "sample_subject\<lparr>su_global := True\<rparr>" None "[]" "[]" sample_clusters]
  by (simp add: sample_subject_def grantsFor_def repo_granted_def)

text \<open>C28. A create request whose pattern holds only misspelt keys is accepted and stored as a
  wildcard: every member of the group it names then reads every repository.\<close>

theorem misspelt_pattern_grants_everything:
  assumes keys: "\<forall>kv \<in> set kvs. to_lower (fst kv) \<notin> set pattern_keys"
    and body: "body = JObj [(''subject_type'', JStr ''group''), (''subject_id'', JStr ''dev''),
      (''scope_type'', JStr ''repo''), (''scope_pattern'', JObj kvs)]"
    and fresh: "\<forall>g \<in> set table. g_id g \<noteq> uuid"
    and new: "\<forall>g \<in> set table. g_pattern g \<noteq> Some (JObj [])"
    and member: "''dev'' \<in> set (su_groups subj)"
  shows "\<exists>table'. AdminACLGrantsCreate (Some adminID) True now uuid (Some body) table = (201, table') \<and>
    ReadableRepoClause (Some (local_Grants True table')) subj = Inr Unrestricted"
proof -
  have pat: "encode_pattern wildcard = JObj []"
    by (simp add: encode_pattern_def nonempty_field_def wildcard_def)
  let ?req = "\<lparr>cg_subject_type = ''group'', cg_subject_id = ''dev'', cg_scope_type = ''repo'',
    cg_pattern = Some wildcard, cg_action = []\<rparr>"
  have req: "decode_create_grant body = Some ?req"
    by (simp add: body decode_create_grant_def decode_unknown_keys [OF keys] del: string_field.simps)
      simp
  let ?g = "\<lparr>g_id = uuid, g_subject_type = ''group'', g_subject_id = ''dev'', g_scope_type = ''repo'',
    g_pattern = Some (JObj []), g_action = ''read'', g_source = ''explicit'', g_created_at = now,
    g_created_by = adminID\<rparr>"
  have g: "buildGrantFromRequest now uuid ?req adminID = Inr ?g"
    by (simp add: buildGrantFromRequest_def acl_const_defs trim_eval pat)
  have ins: "insert_grant ?g table = Inr (table @ [?g])"
    using fresh new by (auto simp: insert_grant_def same_identity_def list_ex_iff)
  have created: "AdminACLGrantsCreate (Some adminID) True now uuid (Some body) table = (201, table @ [?g])"
    by (simp add: AdminACLGrantsCreate_def req g ins)
  have ne: "su_groups subj \<noteq> []" using member by auto
  have app: "grant_applies subj ScopeRepo ?g"
    using member ne by (simp add: grant_applies_def acl_const_defs)
  have gp: "grant_pattern ?g = Some wildcard"
    by (simp add: grant_pattern_def decode_pattern_def wildcard_def)
  obtain ps where ps: "local_Grants True (table @ [?g]) subj ScopeRepo = Inr ps" "wildcard \<in> set ps"
    using ne app gp by (simp add: local_Grants_def List.map_filter_def)
  then have "compileRepoPatterns ps = (None, True)"
    by (auto simp: compileRepoPatterns_def compile_patterns_def list_ex_iff IsWildcard_def)
  with ps(1) have "ReadableRepoClause (Some (local_Grants True (table @ [?g]))) subj = Inr Unrestricted"
    by (simp add: ReadableRepoClause_def repoClauseParts_def grantsFor_def)
  with created show ?thesis by blast
qed

theorem misspelt_pattern_grants_everything_witness:
  "\<exists>table'. AdminACLGrantsCreate (Some ''root'') True 0 ''g1'' (Some (JObj [(''subject_type'', JStr ''group''),
       (''subject_id'', JStr ''dev''), (''scope_type'', JStr ''repo''),
       (''scope_pattern'', JObj [(''onwer'', JStr ''me'')])])) [] = (201, table') \<and>
     ReadableRepoClause (Some (local_Grants True table')) sample_subject = Inr Unrestricted"
  by (rule misspelt_pattern_grants_everything [OF _ refl])
    (auto simp: sample_subject_def pattern_keys_def lower_eval)

text \<open>C29. A request that no middleware has given a subject reads public data only: with the
  local and the ROR provider chained, the repository filter selects exactly the public
  repositories, the image filter exactly the verified images built from a public repository, the
  strict repository filter and the cluster filters nothing.\<close>

theorem anonymous_is_denied:
  fixes ok table get call token
  defines "p \<equiv> Some (chain_Grants [local_Grants ok table, ror_Grants get call token])"
  shows "\<exists>rc sc ic. ReadableRepoClause p zero_subject = Inr rc \<and>
    ReadableRepoClauseStrict p zero_subject = Inr sc \<and>
    ReadableImageClause p hidden zero_subject = Inr ic \<and>
    ReadableClusterClause p zero_subject = Inr (Restrict SFalse) \<and> clusterACLFilterCol p zero_subject = None \<and>
    (\<forall>db r. repo_selected db rc r \<longleftrightarrow> \<not> rr_private r) \<and> (\<forall>db r. \<not> repo_selected db sc r) \<and>
    (\<forall>db d. image_selected db ic d \<longleftrightarrow>
       im_verified d \<and> (\<exists>r \<in> set (tb_repos db). rr_id r = im_source_repo d \<and> \<not> rr_private r))"
proof -
  have nb: "\<not> bypass zero_subject" by (simp add: bypass_def zero_subject_def)
  have g: "grantsFor p zero_subject ty = Inr []" for ty
    unfolding p_def grantsFor_def by simp
  note den = chain_provider.zero_subject_denied [of ok table get call token, folded p_def]
  obtain rc where rc: "ReadableRepoClause p zero_subject = Inr rc"
    "\<forall>db r. repo_selected db rc r \<longleftrightarrow> \<not> rr_private r \<or> repo_granted [] r \<or> repo_bridged db [] r"
    using ReadableRepoClause_correct [OF nb g g] by blast
  obtain sc where sc: "ReadableRepoClauseStrict p zero_subject = Inr sc"
    "\<forall>db r. repo_selected db sc r \<longleftrightarrow> repo_granted [] r \<or> repo_bridged db [] r"
    using ReadableRepoClauseStrict_correct [OF nb g g] by blast
  obtain ic where ic: "ReadableImageClause p hidden zero_subject = Inr ic"
    "\<forall>db d. image_selected db ic d \<longleftrightarrow> image_readable db hidden [] [] [] d"
    using ReadableImageClause_selects [OF nb g g g] by blast
  have none: "\<not> repo_granted [] r" "\<not> repo_bridged db [] r" for db r
    by (simp_all add: repo_granted_def repo_bridged_def)
  show ?thesis
    using rc sc ic den by (simp add: none image_readable_def)
qed

end
