(* ===== verification/Triage.thy ===== *)
theory Triage
  imports Asset_Risk ACL_Scope "HOL-Library.Multiset"
begin

text \<open>
  The triage page: \<open>LoadTriage\<close> of \<open>internal/assetrisk/metrics.go\<close> with its
  ranking and its pages, and the handler of \<open>internal/uiapi/triage_dashboard.go\<close> that
  scopes it to what the caller may read.

  The materialized view \<open>asset_risk\<close> is the list of its rows in the order the database
  returns them. A row filter is a tree, as in \<open>ACL_Scope\<close>, with the text and the
  arguments the code builds and with its meaning on a row.
\<close>

section \<open>Ranking\<close>

text \<open>The comparison given to \<open>sort.SliceStable\<close>, and a stable sort by it.\<close>

definition triage_less :: "signals \<Rightarrow> signals \<Rightarrow> bool" where
  "triage_less a b =
     (if (ActiveSecretCount a > 0) \<noteq> (ActiveSecretCount b > 0) then ActiveSecretCount a > 0
      else if ActiveSecretCount a \<noteq> ActiveSecretCount b
        then ActiveSecretCount a > ActiveSecretCount b
      else if ExposedKEVCount a \<noteq> ExposedKEVCount b then ExposedKEVCount a > ExposedKEVCount b
      else if (KEVCount a > 0) \<noteq> (KEVCount b > 0) then KEVCount a > 0
      else if EPSSMax a \<noteq> EPSSMax b then EPSSMax a > EPSSMax b
      else if CriticalCount a \<noteq> CriticalCount b then CriticalCount a > CriticalCount b
      else AssetSlug a < AssetSlug b)"

fun insert_stable :: "('a \<Rightarrow> 'a \<Rightarrow> bool) \<Rightarrow> 'a \<Rightarrow> 'a list \<Rightarrow> 'a list" where
  "insert_stable lt x [] = [x]"
| "insert_stable lt x (y # ys) = (if lt y x then y # insert_stable lt x ys else x # y # ys)"

definition SliceStable :: "('a \<Rightarrow> 'a \<Rightarrow> bool) \<Rightarrow> 'a list \<Rightarrow> 'a list" where
  "SliceStable lt xs = foldr (insert_stable lt) xs []"

section \<open>Rows, sections and the response\<close>

record advisory_info =
  ad_Summary :: string
  ad_SummaryModel :: string
  ad_Verdict :: string
  ad_VerdictJustification :: string
  ad_VerdictConfidence :: float32
  ad_VerdictMissingData :: string
  ad_GeneratedAt :: go_time
  ad_Stale :: bool

record advisory_row =
  ar_info :: advisory_info
  ar_asset_type :: string
  ar_asset_id :: string
  ar_signals_hash :: string

record triage_row =
  tr_signals :: signals
  tr_threat :: int
  tr_trust :: int
  tr_grade :: string
  tr_tier :: string
  tr_reasons :: "reason list"
  tr_context :: "reason list"
  tr_advisory :: "advisory_info option"

record section_counts =
  sc_total :: nat
  sc_repo :: nat
  sc_image :: nat

record paged_section =
  ps_counts :: section_counts
  ps_limit :: int
  ps_offset :: int
  ps_rows :: "triage_row list"

record triage_scope =
  ts_clusters :: nat
  ts_repos :: nat
  ts_images :: nat
  ts_needs_attention :: nat
  ts_fix_now_total :: nat
  ts_this_week_total :: nat
  ts_avg_trust :: int
  ts_refreshed_at :: "go_time option"

record triage_response =
  re_scope :: triage_scope
  re_fix_now :: "triage_row list"
  re_this_week :: "triage_row list"
  re_watch :: paged_section
  re_deprioritized :: paged_section
  re_clusters :: "triage_row list"

definition defaultWatchLimit :: int where "defaultWatchLimit = 50"
definition maxWatchLimit :: int where "maxWatchLimit = 500"
definition fixNowCap :: nat where "fixNowCap = 100"
definition thisWeekCap :: nat where "thisWeekCap = 200"
definition clusterLensCap :: nat where "clusterLensCap = 50"

lemmas triage_consts = defaultWatchLimit_def maxWatchLimit_def fixNowCap_def thisWeekCap_def
  clusterLensCap_def

definition pageLimitOrDefault :: "int \<Rightarrow> int" where
  "pageLimitOrDefault limit =
     (if limit \<le> 0 then defaultWatchLimit
      else if limit > maxWatchLimit then maxWatchLimit else limit)"

definition rankTriage :: "triage_row list \<Rightarrow> triage_row list" where
  "rankTriage rows = SliceStable (\<lambda>a b. triage_less (tr_signals a) (tr_signals b)) rows"

text \<open>The slice expression \<open>all[off:end]\<close>.\<close>

definition slice :: "int \<Rightarrow> int \<Rightarrow> 'a list \<Rightarrow> 'a list" where
  "slice a b xs = take (nat (b - a)) (drop (nat a) xs)"

definition search_rows :: "string \<Rightarrow> triage_row list \<Rightarrow> triage_row list" where
  "search_rows search rows =
     (let q = trim_space search
      in if q \<noteq> [] then filter (\<lambda>r. contains (to_lower (AssetSlug (tr_signals r))) (to_lower q)) rows
         else rows)"

definition paginateSection :: "paged_section \<Rightarrow> triage_row list \<Rightarrow> string \<Rightarrow> int \<Rightarrow> paged_section" where
  "paginateSection sec rows search offset =
     (let rows = search_rows search rows;
          off = clamp offset 0 (int (length rows));
          end' = clamp (off + ps_limit sec) 0 (int (length rows))
      in sec\<lparr>ps_counts := \<lparr>sc_total = length rows,
               sc_repo = count_where (\<lambda>r. AssetType (tr_signals r) = ''repo'') rows,
               sc_image = count_where (\<lambda>r. AssetType (tr_signals r) = ''image'') rows\<rparr>,
             ps_rows := slice off end' rows\<rparr>)"

section \<open>Loading\<close>

text \<open>
  A row filter of one kind of asset: \<open>TRUE\<close>, \<open>FALSE\<close>, or the assets whose id is
  in a subquery or a list.
\<close>

datatype fragment = FragTrue | FragFalse | FragRepos sql | FragImages sql | FragIDs "string list"

fun fragment_sql :: "fragment \<Rightarrow> string \<times> sql_arg list" where
  "fragment_sql FragTrue = (''TRUE'', [])"
| "fragment_sql FragFalse = (''FALSE'', [])"
| "fragment_sql (FragRepos e) =
     (''asset_id IN (SELECT r.id FROM repos r WHERE '' @ render ''r'' e @ '')'', bind_args e)"
| "fragment_sql (FragImages e) =
     (''asset_id IN (SELECT d.id FROM image_digests d WHERE '' @ render ''d'' e @ '')'', bind_args e)"
| "fragment_sql (FragIDs ids) = (''asset_id IN ?'', [AStrs ids])"

fun fragment_sat :: "tables \<Rightarrow> fragment \<Rightarrow> string \<Rightarrow> bool" where
  "fragment_sat db FragTrue i = True"
| "fragment_sat db FragFalse i = False"
| "fragment_sat db (FragRepos e) i = list_ex (\<lambda>r. rr_id r = i \<and> repo_sat db e r) (tb_repos db)"
| "fragment_sat db (FragImages e) i = list_ex (\<lambda>d. im_id d = i \<and> image_sat db e d) (tb_images db)"
| "fragment_sat db (FragIDs ids) i = (i \<in> set ids)"

text \<open>An unset fragment (the empty string) is \<open>None\<close>.\<close>

record triage_params =
  tp_watch_limit :: int
  tp_watch_offset :: int
  tp_watch_search :: string
  tp_deprio_limit :: int
  tp_deprio_offset :: int
  tp_deprio_search :: string
  tp_repo :: "fragment option"
  tp_image :: "fragment option"
  tp_cluster :: "fragment option"

definition or_false :: "fragment option \<Rightarrow> fragment" where
  "or_false f = (case f of None \<Rightarrow> FragFalse | Some x \<Rightarrow> x)"

definition visible :: "tables \<Rightarrow> triage_params \<Rightarrow> signals \<Rightarrow> bool" where
  "visible db p s \<longleftrightarrow>
     AssetType s = ''repo'' \<and> fragment_sat db (or_false (tp_repo p)) (AssetID s)
     \<or> AssetType s = ''image'' \<and> fragment_sat db (or_false (tp_image p)) (AssetID s)
     \<or> AssetType s = ''cluster'' \<and> fragment_sat db (or_false (tp_cluster p)) (AssetID s)"

definition joined_digest :: "tables \<Rightarrow> signals \<Rightarrow> string" where
  "joined_digest db s =
     (if AssetType s = ''image''
      then (case find (\<lambda>d. im_id d = AssetID s) (tb_images db) of None \<Rightarrow> [] | Some d \<Rightarrow> im_digest d)
      else [])"

text \<open>\<open>ok\<close> is false when the query fails.\<close>

definition loadAllRows :: "bool \<Rightarrow> tables \<Rightarrow> signals list \<Rightarrow> triage_params \<Rightarrow> signals list option" where
  "loadAllRows ok db view p =
     (if ok then Some (map (\<lambda>s. s\<lparr>ImageDigest := joined_digest db s\<rparr>) (filter (visible db p) view))
      else None)"

text \<open>\<open>None\<close> when the query fails; a later row replaces an earlier one under its key.\<close>

definition loadAdvisories :: "advisory_row list option \<Rightarrow> string \<Rightarrow> advisory_row option" where
  "loadAdvisories rows =
     (case rows of
        None \<Rightarrow> (\<lambda>_. None)
      | Some rs \<Rightarrow> fold (\<lambda>r m. m(ar_asset_type r @ ''|'' @ ar_asset_id r \<mapsto> r)) rs (\<lambda>_. None))"

text \<open>The process-wide flag: whether the view was once seen populated. \<open>probe\<close> is what the
  catalogue query answers, \<open>None\<close> when it fails.\<close>

definition assetRiskReady :: "bool \<Rightarrow> bool option \<Rightarrow> bool \<times> bool" where
  "assetRiskReady cached probe =
     (if cached then (True, cached)
      else if probe \<noteq> Some True then (False, cached)
      else (True, True))"

record triage_env =
  te_log :: "rat \<Rightarrow> int \<Rightarrow> rat"
  te_sha :: "string \<Rightarrow> string"
  te_probe :: "bool option"
  te_rows_ok :: bool
  te_refreshed_at :: "go_time option"
  te_advisories :: "advisory_row list option"

definition row_advisory ::
    "(string \<Rightarrow> string) \<Rightarrow> (string \<Rightarrow> advisory_row option) \<Rightarrow> signals \<Rightarrow> advisory_info option" where
  "row_advisory sha advisories sig =
     (case advisories (AssetType sig @ ''|'' @ AssetID sig) of
        None \<Rightarrow> None
      | Some adv \<Rightarrow> Some ((ar_info adv)\<lparr>ad_Stale := (ar_signals_hash adv \<noteq> SignalsHash sha sig)\<rparr>))"

definition score_row :: "triage_env \<Rightarrow> signals \<Rightarrow> triage_row" where
  "score_row env sig =
     (let tier = Tier sig; trust = TrustScore sig
      in \<lparr>tr_signals = sig, tr_threat = ThreatScore (te_log env) sig, tr_trust = trust,
          tr_grade = TrustGrade trust, tr_tier = tier, tr_reasons = TierReasons sig tier,
          tr_context = ContextReasons sig,
          tr_advisory = row_advisory (te_sha env) (loadAdvisories (te_advisories env)) sig\<rparr>)"

definition in_tier :: "string \<Rightarrow> triage_row \<Rightarrow> bool" where
  "in_tier tier r \<longleftrightarrow> AssetType (tr_signals r) \<noteq> ''cluster'' \<and> tr_tier r = tier"

definition in_lens :: "triage_row \<Rightarrow> bool" where
  "in_lens r \<longleftrightarrow> AssetType (tr_signals r) = ''cluster'' \<and> tr_tier r \<noteq> TierSkip"

definition avg_trust :: "triage_row list \<Rightarrow> int" where
  "avg_trust rows =
     (if length rows > 0 then sum_list (map tr_trust rows) div int (length rows) else 0)"

definition empty_section :: "int \<Rightarrow> int \<Rightarrow> paged_section" where
  "empty_section limit offset =
     \<lparr>ps_counts = \<lparr>sc_total = 0, sc_repo = 0, sc_image = 0\<rparr>,
      ps_limit = pageLimitOrDefault limit, ps_offset = offset, ps_rows = []\<rparr>"

definition empty_response :: "triage_params \<Rightarrow> triage_response" where
  "empty_response p =
     \<lparr>re_scope = \<lparr>ts_clusters = 0, ts_repos = 0, ts_images = 0, ts_needs_attention = 0,
        ts_fix_now_total = 0, ts_this_week_total = 0, ts_avg_trust = 0, ts_refreshed_at = None\<rparr>,
      re_fix_now = [], re_this_week = [],
      re_watch = empty_section (tp_watch_limit p) (tp_watch_offset p),
      re_deprioritized = empty_section (tp_deprio_limit p) (tp_deprio_offset p),
      re_clusters = []\<rparr>"

definition build_response :: "triage_env \<Rightarrow> triage_params \<Rightarrow> signals list \<Rightarrow> triage_response" where
  "build_response env p sigs =
     (let rows = map (score_row env) sigs;
          fixNow = rankTriage (filter (in_tier TierFixNow) rows);
          thisWeek = rankTriage (filter (in_tier TierThisWeek) rows);
          watchAll = rankTriage (filter (in_tier TierWatch) rows);
          deprioAll = rankTriage (filter (in_tier TierDeprioritized) rows);
          clusters = rankTriage (filter in_lens rows);
          resp = empty_response p
      in \<lparr>re_scope =
            \<lparr>ts_clusters = count_where (\<lambda>s. AssetType s = ''cluster'') sigs,
             ts_repos = count_where (\<lambda>s. AssetType s = ''repo'') sigs,
             ts_images = count_where (\<lambda>s. AssetType s = ''image'') sigs,
             ts_needs_attention = length fixNow + length thisWeek,
             ts_fix_now_total = length fixNow, ts_this_week_total = length thisWeek,
             ts_avg_trust = avg_trust (fixNow @ thisWeek @ watchAll),
             ts_refreshed_at = te_refreshed_at env\<rparr>,
          re_fix_now = take fixNowCap fixNow,
          re_this_week = take thisWeekCap thisWeek,
          re_watch = paginateSection (re_watch resp) watchAll (tp_watch_search p) (tp_watch_offset p),
          re_deprioritized =
            paginateSection (re_deprioritized resp) deprioAll (tp_deprio_search p) (tp_deprio_offset p),
          re_clusters = take clusterLensCap clusters\<rparr>)"

text \<open>The response, or \<open>None\<close> for the error of the row query; with the flag it leaves.\<close>

definition LoadTriage ::
    "triage_env \<Rightarrow> tables \<Rightarrow> signals list \<Rightarrow> triage_params \<Rightarrow> bool \<Rightarrow> triage_response option \<times> bool" where
  "LoadTriage env db view p cached =
     (case assetRiskReady cached (te_probe env) of
        (False, c) \<Rightarrow> (Some (empty_response p), c)
      | (True, c) \<Rightarrow>
          (case loadAllRows (te_rows_ok env) db view p of
             None \<Rightarrow> (None, c)
           | Some sigs \<Rightarrow> (Some (build_response env p sigs), c)))"

section \<open>The handler\<close>

definition triageRepoFragment :: "clause \<Rightarrow> fragment" where
  "triageRepoFragment c =
     (case c of
        Unrestricted \<Rightarrow> FragTrue
      | Restrict e \<Rightarrow> if Deny c then FragFalse else FragRepos e)"

definition triageImageFragment :: "clause \<Rightarrow> fragment" where
  "triageImageFragment c =
     (case c of
        Unrestricted \<Rightarrow> FragTrue
      | Restrict e \<Rightarrow> if Deny c then FragFalse else FragImages e)"

definition triageClusterFragment :: "provider option \<Rightarrow> subject \<Rightarrow> tables \<Rightarrow> fragment" where
  "triageClusterFragment p subj db =
     (case readableClusterIDSet p subj db of
        Inl e \<Rightarrow> FragFalse
      | Inr None \<Rightarrow> FragTrue
      | Inr (Some ids) \<Rightarrow> if ids = [] then FragFalse else FragIDs (remdups ids))"

text \<open>
  The page parameters are what \<open>parseIntDefault\<close> made of the query string. The second
  component is the body of a 200.
\<close>

definition requireApproved :: "subject \<Rightarrow> bool" where
  "requireApproved subj \<longleftrightarrow> su_user subj \<noteq> []"

definition TriageHandler ::
    "provider option \<Rightarrow> string list \<Rightarrow> subject \<Rightarrow> triage_env \<Rightarrow> tables \<Rightarrow> signals list \<Rightarrow>
     triage_params \<Rightarrow> bool \<Rightarrow> int \<times> triage_response option \<times> bool" where
  "TriageHandler prov hidden subj env db view q cached =
     (if \<not> requireApproved subj then (403, None, cached)
      else (case ReadableRepoClauseStrict prov subj of
              Inl e \<Rightarrow> (500, None, cached)
            | Inr rc \<Rightarrow>
                (case ReadableImageClause prov hidden subj of
                   Inl e \<Rightarrow> (500, None, cached)
                 | Inr ic \<Rightarrow>
                     (let p = q\<lparr>tp_repo := Some (triageRepoFragment rc),
                            tp_image := Some (triageImageFragment ic),
                            tp_cluster := Some (triageClusterFragment prov subj db)\<rparr>
                      in (case LoadTriage env db view p cached of
                            (None, c) \<Rightarrow> (500, None, c)
                          | (Some resp, c) \<Rightarrow> (200, Some resp, c))))))"

section \<open>The ranking is a stable sort by a key\<close>

definition triage_key :: "signals \<Rightarrow> bool \<times> int \<times> int \<times> bool \<times> rat \<times> int \<times> string" where
  "triage_key s = (ActiveSecretCount s \<le> 0, - ActiveSecretCount s, - ExposedKEVCount s,
     KEVCount s \<le> 0, - EPSSMax s, - CriticalCount s, AssetSlug s)"

lemma lex_if: "(x, u) < (y, v) \<longleftrightarrow> (if x \<noteq> y then x < y else u < v)"
  for x y :: "'a :: linorder" and u v :: "'b :: order"
  by auto

lemma triage_less_key: "triage_less a b \<longleftrightarrow> triage_key a < triage_key b"
  unfolding triage_less_def triage_key_def lex_if
  by (intro if_cong refl) (auto simp: not_le)

lemma insert_stable_key:
  assumes "\<And>a b. lt a b \<longleftrightarrow> key a < (key b :: 'k :: linorder)"
  shows "insert_stable lt x ys = insort_key key x ys"
  by (induction ys) (auto simp: assms)

lemma SliceStable_key:
  assumes "\<And>a b. lt a b \<longleftrightarrow> key a < (key b :: 'k :: linorder)"
  shows "SliceStable lt xs = sort_key key xs"
proof -
  have "insert_stable lt = insort_key key" by (intro ext insert_stable_key assms)
  then show ?thesis by (simp add: SliceStable_def sort_key_def)
qed

lemma rankTriage_sort: "rankTriage rows = sort_key (triage_key \<circ> tr_signals) rows"
  unfolding rankTriage_def by (rule SliceStable_key) (simp add: triage_less_key)

lemma length_rankTriage [simp]: "length (rankTriage rows) = length rows"
  by (simp add: rankTriage_sort)

lemma set_rankTriage [simp]: "set (rankTriage rows) = set rows"
  by (simp add: rankTriage_sort)

abbreviation row_less :: "triage_row \<Rightarrow> triage_row \<Rightarrow> bool" where
  "row_less a b \<equiv> triage_less (tr_signals a) (tr_signals b)"

lemma rankTriage_sorted: "sorted_wrt (\<lambda>a b. \<not> row_less b a) (rankTriage rows)"
proof -
  have "sorted_wrt (\<lambda>a b. triage_key (tr_signals a) \<le> triage_key (tr_signals b)) (rankTriage rows)"
    using sorted_sort_key [of "triage_key \<circ> tr_signals" rows]
    by (simp add: rankTriage_sort sorted_map comp_def)
  then show ?thesis by (simp add: triage_less_key not_less)
qed

text \<open>C35. The ranking of a tier keeps its rows and orders them by urgency: more active secrets
  first; among equals more exposed KEV findings; then rows with a KEV finding before those
  without; then the higher EPSS; then more criticals; then the slug in alphabetical order. Rows
  that agree in all six keep the order they came in.\<close>

theorem rankTriage_stable_sort:
  fixes rows :: "triage_row list"
  defines "before \<equiv> \<lambda>a b.
      ActiveSecretCount a > ActiveSecretCount b \<or> ActiveSecretCount a = ActiveSecretCount b \<and>
      (ExposedKEVCount a > ExposedKEVCount b \<or> ExposedKEVCount a = ExposedKEVCount b \<and>
      (KEVCount a > 0 \<and> KEVCount b \<le> 0 \<or> (KEVCount a > 0) = (KEVCount b > 0) \<and>
      (EPSSMax a > EPSSMax b \<or> EPSSMax a = EPSSMax b \<and>
      (CriticalCount a > CriticalCount b \<or> CriticalCount a = CriticalCount b \<and>
       AssetSlug a \<le> AssetSlug b))))"
    and "bands \<equiv> \<lambda>s. (ActiveSecretCount s, ExposedKEVCount s, KEVCount s > 0, EPSSMax s, CriticalCount s, AssetSlug s)"
  shows "mset (rankTriage rows) = mset rows
   \<and> sorted_wrt (\<lambda>r q. before (tr_signals r) (tr_signals q)) (rankTriage rows)
   \<and> filter (\<lambda>r. bands (tr_signals r) = x) (rankTriage rows) = filter (\<lambda>r. bands (tr_signals r) = x) rows"
proof -
  have before: "triage_key a \<le> triage_key b \<longleftrightarrow> before a b" for a b
    by (auto simp: triage_key_def before_def)
  have bands: "bands s = x \<longleftrightarrow> triage_key s = (case x of (n, e, k, v, c, g) \<Rightarrow> (n \<le> 0, - n, - e, \<not> k, - v, - c, g))"
    for s by (cases x) (auto simp: bands_def triage_key_def)
  have "sorted_wrt (\<lambda>r q. triage_key (tr_signals r) \<le> triage_key (tr_signals q)) (rankTriage rows)"
    using sorted_sort_key [of "triage_key \<circ> tr_signals" rows]
    by (simp add: rankTriage_sort sorted_map comp_def)
  moreover have "filter (\<lambda>r. (triage_key \<circ> tr_signals) r = k) (rankTriage rows) =
      filter (\<lambda>r. (triage_key \<circ> tr_signals) r = k) rows" for k
    unfolding rankTriage_sort by (rule sort_key_stable)
  ultimately show ?thesis
    unfolding before bands by (simp add: rankTriage_sort)
qed

section \<open>Pages\<close>

lemma slice_clamped:
  assumes "0 \<le> limit"
  shows "slice (clamp off 0 (int (length xs)))
      (clamp (clamp off 0 (int (length xs)) + limit) 0 (int (length xs))) xs
    = take (nat limit) (drop (nat off) xs)"
proof -
  have "take (nat limit) (drop n xs) = take (nat (int (length xs) - int n)) (drop n xs)"
    if "int (length xs) < int n + limit" "n \<le> length xs" for n
    using that by simp
  then show ?thesis
    using assms by (auto simp: slice_def clamp_def nat_add_distrib)
qed

lemma pageLimit_bounds: "1 \<le> pageLimitOrDefault l \<and> pageLimitOrDefault l \<le> 500"
  by (simp add: pageLimitOrDefault_def triage_consts)

lemma paginate_rows:
  "ps_rows (paginateSection (empty_section l o') rows search off)
     = take (nat (pageLimitOrDefault l)) (drop (nat off) (search_rows search rows))"
  using pageLimit_bounds [of l] slice_clamped [of "pageLimitOrDefault l" off "search_rows search rows"]
  by (simp add: paginateSection_def empty_section_def Let_def)



section \<open>What the page shows\<close>

lemma Tier_digest [simp]: "Tier (s\<lparr>ImageDigest := d\<rparr>) = Tier s"
  by (cases s) (simp only: Tier_def signals.simps)

lemma score_row_simps [simp]:
  "tr_signals (score_row env s) = s" "tr_tier (score_row env s) = Tier s"
  by (simp_all add: score_row_def Let_def)

lemma Tier_cases:
  "Tier s \<in> {TierFixNow, TierThisWeek, TierWatch, TierDeprioritized, TierSkip}"
  by (simp add: Tier_bands)

text \<open>How many visible images and repositories have a tier.\<close>

definition tier_total :: "string \<Rightarrow> signals list \<Rightarrow> nat" where
  "tier_total tier sigs = count_where (\<lambda>s. AssetType s \<noteq> ''cluster'' \<and> Tier s = tier) sigs"

lemma length_in_tier: "length (filter (in_tier tier) (map (score_row env) sigs)) = tier_total tier sigs"
  by (induction sigs) (simp_all add: tier_total_def in_tier_def)

lemma tier_total_sum:
  "tier_total TierFixNow sigs + tier_total TierThisWeek sigs + tier_total TierWatch sigs
     + tier_total TierDeprioritized sigs + tier_total TierSkip sigs
   = count_where (\<lambda>s. AssetType s \<noteq> ''cluster'') sigs"
proof (induction sigs)
  case (Cons s sigs)
  then show ?case using Tier_cases [of s] by (auto simp: tier_total_def)
qed (simp add: tier_total_def)

lemma asset_types:
  "list_all (\<lambda>s. AssetType s \<in> {''repo'', ''image'', ''cluster''}) sigs \<Longrightarrow>
   count_where (\<lambda>s. AssetType s \<noteq> ''cluster'') sigs
     = count_where (\<lambda>s. AssetType s = ''repo'') sigs + count_where (\<lambda>s. AssetType s = ''image'') sigs"
  by (induction sigs) auto

lemma take_prefers:
  assumes "sorted_wrt R xs" "x \<in> set xs" "x \<notin> set (take n xs)" "y \<in> set (take n xs)"
  shows "R y x"
proof -
  have "sorted_wrt R (take n xs @ drop n xs)" using assms(1) by simp
  then have "\<forall>a \<in> set (take n xs). \<forall>b \<in> set (drop n xs). R a b"
    unfolding sorted_wrt_append by blast
  moreover have "x \<in> set (take n xs) \<union> set (drop n xs)"
    using assms(2) by (simp only: set_append [symmetric] append_take_drop_id)
  ultimately show ?thesis using assms(3,4) by blast
qed

definition shown_in :: "triage_row list \<Rightarrow> nat \<Rightarrow> string \<Rightarrow> signals list \<Rightarrow> bool" where
  "shown_in rows cap tier sigs \<longleftrightarrow>
     length rows = min cap (tier_total tier sigs)
     \<and> sorted_wrt (\<lambda>a b. \<not> row_less b a) rows
     \<and> (\<forall>r \<in> set rows. tr_signals r \<in> set sigs \<and> Tier (tr_signals r) = tier)
     \<and> (\<forall>s \<in> set sigs. AssetType s \<noteq> ''cluster'' \<and> Tier s = tier \<longrightarrow>
          s \<in> tr_signals ` set rows \<or> (\<forall>r \<in> set rows. \<not> triage_less s (tr_signals r)))"

lemma capped_tier_shown:
  "shown_in (take cap (rankTriage (filter (in_tier tier) (map (score_row env) sigs)))) cap tier sigs"
proof -
  let ?rows = "rankTriage (filter (in_tier tier) (map (score_row env) sigs))"
  have "\<not> triage_less s (tr_signals r)"
    if "s \<in> set sigs" "AssetType s \<noteq> ''cluster''" "Tier s = tier" "r \<in> set (take cap ?rows)"
      "s \<notin> tr_signals ` set (take cap ?rows)" for s r
  proof -
    have "score_row env s \<in> set ?rows" using that by (simp add: in_tier_def)
    moreover have "score_row env s \<notin> set (take cap ?rows)" using that(5) by force
    ultimately show ?thesis
      using take_prefers [OF rankTriage_sorted [of "filter (in_tier tier) (map (score_row env) sigs)"],
          of "score_row env s" cap r] that(4) by simp
  qed
  moreover have "sorted_wrt (\<lambda>a b. \<not> row_less b a) (take cap ?rows)"
    by (intro sorted_wrt_take rankTriage_sorted)
  moreover have "tr_signals r \<in> set sigs \<and> Tier (tr_signals r) = tier" if "r \<in> set (take cap ?rows)" for r
    using in_set_takeD [OF that] by (auto simp: in_tier_def)
  moreover have "length (take cap ?rows) = min cap (tier_total tier sigs)"
    using length_in_tier [of tier env sigs] by (simp only: length_take length_rankTriage min.commute)
  ultimately show ?thesis unfolding shown_in_def by blast
qed

lemma LoadTriage_ready:
  assumes "assetRiskReady cached (te_probe env) = (True, c)" "te_rows_ok env"
  shows "LoadTriage env db view p cached = (Some (build_response env p
    (map (\<lambda>s. s\<lparr>ImageDigest := joined_digest db s\<rparr>) (filter (visible db p) view))), c)"
  using assms by (simp add: LoadTriage_def loadAllRows_def)

lemma visible_types: "visible db p s \<Longrightarrow> AssetType s \<in> {''repo'', ''image'', ''cluster''}"
  by (auto simp: visible_def)

lemma search_rows_blank [simp]: "search_rows [] rows = rows"
  by (simp add: search_rows_def trim_eval)

lemma build_response_totals:
  "ts_fix_now_total (re_scope (build_response env p sigs)) = tier_total TierFixNow sigs"
  "ts_this_week_total (re_scope (build_response env p sigs)) = tier_total TierThisWeek sigs"
  "ts_needs_attention (re_scope (build_response env p sigs))
     = tier_total TierFixNow sigs + tier_total TierThisWeek sigs"
  "tp_watch_search p = [] \<Longrightarrow>
     sc_total (ps_counts (re_watch (build_response env p sigs))) = tier_total TierWatch sigs"
  "tp_deprio_search p = [] \<Longrightarrow>
     sc_total (ps_counts (re_deprioritized (build_response env p sigs))) = tier_total TierDeprioritized sigs"
  using length_in_tier [of _ env sigs]
  by (simp_all add: build_response_def Let_def paginateSection_def del: filter_map)

text \<open>C37. The page accounts for every visible asset. The fix-now and this-week lists are capped
  at 100 and 200 rows, hold only visible assets of their tier, in rank order, and an asset they
  leave out is not more urgent than any they show; their totals, which are not capped, with the
  totals of the watched and the deprioritized section and the skipped assets add up to all
  visible repositories and images.\<close>

theorem LoadTriage_accounts_for_all:
  assumes "assetRiskReady cached (te_probe env) = (True, c)" "te_rows_ok env"
    and "tp_watch_search p = []" "tp_deprio_search p = []"
  shows "\<exists>resp sigs. LoadTriage env db view p cached = (Some resp, c)
    \<and> sigs = map (\<lambda>s. s\<lparr>ImageDigest := joined_digest db s\<rparr>) (filter (visible db p) view)
    \<and> shown_in (re_fix_now resp) 100 TierFixNow sigs
    \<and> shown_in (re_this_week resp) 200 TierThisWeek sigs
    \<and> ts_needs_attention (re_scope resp) = tier_total TierFixNow sigs + tier_total TierThisWeek sigs
    \<and> ts_needs_attention (re_scope resp) + sc_total (ps_counts (re_watch resp))
        + sc_total (ps_counts (re_deprioritized resp)) + tier_total TierSkip sigs
      = ts_repos (re_scope resp) + ts_images (re_scope resp)"
proof -
  define sigs where "sigs = map (\<lambda>s. s\<lparr>ImageDigest := joined_digest db s\<rparr>) (filter (visible db p) view)"
  let ?resp = "build_response env p sigs"
  have "list_all (\<lambda>s. AssetType s \<in> {''repo'', ''image'', ''cluster''}) sigs"
    unfolding sigs_def using visible_types by (fastforce simp: list_all_iff)
  then have "tier_total TierFixNow sigs + tier_total TierThisWeek sigs + tier_total TierWatch sigs
      + tier_total TierDeprioritized sigs + tier_total TierSkip sigs
    = ts_repos (re_scope ?resp) + ts_images (re_scope ?resp)"
    using tier_total_sum [of sigs] asset_types [of sigs] by (simp add: build_response_def Let_def)
  moreover have "shown_in (re_fix_now ?resp) 100 TierFixNow sigs"
    "shown_in (re_this_week ?resp) 200 TierThisWeek sigs"
    using capped_tier_shown [of fixNowCap TierFixNow env sigs] capped_tier_shown [of thisWeekCap TierThisWeek env sigs]
    by (simp_all add: build_response_def Let_def triage_consts)
  ultimately show ?thesis
    using LoadTriage_ready [OF assms(1,2), of db view p] assms(3,4)
      build_response_totals [where env = env and p = p and sigs = sigs]
    unfolding sigs_def [symmetric] by (intro exI [of _ ?resp] exI [of _ sigs]) simp
qed

definition sample_triage_env :: triage_env where
  "sample_triage_env = \<lparr>te_log = (\<lambda>k n. k), te_sha = id, te_probe = Some True, te_rows_ok = True,
     te_refreshed_at = None, te_advisories = None\<rparr>"

definition sample_params :: triage_params where
  "sample_params = \<lparr>tp_watch_limit = 0, tp_watch_offset = 0, tp_watch_search = [], tp_deprio_limit = 0,
     tp_deprio_offset = 0, tp_deprio_search = [], tp_repo = None, tp_image = Some FragTrue,
     tp_cluster = None\<rparr>"

theorem LoadTriage_accounts_for_all_witness:
  "\<exists>resp. LoadTriage sample_triage_env sample_clusters [scanned\<lparr>ActiveSecretCount := 1\<rparr>, scanned]
       sample_params False = (Some resp, True)
     \<and> ts_needs_attention (re_scope resp) = 1 \<and> length (re_fix_now resp) = 1"
proof -
  let ?view = "[scanned\<lparr>ActiveSecretCount := 1\<rparr>, scanned]"
  have v: "filter (visible sample_clusters sample_params) ?view = ?view"
    by (simp add: visible_def scanned_def sample_params_def or_false_def)
  have t: "Tier (scanned\<lparr>ActiveSecretCount := 1\<rparr>) = TierFixNow" "Tier scanned = TierSkip"
    by (simp_all add: tier_eval)
  have a: "AssetType scanned \<noteq> ''cluster''" by (simp add: scanned_def)
  have r: "assetRiskReady False (te_probe sample_triage_env) = (True, True)" "te_rows_ok sample_triage_env"
    "tp_watch_search sample_params = []" "tp_deprio_search sample_params = []"
    by (simp_all add: assetRiskReady_def sample_triage_env_def sample_params_def)
  from LoadTriage_accounts_for_all [OF r, of sample_clusters ?view] show ?thesis
    unfolding v using t a by (auto simp: shown_in_def tier_total_def)
qed

section \<open>Only readable assets are shown\<close>

text \<open>What the access rules of \<open>ACL_Scope\<close> say of an asset.\<close>

definition asset_readable ::
    "tables \<Rightarrow> string list \<Rightarrow> scope_pattern list \<Rightarrow> scope_pattern list \<Rightarrow> scope_pattern list \<Rightarrow> signals \<Rightarrow> bool" where
  "asset_readable db hidden ips ps cps s \<longleftrightarrow>
     AssetType s = ''repo'' \<and>
       (\<forall>r \<in> set (tb_repos db). rr_id r = AssetID s \<longrightarrow> repo_granted ps r \<or> repo_bridged db cps r)
     \<or> AssetType s = ''image'' \<and>
       (\<forall>d \<in> set (tb_images db). im_id d = AssetID s \<longrightarrow> image_readable db hidden ips ps cps d)
     \<or> AssetType s = ''cluster'' \<and> (\<exists>q \<in> set cps. grant_covers_cluster db q (AssetID s))"

lemma repo_fragment_sound:
  assumes "fragment_sat db (triageRepoFragment c) i" "r \<in> set (tb_repos db)" "rr_id r = i"
    "distinct (map rr_id (tb_repos db))"
  shows "repo_selected db c r"
  using assms distinct_map_eqD [of rr_id "tb_repos db"]
  by (auto simp: triageRepoFragment_def repo_selected_def list_ex_iff split: clause.splits if_splits)

lemma image_fragment_sound:
  assumes "fragment_sat db (triageImageFragment c) i" "d \<in> set (tb_images db)" "im_id d = i"
    "distinct (map im_id (tb_images db))"
  shows "image_selected db c d"
  using assms distinct_map_eqD [of im_id "tb_images db"]
  by (auto simp: triageImageFragment_def image_selected_def list_ex_iff split: clause.splits if_splits)

lemma cluster_fragment_sound:
  assumes "fragment_sat db (triageClusterFragment p subj db) i" "\<not> bypass subj"
    "grantsFor p subj ScopeCluster = Inr cps"
  shows "\<exists>q \<in> set cps. grant_covers_cluster db q i"
proof (cases p)
  case None
  then show ?thesis using assms by (simp add: triageClusterFragment_def readableClusterIDSet_def)
next
  case (Some f)
  with assms(3) have "f subj ScopeCluster = Inr cps" by (simp add: grantsFor_def)
  then show ?thesis
    using assms(1,2) Some covers_wildcard [of cps db i] resolve_grants [of cps i db]
    by (auto simp: triageClusterFragment_def readableClusterIDSet_def split: if_splits)
qed

definition shown_rows :: "triage_response \<Rightarrow> triage_row list" where
  "shown_rows resp = re_fix_now resp @ re_this_week resp @ ps_rows (re_watch resp)
     @ ps_rows (re_deprioritized resp) @ re_clusters resp"

lemma shown_rows_build: "r \<in> set (shown_rows (build_response env p sigs)) \<Longrightarrow> tr_signals r \<in> set sigs"
  by (auto simp: shown_rows_def build_response_def empty_response_def Let_def paginate_rows search_rows_def
      dest!: in_set_takeD in_set_dropD split: if_splits)

lemma shown_rows_visible:
  assumes "LoadTriage env db view p cached = (Some resp, c)" "r \<in> set (shown_rows resp)"
  shows "visible db p (tr_signals r)"
proof -
  have "shown_rows (empty_response p) = []"
    by (simp add: shown_rows_def empty_response_def empty_section_def)
  then obtain sigs where "loadAllRows (te_rows_ok env) db view p = Some sigs" "resp = build_response env p sigs"
    using assms by (auto simp: LoadTriage_def split: prod.splits bool.splits option.splits)
  then show ?thesis
    using shown_rows_build [of r env p sigs] assms(2)
    by (auto simp: loadAllRows_def visible_def split: if_splits)
qed

text \<open>C2. The triage page shows a caller only what the access rules let them read. For a caller
  who is neither an administrator nor a global reader, every row of every section, the cluster
  lens included, is a repository a grant matches or a granted cluster runs a verified image of,
  an image readable by the image rules, or a cluster one of the grants covers.\<close>

theorem triage_shows_only_readable:
  assumes nb: "\<not> bypass subj"
    and ips: "grantsFor prov subj ScopeImage = Inr ips" and ps: "grantsFor prov subj ScopeRepo = Inr ps"
    and cps: "grantsFor prov subj ScopeCluster = Inr cps"
    and dr: "distinct (map rr_id (tb_repos db))" and di: "distinct (map im_id (tb_images db))"
    and resp: "TriageHandler prov hidden subj env db view q cached = (200, Some resp, c)"
    and r: "r \<in> set (shown_rows resp)"
  shows "asset_readable db hidden ips ps cps (tr_signals r)"
proof -
  obtain rc where rc: "ReadableRepoClauseStrict prov subj = Inr rc"
    "\<And>db r. repo_selected db rc r \<longleftrightarrow> repo_granted ps r \<or> repo_bridged db cps r"
    using ReadableRepoClauseStrict_correct [OF nb ps cps] by blast
  obtain ic where ic: "ReadableImageClause prov hidden subj = Inr ic"
    "\<And>db d. image_selected db ic d \<longleftrightarrow> image_readable db hidden ips ps cps d"
    using ReadableImageClause_selects [OF nb ips ps cps] by blast
  let ?p = "q\<lparr>tp_repo := Some (triageRepoFragment rc), tp_image := Some (triageImageFragment ic),
    tp_cluster := Some (triageClusterFragment prov subj db)\<rparr>"
  have "LoadTriage env db view ?p cached = (Some resp, c)"
    using resp rc(1) ic(1)
    by (auto simp: TriageHandler_def Let_def split: if_splits prod.splits option.splits)
  then have "visible db ?p (tr_signals r)" using r by (rule shown_rows_visible)
  then show ?thesis
    using repo_fragment_sound [OF _ _ _ dr, of rc "AssetID (tr_signals r)"] rc(2)
      image_fragment_sound [OF _ _ _ di, of ic "AssetID (tr_signals r)"] ic(2)
      cluster_fragment_sound [OF _ nb cps, of db "AssetID (tr_signals r)"]
    unfolding visible_def asset_readable_def by (auto simp: or_false_def)
qed

theorem triage_shows_only_readable_witness:
  "\<exists>resp r. TriageHandler (Some sample_provider) [] sample_subject sample_triage_env sample_clusters
       [scanned\<lparr>AssetType := ''cluster'', AssetID := ''k1'', KEVCount := 1\<rparr>] sample_params False
       = (200, Some resp, True)
     \<and> r \<in> set (shown_rows resp)
     \<and> asset_readable sample_clusters [] [] [wildcard\<lparr>sp_provider := ''github'', sp_owner := ''me''\<rparr>]
         [cluster_pattern ''c1''] (tr_signals r)"
proof -
  let ?s = "scanned\<lparr>AssetType := ''cluster'', AssetID := ''k1'', KEVCount := 1\<rparr>"
  let ?d = "?s\<lparr>ImageDigest := joined_digest sample_clusters ?s\<rparr>"
  let ?row = "score_row sample_triage_env ?d"
  have ap: "requireApproved sample_subject" by (simp add: requireApproved_def sample_subject_def)
  obtain rc where rc: "ReadableRepoClauseStrict (Some sample_provider) sample_subject = Inr rc"
    using ReadableRepoClauseStrict_correct [OF sample_grants(1-3)] by blast
  obtain ic where ic: "ReadableImageClause (Some sample_provider) [] sample_subject = Inr ic"
    using ReadableImageClause_selects [OF sample_grants(1,4,2,3)] by blast
  let ?p = "sample_params\<lparr>tp_repo := Some (triageRepoFragment rc), tp_image := Some (triageImageFragment ic),
    tp_cluster := Some (triageClusterFragment (Some sample_provider) sample_subject sample_clusters)\<rparr>"
  let ?resp = "build_response sample_triage_env ?p [?d]"
  have "triageClusterFragment (Some sample_provider) sample_subject sample_clusters = FragIDs [''k1'']"
    using sample_grants(1)
    by (simp add: triageClusterFragment_def readableClusterIDSet_def sample_provider_def acl_const_defs
        IsWildcard_def cluster_pattern_def wildcard_def cluster_ids_def resolve_clusters_def sample_clusters_def
        trim_eval)
  then have v: "filter (visible sample_clusters ?p) [?s] = [?s]"
    by (simp add: visible_def or_false_def scanned_def)
  have "assetRiskReady False (te_probe sample_triage_env) = (True, True)" "te_rows_ok sample_triage_env"
    by (simp_all add: assetRiskReady_def sample_triage_env_def)
  then have "LoadTriage sample_triage_env sample_clusters [?s] ?p False = (Some ?resp, True)"
    using LoadTriage_ready [of False sample_triage_env True sample_clusters "[?s]" ?p] unfolding v by simp
  then have h: "TriageHandler (Some sample_provider) [] sample_subject sample_triage_env sample_clusters [?s]
      sample_params False = (200, Some ?resp, True)"
    by (simp add: TriageHandler_def rc ic Let_def ap)
  have "in_lens ?row" by (simp add: in_lens_def Tier_digest) (simp add: tier_eval)
  then have m: "?row \<in> set (shown_rows ?resp)"
    by (simp add: shown_rows_def build_response_def Let_def triage_consts rankTriage_sort)
  have "distinct (map rr_id (tb_repos sample_clusters))" "distinct (map im_id (tb_images sample_clusters))"
    by (simp_all add: sample_clusters_def)
  with triage_shows_only_readable [OF sample_grants(1,4,2,3) _ _ h m] h m show ?thesis by blast
qed

end
