(* ===== verification/View_Refresh.thy ===== *)
theory View_Refresh
  imports Go_Prelude
begin

text \<open>
  Refreshing the materialized views. The first half is the database side
  (\<open>internal/db/views.go\<close>, \<open>asset_risk_view.go\<close>, \<open>host_exposure_view.go\<close>,
  \<open>cluster_summary_view.go\<close>): the record of refreshes, the debounce window, the source
  fingerprint, the advisory lock, and the five families of views. The second half is the
  in-process gate that \<open>assetrisk\<close>, \<open>hostexposure\<close>, \<open>clustersummary\<close>,
  \<open>sbomviews\<close> and \<open>vulnmetrics\<close> each keep, with the cascades between them.

  An attempt to refresh takes an \<open>attempt_env\<close>: the clock readings, what the database
  answers, and what other replicas do to the database before the lock is taken. The
  locks of the database are the list of keys some other session holds.
\<close>

section \<open>The record of refreshes\<close>

record mv_db =
  mv_rows :: "string \<Rightarrow> (go_time \<times> string) option"
  mv_populated :: "string list"
  mv_locks :: "int list"
  mv_indexdef :: string

definition assetRiskViewRefreshInterval :: duration where
  "assetRiskViewRefreshInterval = 5 * minute"
definition hostExposureViewRefreshInterval :: duration where
  "hostExposureViewRefreshInterval = 5 * minute"
definition vulnUnifiedViewRefreshInterval :: duration where
  "vulnUnifiedViewRefreshInterval = 5 * minute"
definition clusterViewRefreshInterval :: duration where
  "clusterViewRefreshInterval = 2 * minute"
definition sbomViewRefreshInterval :: duration where
  "sbomViewRefreshInterval = 15 * minute"
definition clusterDerivedViewMaxSkipAge :: duration where
  "clusterDerivedViewMaxSkipAge = 30 * minute"
definition sbomViewMaxSkipAge :: duration where
  "sbomViewMaxSkipAge = 6 * hour"

lemmas interval_defs = assetRiskViewRefreshInterval_def hostExposureViewRefreshInterval_def
  vulnUnifiedViewRefreshInterval_def clusterViewRefreshInterval_def sbomViewRefreshInterval_def
  clusterDerivedViewMaxSkipAge_def sbomViewMaxSkipAge_def duration_defs

definition sbomViewRefreshLockID :: int where "sbomViewRefreshLockID = 8742635912"
definition vulnUnifiedViewRefreshLockID :: int where "vulnUnifiedViewRefreshLockID = 8742635913"
definition assetRiskViewRefreshLockID :: int where "assetRiskViewRefreshLockID = 8742635914"
definition sbomComponentIndexGuardLockID :: int where "sbomComponentIndexGuardLockID = 8742635914"
definition hostExposureViewRefreshLockID :: int where "hostExposureViewRefreshLockID = 8742635915"
definition clusterSummaryViewRefreshLockID :: int where "clusterSummaryViewRefreshLockID = 8742635916"

definition assetRiskViewName :: string where "assetRiskViewName = ''asset_risk''"
definition hostExposureViewNames :: "string list" where
  "hostExposureViewNames = [''host_exposure'', ''exposed_digests'']"
definition clusterMVNames :: "string list" where
  "clusterMVNames = [''cluster_summary'', ''cluster_image_inventory'']"
definition sbomViewNames :: "string list" where
  "sbomViewNames = [''sbom_metadata_view'', ''sbom_component_view'']"
definition vulnUnifiedViewNames :: "string list" where
  "vulnUnifiedViewNames = [''view_unified_repositories_vulnerabilities'',
     ''view_unified_image_vulnerabilities'', ''vuln_canonical_assets'', ''vuln_canonical_summary'']"

lemmas view_names = assetRiskViewName_def hostExposureViewNames_def clusterMVNames_def
  sbomViewNames_def vulnUnifiedViewNames_def

text \<open>\<open>ok\<close> is false when the query fails.\<close>

definition materializedViewsRecentlyRefreshed ::
    "bool \<Rightarrow> mv_db \<Rightarrow> string list \<Rightarrow> duration \<Rightarrow> go_time \<Rightarrow> bool" where
  "materializedViewsRecentlyRefreshed ok db names maxAge now =
     (if maxAge \<le> 0 \<or> names = [] then False
      else ok \<and> count_where (\<lambda>n. n \<in> set (mv_populated db) \<and>
             (case mv_rows db n of None \<Rightarrow> False | Some (at', v) \<Rightarrow> at' \<ge> now - maxAge)) names = length names)"

definition materializedViewsSourceVersionMatches ::
    "bool \<Rightarrow> mv_db \<Rightarrow> string list \<Rightarrow> string \<Rightarrow> bool" where
  "materializedViewsSourceVersionMatches ok db names current =
     (if current = [] \<or> names = [] then False
      else ok \<and> count_where (\<lambda>n. n \<in> set (mv_populated db) \<and>
             (case mv_rows db n of None \<Rightarrow> False | Some (at', v) \<Rightarrow> v = current)) names = length names)"

definition recordMaterializedViewRefresh ::
    "mv_db \<Rightarrow> string list \<Rightarrow> go_time \<Rightarrow> string \<Rightarrow> mv_db" where
  "recordMaterializedViewRefresh db names at' sourceVersion =
     db\<lparr>mv_rows := (\<lambda>n. if n \<in> set names then Some (at', sourceVersion) else mv_rows db n)\<rparr>"

section \<open>One view\<close>

datatype refresh_err = ErrRefreshLockHeld | OtherErr

text \<open>
  What the database does with one view: \<open>vi_concurrent\<close> is the SQLSTATE of the failed
  \<open>REFRESH ... CONCURRENTLY\<close> (\<open>None\<close> on success), \<open>vi_still\<close> the second reading
  of \<open>ispopulated\<close>.
\<close>

record view_io =
  vi_conn :: bool
  vi_concurrent :: "string option"
  vi_still :: bool
  vi_plain :: bool

definition populate :: "string \<Rightarrow> mv_db \<Rightarrow> mv_db" where
  "populate view db = db\<lparr>mv_populated := List.insert view (mv_populated db)\<rparr>"

definition plain_refresh :: "view_io \<Rightarrow> string \<Rightarrow> mv_db \<Rightarrow> refresh_err option \<times> mv_db" where
  "plain_refresh io view db = (if vi_plain io then (None, populate view db) else (Some OtherErr, db))"

definition refreshView :: "view_io \<Rightarrow> string \<Rightarrow> mv_db \<Rightarrow> refresh_err option \<times> mv_db" where
  "refreshView io view db =
     (if \<not> vi_conn io then (Some OtherErr, db)
      else if view \<in> set (mv_populated db)
        then (case vi_concurrent io of
                None \<Rightarrow> (None, populate view db)
              | Some code \<Rightarrow>
                  if code \<noteq> ''55000'' then (Some OtherErr, db)
                  else if vi_still io then (Some OtherErr, db)
                  else plain_refresh io view db)
      else plain_refresh io view db)"

fun refresh_views :: "(string \<Rightarrow> view_io) \<Rightarrow> string list \<Rightarrow> mv_db \<Rightarrow> refresh_err option \<times> mv_db" where
  "refresh_views io [] db = (None, db)"
| "refresh_views io (v # vs) db =
     (case refreshView (io v) v db of
        (Some e, db') \<Rightarrow> (Some e, db')
      | (None, db') \<Rightarrow> refresh_views io vs db')"

section \<open>One family\<close>

record attempt_env =
  ae_ok1 :: bool
  ae_ok_skip :: bool
  ae_ok2 :: bool
  ae_now1 :: go_time
  ae_now_skip :: go_time
  ae_now2 :: go_time
  ae_at :: go_time
  ae_version :: string
  ae_between :: "mv_db \<Rightarrow> mv_db"
  ae_conn_ok :: bool
  ae_lock_ok :: bool
  ae_view :: "string \<Rightarrow> view_io"
  ae_record_ok :: bool

text \<open>
  From the connection to the record: the lock, the second look at the debounce window, the
  views in order. The first component says that a refresh was executed.
\<close>

definition locked_refresh ::
    "string list \<Rightarrow> int \<Rightarrow> duration \<Rightarrow> string \<Rightarrow> attempt_env \<Rightarrow> mv_db \<Rightarrow> bool \<times> refresh_err option \<times> mv_db" where
  "locked_refresh names lock interval version env db =
     (if \<not> ae_conn_ok env \<or> \<not> ae_lock_ok env then (False, Some OtherErr, db)
      else if lock \<in> set (mv_locks db) then (False, Some ErrRefreshLockHeld, db)
      else if materializedViewsRecentlyRefreshed (ae_ok2 env) db names interval (ae_now2 env)
        then (False, None, db)
      else (case refresh_views (ae_view env) names db of
              (Some e, db') \<Rightarrow> (False, Some e, db')
            | (None, db') \<Rightarrow>
                if ae_record_ok env
                then (True, None, recordMaterializedViewRefresh db' names (ae_at env) version)
                else (True, Some OtherErr, db')))"

definition RefreshAssetRiskView :: "attempt_env \<Rightarrow> mv_db \<Rightarrow> bool \<times> refresh_err option \<times> mv_db" where
  "RefreshAssetRiskView env db =
     (if materializedViewsRecentlyRefreshed (ae_ok1 env) db [assetRiskViewName]
           assetRiskViewRefreshInterval (ae_now1 env)
      then (False, None, db)
      else locked_refresh [assetRiskViewName] assetRiskViewRefreshLockID
             assetRiskViewRefreshInterval [] env (ae_between env db))"

definition RefreshVulnUnifiedViews :: "attempt_env \<Rightarrow> mv_db \<Rightarrow> bool \<times> refresh_err option \<times> mv_db" where
  "RefreshVulnUnifiedViews env db =
     (if materializedViewsRecentlyRefreshed (ae_ok1 env) db vulnUnifiedViewNames
           vulnUnifiedViewRefreshInterval (ae_now1 env)
      then (False, None, db)
      else locked_refresh vulnUnifiedViewNames vulnUnifiedViewRefreshLockID
             vulnUnifiedViewRefreshInterval [] env (ae_between env db))"

definition RefreshHostExposureViews :: "attempt_env \<Rightarrow> mv_db \<Rightarrow> bool \<times> refresh_err option \<times> mv_db" where
  "RefreshHostExposureViews env db =
     (if materializedViewsRecentlyRefreshed (ae_ok1 env) db hostExposureViewNames
           hostExposureViewRefreshInterval (ae_now1 env)
      then (False, None, db)
      else (let sourceUnchanged =
                  materializedViewsSourceVersionMatches (ae_ok_skip env) db hostExposureViewNames (ae_version env)
            in if sourceUnchanged \<and> materializedViewsRecentlyRefreshed (ae_ok_skip env) db
                    hostExposureViewNames clusterDerivedViewMaxSkipAge (ae_now_skip env)
               then (False, None, db)
               else (case locked_refresh hostExposureViewNames hostExposureViewRefreshLockID
                            hostExposureViewRefreshInterval (ae_version env) env (ae_between env db) of
                       (executed, e, db') \<Rightarrow> (executed \<and> \<not> sourceUnchanged, e, db'))))"

definition RefreshClusterSummaryView :: "attempt_env \<Rightarrow> mv_db \<Rightarrow> refresh_err option \<times> mv_db" where
  "RefreshClusterSummaryView env db =
     (if materializedViewsRecentlyRefreshed (ae_ok1 env) db clusterMVNames
           clusterViewRefreshInterval (ae_now1 env)
      then (None, db)
      else if materializedViewsSourceVersionMatches (ae_ok_skip env) db clusterMVNames (ae_version env)
              \<and> materializedViewsRecentlyRefreshed (ae_ok_skip env) db clusterMVNames
                  clusterDerivedViewMaxSkipAge (ae_now_skip env)
      then (None, db)
      else snd (locked_refresh clusterMVNames clusterSummaryViewRefreshLockID
             clusterViewRefreshInterval (ae_version env) env (ae_between env db)))"

definition RefreshMaterializedViews :: "attempt_env \<Rightarrow> mv_db \<Rightarrow> refresh_err option \<times> mv_db" where
  "RefreshMaterializedViews env db =
     (if materializedViewsRecentlyRefreshed (ae_ok1 env) db sbomViewNames
           sbomViewRefreshInterval (ae_now1 env)
      then (None, db)
      else if materializedViewsSourceVersionMatches (ae_ok_skip env) db sbomViewNames (ae_version env)
              \<and> materializedViewsRecentlyRefreshed (ae_ok_skip env) db sbomViewNames
                  sbomViewMaxSkipAge (ae_now_skip env)
      then (None, db)
      else snd (locked_refresh sbomViewNames sbomViewRefreshLockID
             sbomViewRefreshInterval (ae_version env) env (ae_between env db)))"

text \<open>
  \<open>sbomComponentIndexBroken\<close> and its repair: \<open>exists\<close> says whether the view exists,
  \<open>other\<close> what another replica did between the two looks.
\<close>

definition sbomComponentIndexBroken :: "bool \<Rightarrow> mv_db \<Rightarrow> bool" where
  "sbomComponentIndexBroken exists db \<longleftrightarrow>
     exists \<and> (mv_indexdef db = [] \<or> contains (mv_indexdef db) ''COALESCE'')"

definition plain_index :: string where
  "plain_index = ''CREATE UNIQUE INDEX ux_sbom_component_mv ON sbom_component_view '' @
     ''(sbom_id, asset_type, asset_ref_id, component_ref) NULLS NOT DISTINCT''"

definition EnsureSbomComponentViewIndex ::
    "bool \<Rightarrow> bool \<Rightarrow> (mv_db \<Rightarrow> mv_db) \<Rightarrow> bool \<Rightarrow> mv_db \<Rightarrow> refresh_err option \<times> mv_db" where
  "EnsureSbomComponentViewIndex read_ok exists other ddl_ok db =
     (if \<not> read_ok then (Some OtherErr, db)
      else if \<not> sbomComponentIndexBroken exists db then (None, db)
      else (let db = other db
            in if sbomComponentIndexGuardLockID \<in> set (mv_locks db) then (None, db)
               else if \<not> sbomComponentIndexBroken exists db then (None, db)
               else if ddl_ok then (None, db\<lparr>mv_indexdef := plain_index\<rparr>)
               else (Some OtherErr, db)))"

section \<open>The refresh gate\<close>

text \<open>
  The two flags of a gate, and its goroutine: gone, about to start an attempt, or in one, with
  the retries left. \<open>g_due\<close> is no variable of the program: it is true from a trigger until
  the next attempt starts, that is while a change may not have been looked at.
\<close>

datatype gate_worker = Gone | Ready nat | Running nat

record gate =
  g_inflight :: bool
  g_pending :: bool
  g_worker :: gate_worker
  g_due :: bool

record attempt =
  at_refreshed :: bool
  at_err :: "refresh_err option"

definition idle_gate :: gate where
  "idle_gate = \<lparr>g_inflight = False, g_pending = False, g_worker = Gone, g_due = False\<rparr>"

definition gate_trigger :: "nat \<Rightarrow> gate \<Rightarrow> gate" where
  "gate_trigger budget g =
     (if g_inflight g then g\<lparr>g_pending := True, g_due := True\<rparr>
      else g\<lparr>g_inflight := True, g_worker := Ready budget, g_due := True\<rparr>)"

definition gate_start :: "gate \<Rightarrow> gate" where
  "gate_start g = (case g_worker g of Ready n \<Rightarrow> g\<lparr>g_worker := Running n, g_due := False\<rparr> | _ \<Rightarrow> g)"

text \<open>
  The end of an attempt: another one when \<open>again\<close> says so, the follow-up of a pending
  trigger, or the end of the goroutine.
\<close>

definition gate_finish :: "(nat \<Rightarrow> attempt \<Rightarrow> bool) \<Rightarrow> nat \<Rightarrow> attempt \<Rightarrow> gate \<Rightarrow> gate" where
  "gate_finish again budget a g =
     (case g_worker g of
        Running n \<Rightarrow>
          if again n a then g\<lparr>g_worker := Ready (n - 1)\<rparr>
          else if \<not> g_pending g then g\<lparr>g_inflight := False, g_worker := Gone\<rparr>
          else g\<lparr>g_pending := False, g_worker := Ready budget\<rparr>
      | _ \<Rightarrow> g)"

text \<open>The goroutine alone, with the outcomes of its attempts.\<close>

primrec gate_drain :: "(nat \<Rightarrow> attempt \<Rightarrow> bool) \<Rightarrow> nat \<Rightarrow> attempt list \<Rightarrow> gate \<Rightarrow> gate" where
  "gate_drain again budget [] g = g"
| "gate_drain again budget (a # as) g =
     (if g_worker g = Gone then g else gate_drain again budget as (gate_finish again budget a (gate_start g)))"

subsection \<open>The five gates\<close>

datatype family = FSbom | FCluster | FHost | FVuln | FAsset

text \<open>
  Only \<open>assetrisk\<close> tries again, at most twice, when an attempt was skipped without an
  error.
\<close>

fun family_budget :: "family \<Rightarrow> nat" where
  "family_budget FAsset = 2"
| "family_budget _ = 0"

fun family_again :: "family \<Rightarrow> nat \<Rightarrow> attempt \<Rightarrow> bool" where
  "family_again FAsset retries a = (at_err a = None \<and> \<not> at_refreshed a \<and> retries > 0)"
| "family_again _ retries a = False"

type_synonym gates = "family \<Rightarrow> gate"

definition TriggerRefresh :: "family \<Rightarrow> gates \<Rightarrow> gates" where
  "TriggerRefresh f gs = gs(f := gate_trigger (family_budget f) (gs f))"

definition start_attempt :: "family \<Rightarrow> gates \<Rightarrow> gates" where
  "start_attempt f gs = gs(f := gate_start (gs f))"

text \<open>
  A host-exposure refresh that changed something, and a vulnerability refresh that was
  executed and raised no error, trigger the asset-risk gate.
\<close>

fun cascade :: "family \<Rightarrow> attempt \<Rightarrow> gates \<Rightarrow> gates" where
  "cascade FHost a gs = (if at_refreshed a then TriggerRefresh FAsset gs else gs)"
| "cascade FVuln a gs =
     (if at_err a \<noteq> None then gs else if at_refreshed a then TriggerRefresh FAsset gs else gs)"
| "cascade _ a gs = gs"

definition finish_attempt :: "family \<Rightarrow> attempt \<Rightarrow> gates \<Rightarrow> gates" where
  "finish_attempt f a gs =
     (case g_worker (gs f) of
        Running n \<Rightarrow>
          (let gs = cascade f a gs in gs(f := gate_finish (family_again f) (family_budget f) a (gs f)))
      | _ \<Rightarrow> gs)"

inductive gate_step :: "gates \<Rightarrow> gates \<Rightarrow> bool" where
  trigger: "gate_step gs (TriggerRefresh f gs)"
| start: "gate_step gs (start_attempt f gs)"
| finish: "gate_step gs (finish_attempt f a gs)"

inductive gates_reachable :: "gates \<Rightarrow> bool" where
  init: "gates_reachable (\<lambda>f. idle_gate)"
| step: "gates_reachable gs \<Longrightarrow> gate_step gs gs' \<Longrightarrow> gates_reachable gs'"

section \<open>A gate loses no trigger\<close>

fun retries_left :: "gate_worker \<Rightarrow> nat" where
  "retries_left Gone = 0"
| "retries_left (Ready n) = n"
| "retries_left (Running n) = n"

definition gate_ok :: "nat \<Rightarrow> gate \<Rightarrow> bool" where
  "gate_ok budget g \<longleftrightarrow>
     (g_inflight g \<longleftrightarrow> g_worker g \<noteq> Gone) \<and> (g_pending g \<longrightarrow> g_inflight g)
     \<and> (g_due g \<longrightarrow> g_pending g \<or> (\<exists>n. g_worker g = Ready n)) \<and> retries_left (g_worker g) \<le> budget"

text \<open>What a gate asks of its retry rule: only the budget it was given.\<close>

locale refresh_gate =
  fixes again :: "nat \<Rightarrow> attempt \<Rightarrow> bool" and budget :: nat
  assumes again_uses_budget: "again n a \<Longrightarrow> 0 < n"
begin

lemma trigger_ok: "gate_ok budget g \<Longrightarrow> gate_ok budget (gate_trigger budget g)"
  by (auto simp: gate_ok_def gate_trigger_def)

lemma start_ok: "gate_ok budget g \<Longrightarrow> gate_ok budget (gate_start g)"
  by (cases "g_worker g") (auto simp: gate_ok_def gate_start_def)

lemma finish_ok: "gate_ok budget g \<Longrightarrow> gate_ok budget (gate_finish again budget a g)"
  by (cases "g_worker g") (auto simp: gate_ok_def gate_finish_def)

definition work_left :: "gate \<Rightarrow> nat" where
  "work_left g = (if g_worker g = Gone then 0 else Suc (retries_left (g_worker g)))
     + (if g_pending g then Suc budget else 0)"

lemma attempt_uses_work:
  assumes "gate_ok budget g" "g_worker g \<noteq> Gone"
  shows "work_left (gate_finish again budget a (gate_start g)) < work_left g"
  using assms again_uses_budget
  by (cases "g_worker g") (auto simp: work_left_def gate_finish_def gate_start_def)

lemma drain_done:
  "gate_ok budget g \<Longrightarrow> work_left g \<le> length as \<Longrightarrow> gate_ok budget (gate_drain again budget as g)
     \<and> g_worker (gate_drain again budget as g) = Gone"
proof (induction as arbitrary: g)
  case Nil
  then show ?case by (auto simp: work_left_def split: if_splits)
next
  case (Cons a as)
  then show ?case
    using attempt_uses_work [of g a] finish_ok [OF start_ok [of g], of a] by fastforce
qed

lemma work_bound: "gate_ok budget g \<Longrightarrow> work_left g \<le> 2 * Suc budget"
  by (auto simp: work_left_def gate_ok_def)

lemma drained_idle:
  assumes "gate_ok budget g" "2 * Suc budget \<le> length as"
  shows "gate_drain again budget as g = idle_gate"
  using drain_done [OF assms(1), of as] work_bound [OF assms(1)] assms(2)
  by (auto simp: gate_ok_def idle_gate_def intro!: gate.equality)

end

interpretation family_gate: refresh_gate "family_again f" "family_budget f" for f
  by unfold_locales (cases f; simp)

definition gates_ok :: "gates \<Rightarrow> bool" where
  "gates_ok gs \<longleftrightarrow> (\<forall>f. gate_ok (family_budget f) (gs f))"

lemma TriggerRefresh_ok: "gates_ok gs \<Longrightarrow> gates_ok (TriggerRefresh f gs)"
  using family_gate.trigger_ok by (simp add: gates_ok_def TriggerRefresh_def)

lemma cascade_ok: "gates_ok gs \<Longrightarrow> gates_ok (cascade f a gs)"
  by (cases f) (simp_all add: TriggerRefresh_ok)

lemma gate_step_ok: "gate_step gs gs' \<Longrightarrow> gates_ok gs \<Longrightarrow> gates_ok gs'"
proof (induction rule: gate_step.induct)
  case (start gs f)
  then show ?case using family_gate.start_ok by (simp add: gates_ok_def start_attempt_def)
next
  case (finish gs f a)
  then show ?case
    using cascade_ok [of gs f a] family_gate.finish_ok
    by (simp add: gates_ok_def finish_attempt_def Let_def split: gate_worker.split)
qed (rule TriggerRefresh_ok)

lemma gates_reachable_ok: "gates_reachable gs \<Longrightarrow> gates_ok gs"
proof (induction rule: gates_reachable.induct)
  case init
  then show ?case by (simp add: gates_ok_def gate_ok_def idle_gate_def)
qed (rule gate_step_ok)

text \<open>
  A run of the gates with, per gate, the triggers it has got (from outside or by a cascade) and the
  attempts its goroutines have started.
\<close>

definition cascades :: "family \<Rightarrow> attempt \<Rightarrow> bool" where
  "cascades f a \<longleftrightarrow> at_refreshed a \<and> (f = FHost \<or> f = FVuln \<and> at_err a = None)"

inductive gates_run :: "(family \<Rightarrow> nat) \<Rightarrow> (family \<Rightarrow> nat) \<Rightarrow> gates \<Rightarrow> bool" where
  init: "gates_run (\<lambda>f. 0) (\<lambda>f. 0) (\<lambda>f. idle_gate)"
| trigger: "gates_run T A gs \<Longrightarrow> gates_run (T(f := Suc (T f))) A (TriggerRefresh f gs)"
| start: "gates_run T A gs \<Longrightarrow> g_worker (gs f) = Ready n \<Longrightarrow>
    gates_run T (A(f := Suc (A f))) (start_attempt f gs)"
| finish: "gates_run T A gs \<Longrightarrow> g_worker (gs f) = Running n \<Longrightarrow>
    gates_run (if cascades f a then T(FAsset := Suc (T FAsset)) else T) A (finish_attempt f a gs)"

lemma gates_run_reachable: "gates_run T A gs \<Longrightarrow> gates_reachable gs"
  by (induction rule: gates_run.induct) (blast intro: gates_reachable.intros gate_step.intros)+

lemma cascade_eq: "cascade f a gs = (if cascades f a then TriggerRefresh FAsset gs else gs)"
  by (cases f) (simp_all add: cascades_def)

definition starts_left :: "nat \<Rightarrow> gate \<Rightarrow> nat" where
  "starts_left budget g =
     (case g_worker g of Gone \<Rightarrow> 0 | Ready n \<Rightarrow> Suc n | Running n \<Rightarrow> n) + (if g_pending g then Suc budget else 0)"

lemma trigger_starts:
  "gate_ok budget g \<Longrightarrow> starts_left budget (gate_trigger budget g) \<le> starts_left budget g + Suc budget"
  by (auto simp: starts_left_def gate_trigger_def gate_ok_def)

context refresh_gate
begin

lemma finish_starts: "starts_left budget (gate_finish again budget a g) \<le> starts_left budget g"
  using again_uses_budget
  by (cases "g_worker g") (auto simp: starts_left_def gate_finish_def)

end

lemma TriggerRefresh_starts:
  assumes "gates_ok gs" "A f' + starts_left (family_budget f') (gs f') \<le> Suc (family_budget f') * T f'"
  shows "A f' + starts_left (family_budget f') (TriggerRefresh f gs f')
    \<le> Suc (family_budget f') * (T(f := Suc (T f))) f'"
  using assms trigger_starts [of "family_budget f" "gs f"]
  by (auto simp: TriggerRefresh_def gates_ok_def)

lemma gates_run_starts:
  "gates_run T A gs \<Longrightarrow> A f' + starts_left (family_budget f') (gs f') \<le> Suc (family_budget f') * T f'"
proof (induction rule: gates_run.induct)
  case init
  then show ?case by (simp add: starts_left_def idle_gate_def)
next
  case (trigger T A gs f)
  then show ?case
    using TriggerRefresh_starts [of gs A f' T f] gates_reachable_ok [OF gates_run_reachable [of T A gs]] by blast
next
  case (start T A gs f n)
  then show ?case by (auto simp: start_attempt_def gate_start_def starts_left_def)
next
  case (finish T A gs f n a)
  let ?T = "if cascades f a then T(FAsset := Suc (T FAsset)) else T"
  have ok: "gates_ok gs" by (rule gates_reachable_ok [OF gates_run_reachable [OF finish(1)]])
  have "A f' + starts_left (family_budget f') (cascade f a gs f') \<le> Suc (family_budget f') * ?T f'"
    using TriggerRefresh_starts [of gs A f' T FAsset] ok finish.IH by (simp add: cascade_eq)
  moreover have "starts_left (family_budget f') (finish_attempt f a gs f') \<le>
      starts_left (family_budget f') (cascade f a gs f')"
    using family_gate.finish_starts [of f a "cascade f a gs f"]
    by (simp add: finish_attempt_def finish.hyps(2) Let_def)
  ultimately show ?case by linarith
qed

text \<open>C38. No gate loses a trigger, and a goroutine lives on only as long as triggers keep coming. In
  every run of the five gates, under any interleaving of triggers, attempts and cascades, a gate
  has started at most as many attempts as it got triggers, the asset-risk gate at most three
  times as many; a trigger no attempt has looked at yet is held by the pending flag or by a
  goroutine about to start; and when no further trigger reaches a gate, six more attempts of
  its goroutine, however they end, leave it idle. A host-exposure attempt that refreshed leaves a
  trigger with the asset-risk gate.\<close>

theorem gates_never_lose_trigger:
  assumes r: "gates_run T A gs" and n: "6 \<le> length outcomes"
  shows "A f \<le> (if f = FAsset then 3 else 1) * T f
    \<and> (g_due (gs f) \<longrightarrow> g_pending (gs f) \<or> (\<exists>n. g_worker (gs f) = Ready n))
    \<and> gate_drain (family_again f) (family_budget f) outcomes (gs f) = idle_gate
    \<and> (g_worker (gs FHost) = Running k \<and> at_refreshed a \<longrightarrow> g_due (finish_attempt FHost a gs FAsset))"
proof -
  have ok: "gate_ok (family_budget f) (gs f)"
    using gates_reachable_ok [OF gates_run_reachable [OF r]] by (simp add: gates_ok_def)
  have "2 * Suc (family_budget f) \<le> length outcomes" using n by (cases f) simp_all
  from family_gate.drained_idle [OF ok this]
  have "gate_drain (family_again f) (family_budget f) outcomes (gs f) = idle_gate" .
  moreover have "A f \<le> (if f = FAsset then 3 else 1) * T f"
    using gates_run_starts [OF r, of f] by (cases f) simp_all
  moreover have "g_worker (gs FHost) = Running k \<and> at_refreshed a \<longrightarrow> g_due (finish_attempt FHost a gs FAsset)"
    by (auto simp: finish_attempt_def Let_def TriggerRefresh_def gate_trigger_def)
  ultimately show ?thesis using ok by (simp add: gate_ok_def)
qed

abbreviation skipped :: attempt where "skipped \<equiv> \<lparr>at_refreshed = False, at_err = None\<rparr>"

theorem gates_never_lose_trigger_witness:
  "gate_drain (family_again FAsset) (family_budget FAsset) (replicate 6 skipped)
     (TriggerRefresh FAsset (\<lambda>f. idle_gate) FAsset) = idle_gate"
proof -
  have "gates_run ((\<lambda>f. 0)(FAsset := Suc 0)) (\<lambda>f. 0) (TriggerRefresh FAsset (\<lambda>f. idle_gate))"
    using gates_run.trigger [OF gates_run.init, of FAsset] by simp
  from gates_never_lose_trigger [OF this, of "replicate 6 skipped" FAsset] show ?thesis by simp
qed

section \<open>The follow-up of a pending trigger\<close>

lemma count_where_all: "count_where p xs = length xs \<longleftrightarrow> (\<forall>x \<in> set xs. p x)"
proof (induction xs)
  case (Cons x xs)
  have "count_where p xs \<le> length xs" by (induction xs) auto
  with Cons show ?case by auto
qed simp

lemma recently_iff:
  "0 < maxAge \<Longrightarrow> names \<noteq> [] \<Longrightarrow>
   materializedViewsRecentlyRefreshed ok db names maxAge now \<longleftrightarrow>
     ok \<and> (\<forall>n \<in> set names. n \<in> set (mv_populated db) \<and> (\<exists>t v. mv_rows db n = Some (t, v) \<and> now - maxAge \<le> t))"
  by (simp add: materializedViewsRecentlyRefreshed_def count_where_all) (auto split: option.splits)

lemma refreshView_populates:
  "refreshView io v db = (None, db') \<Longrightarrow> v \<in> set (mv_populated db') \<and> set (mv_populated db) \<subseteq> set (mv_populated db')"
  by (auto simp: refreshView_def plain_refresh_def populate_def split: if_splits option.splits)

lemma refresh_views_populates:
  "refresh_views io vs db = (None, db') \<Longrightarrow>
     set vs \<union> set (mv_populated db) \<subseteq> set (mv_populated db')"
proof (induction io vs db rule: refresh_views.induct)
  case (2 io v vs db)
  then obtain db1 where "refreshView (io v) v db = (None, db1)" "refresh_views io vs db1 = (None, db')"
    by (auto split: prod.splits option.splits)
  with 2 refreshView_populates [of "io v" v db db1] show ?case by auto
qed simp

lemma executed_is_recent:
  assumes "locked_refresh names lock interval version env db = (True, None, db')"
    and "0 < interval" "names \<noteq> []" "now \<le> ae_at env + maxAge" "0 < maxAge"
  shows "materializedViewsRecentlyRefreshed True db' names maxAge now"
proof -
  obtain db1 where "refresh_views (ae_view env) names db = (None, db1)"
    "db' = recordMaterializedViewRefresh db1 names (ae_at env) version"
    using assms(1) by (auto simp: locked_refresh_def split: if_splits prod.splits option.splits)
  then show ?thesis
    using refresh_views_populates [of "ae_view env" names db db1] assms(3-5)
    by (auto simp: recently_iff recordMaterializedViewRefresh_def)
qed

lemma host_executed:
  assumes "RefreshHostExposureViews env db = (True, None, db1)"
    "now \<le> ae_at env + hostExposureViewRefreshInterval"
  shows "materializedViewsRecentlyRefreshed True db1 hostExposureViewNames hostExposureViewRefreshInterval now"
proof -
  obtain v where "locked_refresh hostExposureViewNames hostExposureViewRefreshLockID
      hostExposureViewRefreshInterval v env (ae_between env db) = (True, None, db1)"
    using assms(1) by (auto simp: RefreshHostExposureViews_def Let_def split: if_splits prod.splits)
  then show ?thesis by (rule executed_is_recent) (use assms(2) in \<open>simp_all add: interval_defs view_names\<close>)
qed

text \<open>C40. The follow-up of a trigger that arrives during a host-exposure refresh does not refresh.
  The goroutine runs it right after the refresh it waited for, so it falls into the debounce
  window of that refresh and is skipped; the gate is then idle and no further attempt is due,
  while the views hold a snapshot from before the trigger.\<close>

theorem followup_is_skipped:
  assumes done_: "RefreshHostExposureViews env db = (True, None, db1)"
    and soon: "ae_now1 env' \<le> ae_at env + 5 * minute" and ok: "ae_ok1 env'"
    and during: "gs FHost = \<lparr>g_inflight = True, g_pending = True, g_worker = Running 0, g_due = True\<rparr>"
  shows "RefreshHostExposureViews env' db1 = (False, None, db1)
    \<and> finish_attempt FHost skipped (start_attempt FHost
        (finish_attempt FHost \<lparr>at_refreshed = True, at_err = None\<rparr> gs)) FHost = idle_gate"
proof
  have "materializedViewsRecentlyRefreshed True db1 hostExposureViewNames hostExposureViewRefreshInterval (ae_now1 env')"
    using host_executed [OF done_] soon by (simp add: hostExposureViewRefreshInterval_def)
  then show "RefreshHostExposureViews env' db1 = (False, None, db1)"
    using ok by (simp add: RefreshHostExposureViews_def)
  show "finish_attempt FHost skipped (start_attempt FHost
      (finish_attempt FHost \<lparr>at_refreshed = True, at_err = None\<rparr> gs)) FHost = idle_gate"
    using during
    by (simp add: finish_attempt_def Let_def TriggerRefresh_def gate_finish_def gate_start_def
        start_attempt_def idle_gate_def)
qed

definition sample_attempt :: "go_time \<Rightarrow> attempt_env" where
  "sample_attempt t = \<lparr>ae_ok1 = True, ae_ok_skip = True, ae_ok2 = True, ae_now1 = t, ae_now_skip = t, ae_now2 = t,
     ae_at = t, ae_version = ''v'', ae_between = id, ae_conn_ok = True, ae_lock_ok = True,
     ae_view = (\<lambda>_. \<lparr>vi_conn = True, vi_concurrent = None, vi_still = True, vi_plain = True\<rparr>), ae_record_ok = True\<rparr>"

definition empty_mv :: mv_db where
  "empty_mv = \<lparr>mv_rows = (\<lambda>_. None), mv_populated = [], mv_locks = [], mv_indexdef = []\<rparr>"

theorem followup_is_skipped_witness:
  "\<exists>db1. RefreshHostExposureViews (sample_attempt 0) empty_mv = (True, None, db1)
     \<and> RefreshHostExposureViews (sample_attempt 60) db1 = (False, None, db1)"
proof -
  let ?g = "\<lambda>f. \<lparr>g_inflight = True, g_pending = True, g_worker = Running 0, g_due = True\<rparr>"
  obtain db1 where "RefreshHostExposureViews (sample_attempt 0) empty_mv = (True, None, db1)"
    by (simp add: RefreshHostExposureViews_def sample_attempt_def empty_mv_def view_names interval_defs
        materializedViewsRecentlyRefreshed_def materializedViewsSourceVersionMatches_def locked_refresh_def
        refreshView_def plain_refresh_def populate_def)
  with followup_is_skipped [of "sample_attempt 0" empty_mv db1 "sample_attempt 60" ?g] show ?thesis
    by (auto simp: sample_attempt_def duration_defs)
qed

section \<open>The trailing retry of the asset-risk gate\<close>

text \<open>
  What all replicas do to \<open>asset_risk\<close> after a given state of the database, in the order in
  which they hold the lock of its refresh: every attempt is a \<open>locked_refresh\<close>, and
  between two of them anything but the record and the population of this view may change. The
  list holds the executed refreshes, each with the time of the snapshot it read, which lies
  between its second look at the debounce window and its record. The query of that look is
  assumed to succeed: when it fails, the code refreshes without having looked.
\<close>

abbreviation asset_locked :: "attempt_env \<Rightarrow> mv_db \<Rightarrow> bool \<times> refresh_err option \<times> mv_db" where
  "asset_locked env db \<equiv> locked_refresh [assetRiskViewName] assetRiskViewRefreshLockID
     assetRiskViewRefreshInterval [] env db"

definition same_asset :: "mv_db \<Rightarrow> mv_db \<Rightarrow> bool" where
  "same_asset db db' \<longleftrightarrow> mv_rows db' assetRiskViewName = mv_rows db assetRiskViewName \<and>
     (assetRiskViewName \<in> set (mv_populated db') \<longleftrightarrow> assetRiskViewName \<in> set (mv_populated db))"

inductive asset_history :: "mv_db \<Rightarrow> (go_time \<times> attempt_env) list \<Rightarrow> mv_db \<Rightarrow> bool" where
  none: "asset_history db [] db"
| other: "asset_history db es db1 \<Longrightarrow> same_asset db1 db2 \<Longrightarrow> asset_history db es db2"
| attempt: "asset_history db es db1 \<Longrightarrow> asset_locked env db1 = (executed, e, db2) \<Longrightarrow> ae_ok2 env \<Longrightarrow>
    ae_now2 env \<le> snap \<Longrightarrow> snap \<le> ae_at env \<Longrightarrow> (\<And>c p. (c, p) \<in> set es \<Longrightarrow> ae_at p \<le> ae_now2 env) \<Longrightarrow>
    asset_history db (if executed then es @ [(snap, env)] else es) db2"

abbreviation asset_recent :: "mv_db \<Rightarrow> go_time \<Rightarrow> bool" where
  "asset_recent db now \<equiv> materializedViewsRecentlyRefreshed True db [assetRiskViewName]
     assetRiskViewRefreshInterval now"

lemma asset_recent_iff:
  "asset_recent db now \<longleftrightarrow> assetRiskViewName \<in> set (mv_populated db) \<and>
     (\<exists>t v. mv_rows db assetRiskViewName = Some (t, v) \<and> now - 5 * minute \<le> t)"
  by (subst recently_iff) (simp_all add: interval_defs)

lemma asset_locked_idle: "asset_locked env db = (False, e, db') \<Longrightarrow> db' = db"
  by (auto simp: locked_refresh_def refreshView_def plain_refresh_def
      split: if_splits prod.splits option.splits)

lemma asset_locked_executed:
  assumes "asset_locked env db = (True, e, db')" and "ae_ok2 env"
  shows "\<not> asset_recent db (ae_now2 env)"
  using assms by (auto simp: locked_refresh_def split: if_splits)

lemma asset_locked_row:
  assumes "asset_locked env db = (True, e, db')"
  shows "assetRiskViewName \<in> set (mv_populated db') \<and>
    (mv_rows db' assetRiskViewName = mv_rows db assetRiskViewName \<or> mv_rows db' assetRiskViewName = Some (ae_at env, []))"
proof -
  obtain db1 where r: "refresh_views (ae_view env) [assetRiskViewName] db = (None, db1)"
    and db': "db' = db1 \<or> db' = recordMaterializedViewRefresh db1 [assetRiskViewName] (ae_at env) []"
    using assms by (auto simp: locked_refresh_def split: if_splits prod.splits option.splits)
  have "mv_rows db1 = mv_rows db"
    using r by (auto simp: refreshView_def plain_refresh_def populate_def split: if_splits option.splits prod.splits)
  with db' refresh_views_populates [OF r] show ?thesis by (auto simp: recordMaterializedViewRefresh_def)
qed

text \<open>When the view was recently refreshed at \<open>t\<close>, no refresh executed from there on has looked
  at the window at or before \<open>t\<close>; and the record stays as it is until one of them writes it.\<close>

lemma history_after_recent:
  assumes "asset_history db es db'" and "asset_recent db t"
  shows "assetRiskViewName \<in> set (mv_populated db') \<and> (\<forall>(c, p) \<in> set es. t < c \<and> c \<le> ae_at p) \<and>
    (es = [] \<and> mv_rows db' assetRiskViewName = mv_rows db assetRiskViewName \<or>
     es \<noteq> [] \<and> (\<exists>u v. mv_rows db' assetRiskViewName = Some (u, v)))"
  using assms
proof (induction rule: asset_history.induct)
  case (none db)
  then show ?case by (simp add: asset_recent_iff)
next
  case (other db es db1 db2)
  then show ?case by (simp add: same_asset_def)
next
  case (attempt db es db1 env executed e db2 snap)
  note IH = attempt.IH [OF attempt.prems]
  show ?case
  proof (cases executed)
    case False
    with attempt.hyps(2) have "db2 = db1" by (simp add: asset_locked_idle)
    with False IH show ?thesis by simp
  next
    case True
    with attempt.hyps(2) have x: "asset_locked env db1 = (True, e, db2)" by simp
    have "t < ae_now2 env"
    proof (cases "es = []")
      case True
      with IH have "mv_rows db1 assetRiskViewName = mv_rows db assetRiskViewName" by simp
      with IH attempt.prems asset_locked_executed [OF x attempt.hyps(3)] show ?thesis
        unfolding asset_recent_iff by auto
    next
      case False
      then obtain c p where cp: "(c, p) \<in> set es" by (cases es) auto
      with IH have "t < c \<and> c \<le> ae_at p" by auto
      with attempt.hyps(6) [OF cp] show ?thesis by simp
    qed
    with attempt.hyps(4,5) asset_locked_row [OF x] IH True attempt.prems show ?thesis
      unfolding asset_recent_iff by auto
  qed
qed

lemma asset_skip:
  assumes "RefreshAssetRiskView env db = (False, None, db')"
  shows "asset_recent db' (ae_now1 env) \<or> asset_recent db' (ae_now2 env)"
  using assms
  by (auto simp: RefreshAssetRiskView_def locked_refresh_def materializedViewsRecentlyRefreshed_def
      split: if_splits prod.splits option.splits)

text \<open>C39. The trailing retry of the asset-risk gate misses no change. When an attempt is skipped,
  and the retry at least five minutes and five seconds later is skipped as well, then some
  replica has executed a refresh in between, and the last one executed read its snapshot after
  the first attempt had begun: the view contains every change the trigger announced. The queries
  of the second look at the debounce window are assumed to succeed.\<close>

theorem second_skip_covers_trigger:
  assumes skip1: "RefreshAssetRiskView env1 db1 = (False, None, db1')"
    and skip2: "RefreshAssetRiskView env2 db2 = (False, None, db2')"
    and meanwhile: "asset_history db1' es db2'"
    and clock: "\<And>t v. mv_rows db1' assetRiskViewName = Some (t, v) \<Longrightarrow> t \<le> ae_now2 env1"
      "ae_now1 env1 \<le> ae_now2 env1" "ae_now2 env1 + 5 * minute + 5 * second \<le> ae_now1 env2"
      "ae_now1 env2 \<le> ae_now2 env2"
  shows "\<exists>es' snap env. es = es' @ [(snap, env)] \<and> ae_now1 env1 < snap"
proof -
  obtain t where t: "asset_recent db1' t" "ae_now1 env1 \<le> t"
    using asset_skip [OF skip1] clock(2) by auto
  obtain u where u: "asset_recent db2' u" "ae_now1 env2 \<le> u"
    using asset_skip [OF skip2] clock(4) by auto
  note h = history_after_recent [OF meanwhile t(1)]
  have "es \<noteq> []"
  proof
    assume "es = []"
    with h have "mv_rows db2' assetRiskViewName = mv_rows db1' assetRiskViewName" by simp
    with u clock(1,3) show False by (fastforce simp: asset_recent_iff duration_defs)
  qed
  then obtain es' snap env where es: "es = es' @ [(snap, env)]" by (metis rev_exhaust surj_pair)
  with h t(2) show ?thesis by auto
qed

theorem second_skip_covers_trigger_witness:
  "\<exists>db es db'. asset_history db es db' \<and> RefreshAssetRiskView (sample_attempt 0) db = (False, None, db)
     \<and> RefreshAssetRiskView (sample_attempt (5 * minute + 5 * second)) db' = (False, None, db') \<and> es \<noteq> []"
proof -
  define db where "db = empty_mv\<lparr>mv_rows := (\<lambda>_. Some (0, [])), mv_populated := [assetRiskViewName]\<rparr>"
  let ?T = "5 * minute + 5 * second"
  let ?e = "sample_attempt ?T"
  have n: "\<not> asset_recent db ?T" and s: "asset_recent db 0"
    by (auto simp: asset_recent_iff db_def duration_defs)
  obtain db' where l: "asset_locked ?e db = (True, None, db')"
    using n by (simp add: locked_refresh_def sample_attempt_def db_def empty_mv_def refreshView_def populate_def)
  have h: "asset_history db [(?T, ?e)] db'"
    using asset_history.attempt [OF asset_history.none l, of ?T] by (simp add: sample_attempt_def)
  have r: "asset_recent db' ?T"
    by (rule executed_is_recent [OF l]) (simp_all add: sample_attempt_def interval_defs)
  have s1: "RefreshAssetRiskView (sample_attempt 0) db = (False, None, db)"
    using s by (simp add: RefreshAssetRiskView_def sample_attempt_def)
  have s2: "RefreshAssetRiskView ?e db' = (False, None, db')"
    using r by (simp add: RefreshAssetRiskView_def sample_attempt_def)
  have "\<exists>es' snap env. [(?T, ?e)] = es' @ [(snap, env)] \<and> ae_now1 (sample_attempt 0) < snap"
    by (rule second_skip_covers_trigger [OF s1 s2 h]) (auto simp: sample_attempt_def db_def)
  with h s1 s2 show ?thesis by blast
qed

section \<open>Two locks with one key\<close>

text \<open>While any replica refreshes \<open>asset_risk\<close>, the repair of the SBOM component index on
  another replica gives up without an error and leaves the broken index: its guard lock has the
  key of the asset-risk refresh lock.\<close>

theorem index_repair_blocked_by_asset_risk:
  assumes "sbomComponentIndexBroken True db" "assetRiskViewRefreshLockID \<in> set (mv_locks (other db))"
    and "mv_indexdef (other db) = mv_indexdef db"
  shows "EnsureSbomComponentViewIndex True True other ok db = (None, other db)
    \<and> sbomComponentIndexBroken True (other db)"
  using assms
  by (simp add: EnsureSbomComponentViewIndex_def sbomComponentIndexBroken_def Let_def
      sbomComponentIndexGuardLockID_def assetRiskViewRefreshLockID_def)

theorem index_repair_blocked_by_asset_risk_witness:
  "EnsureSbomComponentViewIndex True True id True (empty_mv\<lparr>mv_locks := [assetRiskViewRefreshLockID]\<rparr>)
     = (None, empty_mv\<lparr>mv_locks := [assetRiskViewRefreshLockID]\<rparr>)"
  using index_repair_blocked_by_asset_risk [of "empty_mv\<lparr>mv_locks := [assetRiskViewRefreshLockID]\<rparr>" id True]
  by (simp add: sbomComponentIndexBroken_def empty_mv_def)

end
