(* ===== verification/Spec2Isabelle.thy ===== *)
theory Spec2Isabelle
  imports Jobs_System Triage View_Refresh
begin

text \<open>
  SPAM is a Go service with a Svelte front end that keeps an inventory of repositories, container
  images and clusters and scans them for vulnerabilities and leaked secrets. This library models
  the parts of the Go code (\<open>src/api\<close>) that decide something: the job queue and the
  processes that work on it, the access rules, the risk score with the triage page, and the
  refreshing of the materialized views. All names below are files under
  \<open>src/api/internal\<close> unless they start with \<open>cmd\<close>.

  \<^bold>\<open>The program and its state.\<close> An API server and any number of worker processes share a
  PostgreSQL database. Work is a row of \<open>jobs\<close>: handlers and schedules create rows,
  workers claim them with \<open>FOR UPDATE SKIP LOCKED\<close>, a run starts a Kubernetes job whose
  runner reports over a WebSocket, image scans are leased to scanner pods over HTTP, a sweep and
  a reconciler pick up what got lost. Every read is filtered by grants compiled to SQL. Scan
  results flow into materialized views, which the triage page scores.

  \<^bold>\<open>Theories.\<close> A table is the list (or map) of its rows, a transaction a function from
  the table to an error or a new table, and whatever comes from outside (clock, fresh
  identifiers, answers of Kubernetes, of the database, of a feed) an argument.

  \<^item> \<open>Go_Prelude\<close>: integers with their wrap-around, instants, the string functions of the
    standard library that the code uses, JSON, row updates, and the shared list lemmas.
  \<^item> \<open>Job_Store\<close> (\<open>jobs/model.go\<close>, \<open>types.go\<close>, \<open>jobs.go\<close>,
    \<open>worker.go\<close>, \<open>runtime.go\<close>): rows, the partial unique indexes, creating,
    claiming, status changes, heartbeat, the stale sweep, the retry delay. Shows that claims are
    disjoint and take the oldest due row, what a sweep does and when one row blocks it, and the
    backoff up to the overflow of the doubling.
  \<^item> \<open>Job_Process\<close> (\<open>jobs/processor.go\<close>, \<open>errors.go\<close>,
    \<open>db_maintenance.go\<close>, \<open>vulnmeta/store.go\<close>): error classes, every handler with
    its writes, the feed schedule. The locale \<open>run_executor\<close> is the interface of the
    package to the runner.
  \<^item> \<open>Run_Lifecycle\<close> (\<open>runner/k8s.go\<close>, \<open>reconcile.go\<close>,
    \<open>websocket.go\<close>, \<open>image_lease_handlers.go\<close>, \<open>uiapi/runs.go\<close>):
    starting a run, the reconciler against an abstract verdict, the runner's messages and the
    commit it may report, leases, requeueing and deleting runs. Interprets \<open>run_executor\<close> on
    \<open>ExecuteRun\<close>.
  \<^item> \<open>Worker\<close> (\<open>cmd/worker/main.go\<close>): circuit breaker, processing of a job,
    claim loops, a tick of the main loop. The locale \<open>claim_source\<close> holds the lemmas of
    a pool and is interpreted for the main and the advisory pool.
  \<^item> \<open>Run_Api\<close> (\<open>uiapi/runs.go\<close>, \<open>k8s_events.go\<close>,
    \<open>scan_all.go\<close>, \<open>poller/poller.go\<close>, \<open>runner/handlers.go\<close>,
    \<open>providerconfig/store.go\<close>): the other places that insert, correct or delete rows of
    \<open>jobs\<close>: creating a run by hand, queueing a page of repositories, the provider poll,
    the correction of a run from its Kubernetes snapshot, the commit of an upload, the runs of a
    deleted provider.
  \<^item> \<open>Jobs_System\<close>: the statements and transactions that write \<open>jobs\<close> as one step
    relation, the invariant of its reachable tables, and that every handler of the theories above
    changes the table only by a sequence of such steps.
  \<^item> \<open>Hidden_Namespaces\<close> (\<open>hiddenns/hiddenns.go\<close>): patterns, their cache with the
    interleaving its mutex allows, and that the SQL filter and the in-memory matcher hide the
    same namespaces.
  \<^item> \<open>ACL_Grants\<close> (\<open>acl/models.go\<close>, \<open>subject.go\<close>, \<open>provider.go\<close>,
    \<open>ror_provider.go\<close>, \<open>ingest.go\<close>, \<open>uiapi/admin_acl.go\<close>): grants and
    their providers. The locale \<open>acl_provider\<close> is interpreted for the local, the ROR and
    the chained provider.
  \<^item> \<open>ACL_Scope\<close> (\<open>acl/scope.go\<close>, \<open>scam/acl.go\<close>,
    \<open>uiapi/acl_helpers.go\<close>): the clause builders. A clause is a tree with the text and
    arguments it is sent with and with its meaning on rows; the lemmas show that the compiled
    clauses select exactly the rows the access rules name, and where the checks of a single
    resource differ from the lists.
  \<^item> \<open>Asset_Risk\<close> (\<open>assetrisk/score.go\<close>, \<open>reasons.go\<close>): scores, tiers,
    reasons, fingerprint. Shows that more risk never lowers a tier or a threat score.
  \<^item> \<open>Triage\<close> (\<open>assetrisk/metrics.go\<close>, \<open>uiapi/triage_dashboard.go\<close>): the
    page, its ranking and paging. Shows that the page accounts for every visible asset and that
    it shows only what the access rules of \<open>ACL_Scope\<close> allow.
  \<^item> \<open>View_Refresh\<close> (\<open>db/views.go\<close>, \<open>asset_risk_view.go\<close>,
    \<open>host_exposure_view.go\<close>, \<open>cluster_summary_view.go\<close>, and the gates of
    \<open>assetrisk\<close>, \<open>hostexposure\<close>, \<open>clustersummary\<close>, \<open>sbomviews\<close>,
    \<open>vulnmetrics\<close>): debounce, fingerprints, locks, gates and cascades. The locale
    \<open>refresh_gate\<close> is interpreted for all five gates; the history of the refreshes of
    all replicas justifies the trailing retry.
  \<^item> This theory: the invariant of the reachable tables spelled out, and what the sweep does to
    a leased image scan.

  \<^bold>\<open>Concurrency.\<close> In \<open>Jobs_System\<close> a step is one statement outside a
  transaction, or one transaction, and the steps of all processes interleave freely: a handler,
  a connection or a pass of the reconciler is a sequence of steps with those of others in
  between. Rows that other transactions hold locked are an argument of the claims. The functional
  theorems on single handlers run the handler on the table as it finds it; where what others do
  meanwhile matters (the report of a runner before the worker is done, a change of the hidden
  namespaces while a read fills the cache, other goroutines between two iterations of a claim
  loop, other replicas between two looks of a refresh) it is a function in the environment.

  \<^bold>\<open>Bounds.\<close> All recursion is structural, on the rows of a table, the messages of a
  connection or the iterations of a tick, or decreases a number; no fuel is used. The doubling
  of the retry delay recurses on the number of attempts. Six attempts suffice to drain a gate
  once no further trigger arrives: at most three for the trigger at hand and three for a pending
  one.

  \<^bold>\<open>Not modelled.\<close> Provider clients, DNS, feed downloads, registry lookups and secret
  probes (network I/O); the tables an upload of scan results fills, ingestion of cluster snapshots and the
  listing endpoints (SQL over tables outside this model); authentication, encryption of secrets
  and the manifest parsers; the programs inside the scanner pods; process start-up. String folding is
  that of ASCII letters.

  \<^bold>\<open>Plan.\<close> Next: the image-scan operator with its lease and the link resolver
  (\<open>imagescan\<close>), the cache stores behind one interface (\<open>cache\<close>), run tokens and
  the read-only git proxy (\<open>runner/token.go\<close>, \<open>git_proxy.go\<close>), roles and sessions
  (\<open>auth\<close>), then the uploads of the runner, version comparison of \<open>dephealth\<close> and
  the hand-written manifest parsers.
\<close>

section \<open>Properties across components\<close>

text \<open>C1. Whatever interleaving of the statements and transactions of workers, reconcilers, runner
  connections, scanners, pollers, users and administrators produced it, the jobs table has distinct
  ids, no lock on a row that waits to be claimed, a finishing time on every finished row and no
  negative attempt count; at most one image scan per digest and one fetch per advisory is queued,
  retrying or running, at most one job of each singleton type waits, and at most one run of a
  commit of a repository.\<close>

theorem system_invariant:
  assumes "system_reachable s"
  shows "distinct (map job_id s) \<and>
    (\<forall>j \<in> set s. 0 \<le> attempts j \<and>
       (status j \<in> {Queued, Retry} \<longrightarrow> locked_at j = None \<and> locked_by j = []) \<and>
       (status j \<in> {Succeeded, Failed} \<longrightarrow> finished_at j \<noteq> None)) \<and>
    (\<forall>a \<in> set s. \<forall>b \<in> set s. \<forall>ty key. (ty, key) \<in> {(''IMAGE_SCAN'', ''image_digest_id''), (''VULN_META_FETCH'', ''vuln_id'')} \<and>
       job_type a = ty \<and> job_type b = ty \<and>
       status a \<in> {Queued, Retry, job_status.Running} \<and> status b \<in> {Queued, Retry, job_status.Running} \<and>
       json_text (payload a) key \<noteq> None \<and> json_text (payload a) key = json_text (payload b) key \<longrightarrow> a = b) \<and>
    (\<forall>a \<in> set s. \<forall>b \<in> set s. job_type a = job_type b \<and> status a \<in> {Queued, Retry} \<and> status b \<in> {Queued, Retry} \<and>
       job_type a \<in> {''REFRESH_SBOM_VIEWS'', ''OSV_SCAN'', ''FETCH_KEV'', ''FETCH_EPSS'', ''FETCH_DEP_HEALTH'',
         ''ADVISORY_BACKFILL''} \<longrightarrow> a = b) \<and>
    (\<forall>a \<in> set s. \<forall>b \<in> set s. \<forall>r c. r \<noteq> [] \<and> c \<noteq> [] \<and> (\<forall>j \<in> {a, b}.
       job_type j = ''CREATE_RUN'' \<and> status j \<in> {Queued, Retry} \<and> json_text (payload j) ''repo_id'' = Some r \<and>
       (if commit_hash j \<in> {None, Some []} then json_text (payload j) ''commit_sha'' else commit_hash j) = Some c) \<longrightarrow> a = b)"
proof -
  have inv: "store_inv s" by (rule system_reachable_inv [OF assms])
  then have ix: "index_ok s" and ids: "distinct (map job_id s)" by (simp_all add: store_inv_def)
  have rows: "0 \<le> attempts j \<and>
      (status j \<in> {Queued, Retry} \<longrightarrow> locked_at j = None \<and> locked_by j = []) \<and>
      (status j \<in> {Succeeded, Failed} \<longrightarrow> finished_at j \<noteq> None)" if "j \<in> set s" for j
    using inv that by (auto simp: store_inv_def list_all_iff row_ok_def)
  have run: "index_key j = Some (JobTypeCreateRun, [r, c])"
    if "r \<noteq> []" "c \<noteq> []" "job_type j = ''CREATE_RUN'' \<and> status j \<in> {Queued, Retry} \<and>
       json_text (payload j) ''repo_id'' = Some r \<and>
       (if commit_hash j \<in> {None, Some []} then json_text (payload j) ''commit_sha'' else commit_hash j) = Some c" for j r c
    using that by (intro index_key_run) (auto simp: pending_def job_type_defs simp del: if_split)
  show ?thesis
  proof (intro conjI ballI allI impI)
    fix j assume "j \<in> set s"
    then show "0 \<le> attempts j" and "status j \<in> {Queued, Retry} \<Longrightarrow> locked_at j = None"
      and "status j \<in> {Queued, Retry} \<Longrightarrow> locked_by j = []"
      and "status j \<in> {Succeeded, Failed} \<Longrightarrow> finished_at j \<noteq> None"
      using rows by blast+
  next
    fix a b r c
    assume "a \<in> set s" "b \<in> set s" and j: "r \<noteq> [] \<and> c \<noteq> [] \<and> (\<forall>j \<in> {a, b}.
       job_type j = ''CREATE_RUN'' \<and> status j \<in> {Queued, Retry} \<and> json_text (payload j) ''repo_id'' = Some r \<and>
       (if commit_hash j \<in> {None, Some []} then json_text (payload j) ''commit_sha'' else commit_hash j) = Some c)"
    from this(1,2) show "a = b"
      by (rule index_ok_same_key [OF ix]) (rule run; use j in blast)+
  qed (rule ids, elim conjE, rule one_active_per_key [OF ix], assumption+, elim conjE,
      rule one_waiting_singleton [OF ix], assumption+, simp add: singleton_types_def)
qed

theorem system_invariant_witness:
  "\<exists>s. system_reachable s \<and> distinct (map job_id s) \<and> length s = 2"
proof -
  let ?inp = "\<lparr>in_type = ''IMAGE_SCAN'', in_payload = None, in_run_at = None, in_max_attempts = 0\<rparr>"
  let ?a = "new_job 7 ''a'' ?inp"
  let ?b = "run_row 8 ''b'' zero_payload"
  have 1: "CreateJob True 7 ''a'' ?inp [] = Inr (?a, [?a])"
    by (simp add: CreateJob_def CreateJobTx_def db_insert_def index_ok_def Let_def split: option.split)
  have 2: "insert_run True 8 ''b'' zero_payload [?a] = Inr [?a, ?b]"
    by (simp add: insert_run_def db_insert_def run_row_def new_job_def index_ok_def index_key_def
        singleton_types_def job_type_defs encode_create_run_def omit_empty_def zero_payload_def json_text_def
        nullif_empty_def)
  have r: "system_reachable [?a, ?b]"
    by (rule system_reachable.step [OF system_reachable.step [OF system_reachable.init
          system_step.queue [OF queue_step.create [OF 1]]] system_step.insert [OF 2]])
  from system_invariant [OF r] r show ?thesis by (intro exI [of _ "[?a, ?b]"]) simp
qed

text \<open>C30. A leased image scan is taken away from its scanner after 45 seconds: nothing
  refreshes the lock of a lease, so the next sweep after that puts the job back in the
  queue, to be leased again, while the scanner still holds a run token for it.\<close>

theorem leased_scan_reclaimed:
  assumes inv: "store_inv s"
    and lease: "handleImageScanNext True skip host t mint policy url s = (200, Some r, s1)"
    and late: "t + syncJobStaleTimeout < now"
    and sweep: "RequeueStaleJobs True {} (now - syncJobStaleTimeout) asyncBefore now s1 = Inr (n, s2)"
  shows "\<exists>j \<in> set s2. job_id j = lr_job_id r \<and> job_type j = JobTypeImageScan \<and> status j = Retry \<and>
    run_at j = now + retry_delay (attempts j)"
proof -
  let ?w = "if host = [] then ''image-scanner'' else host"
  obtain j where c: "ClaimNextJobOfType True skip ?w t JobTypeImageScan s = Inr (Some j, s1)"
    and id: "job_id j = lr_job_id r"
    using lease by (auto simp: handleImageScanNext_def Let_def split: sum.splits prod.splits option.splits)
  let ?p = "\<lambda>j. job_type j = JobTypeImageScan \<and> due skip t j"
  from claim_first_cases [OF inv, of ?p ?w t] c
  obtain k where k: "k \<in> set s" "?p k" "j = claim_updates ?w t k"
    "s1 = map (\<lambda>x. if x = k then claim_updates ?w t x else x) s"
    unfolding ClaimNextJobOfType_def by (auto simp: due_def)
  have "j \<in> set s1" using k by force
  moreover have "stale (now - syncJobStaleTimeout) asyncBefore j"
    using k(2,3) late by (simp add: stale_def untouched_since_def claim_updates_def job_type_defs)
  moreover have "store_inv s1" by (rule handleImageScanNext_inv [OF lease inv])
  ultimately have "requeued now j \<in> set s2"
    using requeue_effect [OF _ sweep] by auto
  then show ?thesis
    using id k(2,3)
    by (intro bexI [of _ "requeued now j"]) (auto simp: requeue_updates_def NextRetryTime_def claim_updates_def)
qed

theorem leased_scan_reclaimed_witness:
  "\<exists>s1 r n s2. handleImageScanNext True {} ''pod'' 10 (\<lambda>_. Inr ''tok'') None ''u''
         [sample_job ''a'' ''IMAGE_SCAN'' Queued 5]
       = (200, Some r, s1) \<and>
     RequeueStaleJobs True {} (46 * second + 10 - syncJobStaleTimeout) 0 (46 * second + 10) s1 = Inr (n, s2) \<and>
     (\<exists>j \<in> set s2. job_id j = lr_job_id r \<and> status j = Retry)"
proof -
  let ?k = "sample_job ''a'' ''IMAGE_SCAN'' Queued 5"
  let ?j = "claim_updates ''pod'' 10 ?k"
  let ?r = "\<lparr>lr_job_id = ''a'', lr_image_digest_id = [], lr_registry = [], lr_repository = [], lr_digest = [],
    lr_scanners = [], lr_signing_policy = None, lr_run_token = ''tok'', lr_worker_url = ''u''\<rparr>"
  have inv: "store_inv [?k]"
    by (simp add: store_inv_def index_ok_def row_ok_def sample_defs split: option.split)
  have ix: "index_ok [x]" for x by (simp add: index_ok_def split: option.split)
  have c: "ClaimNextJobOfType True {} ''pod'' 10 JobTypeImageScan [?k] = Inr (Some ?j, [?j])"
    using ix by (simp add: ClaimNextJobOfType_def claim_first_def first_job_def due_def db_update_def set_job_def
        sample_defs job_type_defs)
  have l: "handleImageScanNext True {} ''pod'' 10 (\<lambda>_. Inr ''tok'') None ''u'' [?k] = (200, Some ?r, [?j])"
    by (simp add: handleImageScanNext_def c) (simp add: claim_updates_def sample_defs zero_scan_def)
  have late: "10 + syncJobStaleTimeout < 46 * second + 10"
    by (simp add: syncJobStaleTimeout_def duration_defs)
  obtain n s2 where sw: "RequeueStaleJobs True {} (46 * second + 10 - syncJobStaleTimeout) 0 (46 * second + 10) [?j]
      = Inr (n, s2)"
    using late ix
    by (simp add: RequeueStaleJobs_def stale_def untouched_since_def claim_updates_def sample_defs job_type_defs
        db_update_def set_job_def)
  from leased_scan_reclaimed [OF inv l late sw] l sw show ?thesis by blast
qed

end
